theory Spec2Isabelle
  imports Complex_Main "HOL-Library.Sublist"
begin

section \<open>JavaScript strings\<close>

text \<open>
  A JavaScript string is modelled as the list of its code units, one \<^typ>\<open>char\<close> each,
  for text whose code units are below 256 (the characters of ISO 8859-1). On such text
  \<open>toLowerCase\<close> maps \<open>A\<close>..\<open>Z\<close> and the capital letters U+00C0..U+00DE other than the
  multiplication sign U+00D7 to the letter 32 code units further and leaves every other
  character alone, and the white space of \<open>trim\<close> and of the regular expression class
  \<open>\s\<close> is tab, line feed, vertical tab, form feed, carriage return, space and the
  no-break space U+00A0.
\<close>

definition NL :: string where
  "NL = [CHR 0x0A]"

definition isSpace :: "char \<Rightarrow> bool" where
  "isSpace c =
     (c \<in> set [CHR 0x09, CHR 0x0A, CHR 0x0B, CHR 0x0C, CHR 0x0D, CHR 0x20, CHR 0xA0])"

definition toLowerChar :: "char \<Rightarrow> char" where
  "toLowerChar c =
     (let n = (of_char c :: nat) in
      if (65 \<le> n \<and> n \<le> 90) \<or> (192 \<le> n \<and> n \<le> 222 \<and> n \<noteq> 215) then char_of (n + 32)
      else c)"

definition toLowerCase :: "string \<Rightarrow> string" where
  "toLowerCase s = map toLowerChar s"

definition trimStart :: "string \<Rightarrow> string" where
  "trimStart s = dropWhile isSpace s"

definition trimEnd :: "string \<Rightarrow> string" where
  "trimEnd s = rev (dropWhile isSpace (rev s))"

definition trim :: "string \<Rightarrow> string" where
  "trim s = trimEnd (trimStart s)"

text \<open>\<open>s.includes(t)\<close>: \<open>t\<close> occurs in \<open>s\<close> as a contiguous substring.\<close>

definition str_includes :: "string \<Rightarrow> string \<Rightarrow> bool" where
  "str_includes s t = sublist t s"

text \<open>
  A literal pattern \<open>p\<close> of ASCII characters under the regular expression flag \<open>i\<close>, tried
  at the start of \<open>s\<close>: the next \<open>length p\<close> characters of \<open>s\<close> are those of \<open>p\<close> up to
  case.
\<close>

definition ci_prefix :: "string \<Rightarrow> string \<Rightarrow> bool" where
  "ci_prefix p s = (toLowerCase (take (length p) s) = toLowerCase p)"

section \<open>Errors\<close>

text \<open>
  What the source throws, as values: the two \<open>new Error(...)\<close> of the services, a
  rejected call of a collaborator (the completion engine, the database driver, a
  constraint of the schema), and the \<open>TypeError\<close> of the language.
\<close>

datatype error =
    LLMNotInitialized
  | CompletionFailed
  | DatabaseNotInitialized
  | ConstraintFailed
  | BindFailed
  | TypeError

section \<open>JavaScript values\<close>

text \<open>
  The values \<open>JSON.parse\<close> returns. An object is the list of its own properties, and a
  property is read at the first entry of its name. An optional value is \<open>None\<close> when
  it is \<open>undefined\<close>. \<open>JSON.parse\<close> itself is the built-in of the language: the
  functions that call it take it as the parameter \<open>JSON_parse\<close>, with \<open>None\<close> for a
  \<open>SyntaxError\<close>.
\<close>

datatype json =
    JNull
  | JBool bool
  | JNumber real
  | JString string
  | JArray "json list"
  | JObject "(string \<times> json) list"

text \<open>
  \<open>v.key\<close> for the names the pipeline reads, none of which is a property of the
  prototypes: a \<open>TypeError\<close> on \<open>null\<close>, the property of an object when it has one,
  \<open>undefined\<close> otherwise, also on a string, a number, a boolean and an array.
\<close>

fun get_property :: "json \<Rightarrow> string \<Rightarrow> error + json option" where
  "get_property JNull key = Inl TypeError"
| "get_property (JObject props) key = Inr (map_of props key)"
| "get_property v key = Inr None"

text \<open>The truth value of \<open>v\<close> in \<open>v && w\<close> and \<open>v || w\<close>.\<close>

fun truthy :: "json option \<Rightarrow> bool" where
  "truthy None = False"
| "truthy (Some JNull) = False"
| "truthy (Some (JBool b)) = b"
| "truthy (Some (JNumber x)) = (x \<noteq> 0)"
| "truthy (Some (JString x)) = (x \<noteq> [])"
| "truthy (Some (JArray xs)) = True"
| "truthy (Some (JObject props)) = True"

text \<open>
  \<open>v.toLowerCase()\<close>: the method of a string. On \<open>undefined\<close> and \<open>null\<close> the property
  read throws, on every other value there is no function to call: a \<open>TypeError\<close> either
  way.
\<close>

fun js_toLowerCase :: "json option \<Rightarrow> error + string" where
  "js_toLowerCase (Some (JString x)) = Inr (toLowerCase x)"
| "js_toLowerCase v = Inl TypeError"

text \<open>
  \<open>for (const x of v)\<close>: the elements of an array, the characters of a string, and a
  \<open>TypeError\<close> when \<open>v\<close> is not iterable.
\<close>

fun js_iterate :: "json option \<Rightarrow> error + json list" where
  "js_iterate (Some (JArray xs)) = Inr xs"
| "js_iterate (Some (JString x)) = Inr (map (\<lambda>c. JString [c]) x)"
| "js_iterate v = Inl TypeError"

text \<open>
  \<open>xs.find(p)\<close> and \<open>xs.some(p)\<close> for a callback that may throw: the callback is called
  on the elements in order, until it returns true or throws.
\<close>

fun js_find :: "('a \<Rightarrow> error + bool) \<Rightarrow> 'a list \<Rightarrow> error + 'a option" where
  "js_find p [] = Inr None"
| "js_find p (x # xs) =
     (case p x of
        Inl e \<Rightarrow> Inl e
      | Inr found \<Rightarrow> if found then Inr (Some x) else js_find p xs)"

fun js_some :: "('a \<Rightarrow> error + bool) \<Rightarrow> 'a list \<Rightarrow> error + bool" where
  "js_some p [] = Inr False"
| "js_some p (x # xs) =
     (case p x of
        Inl e \<Rightarrow> Inl e
      | Inr found \<Rightarrow> if found then Inr True else js_some p xs)"

text \<open>
  A value inside a template literal is converted to a string. The conversion of an
  object calls its \<open>toString\<close>, which for a parsed object is the one of the prototype
  unless the object has a property of that name; that property is not a function, and
  then the conversion throws a \<open>TypeError\<close>. An array converts its elements, \<open>null\<close>
  apart. \<open>template_ok v\<close>: the conversion of \<open>v\<close> returns.
\<close>

fun template_ok :: "json \<Rightarrow> bool" where
  "template_ok (JObject props) = (map_of props ''toString'' = None)"
| "template_ok (JArray xs) = list_all template_ok xs"
| "template_ok v = True"

definition template_literal :: "json list \<Rightarrow> error option" where
  "template_literal vs = (if list_all template_ok vs then None else Some TypeError)"

section \<open>The store: \<open>services/SQLiteService.ts\<close>\<close>

text \<open>
  Identifiers are the row ids of \<open>INTEGER PRIMARY KEY AUTOINCREMENT\<close> columns and points in
  time are natural numbers. A column of type \<open>TEXT\<close> is kept as the text it holds, and the
  column \<open>confidence_score\<close> as the value a query returns for it.
\<close>

record UserProfile =
  user_id :: nat
  user_name :: string
  user_nickname :: "string option"
  user_role :: "string option"
  user_age_group :: "string option"
  user_gender :: "string option"
  user_traits_json :: string
  user_created_at :: nat

record Message =
  msg_id :: nat
  msg_content :: string
  msg_sender :: string
  msg_timestamp :: nat
  msg_context_json :: "string option"

record Note =
  note_id :: nat
  note_title :: string
  note_body :: string
  note_created_by :: string
  note_tags :: "string option"
  note_created_at :: nat

record ListRow =
  list_id :: nat
  list_title :: string
  list_type :: string
  list_created_at :: nat

record ListItem =
  item_id :: nat
  item_list_id :: nat
  item_content :: string
  item_is_completed :: bool
  item_created_at :: nat

record Goal =
  goal_id :: nat
  goal_title :: string
  goal_frequency :: string
  goal_streak_count :: nat
  goal_last_completed_date :: "nat option"
  goal_target_count :: "nat option"
  goal_created_at :: nat

record MindmapNode =
  node_id :: nat
  node_label :: string
  node_category :: string
  node_confidence_score :: json
  node_linked_node_id :: "nat option"
  node_created_at :: nat

text \<open>
  The database \<open>vichar.db\<close>: each table is the list of its rows in row id order. The wall
  clock belongs to the environment: \<open>db_clock d n\<close> is what it shows the \<open>n\<close>-th time it is
  read, and \<open>db_clock_reads\<close> counts the readings so far. \<open>CURRENT_TIMESTAMP\<close> and
  \<open>new Date()\<close> both read it.

  The parameters of a statement are typed in the source, but nothing checks the types at
  run time, and the extraction pipeline passes on what the language model wrote. What
  the driver \<open>expo-sqlite\<close> and the affinity of the column make of a value that is not of
  the type of the column belongs to the collaborator: \<open>db_text_affinity d v\<close> is the text
  a \<open>TEXT\<close> column holds after \<open>v\<close> was bound, \<open>db_real_affinity d v\<close> the value that a
  query returns for a \<open>REAL\<close> column after \<open>v\<close> was bound, or the error of the
  statement.
\<close>

record Database =
  db_User :: "UserProfile list"
  db_Messages :: "Message list"
  db_Notes :: "Note list"
  db_Lists :: "ListRow list"
  db_ListItems :: "ListItem list"
  db_Goals :: "Goal list"
  db_MindmapNodes :: "MindmapNode list"
  db_clock :: "nat \<Rightarrow> nat"
  db_clock_reads :: nat
  db_text_affinity :: "json \<Rightarrow> error + string"
  db_real_affinity :: "json \<Rightarrow> error + json"

record SQLiteService =
  svc_db :: "Database option"

definition read_clock :: "Database \<Rightarrow> nat \<times> Database" where
  "read_clock d = (db_clock d (db_clock_reads d), d\<lparr>db_clock_reads := Suc (db_clock_reads d)\<rparr>)"

text \<open>
  A value bound to a parameter for a column \<open>TEXT NOT NULL\<close>: a string is stored as it
  is and \<open>null\<close> violates the constraint. A value bound for the column
  \<open>confidence_score REAL\<close>: a number is stored as it is.
\<close>

definition bind_text :: "Database \<Rightarrow> json \<Rightarrow> error + string" where
  "bind_text d v =
     (case v of
        JString x \<Rightarrow> Inr x
      | JNull \<Rightarrow> Inl ConstraintFailed
      | _ \<Rightarrow> db_text_affinity d v)"

definition bind_real :: "Database \<Rightarrow> json \<Rightarrow> error + json" where
  "bind_real d v =
     (case v of
        JNumber x \<Rightarrow> Inr (JNumber x)
      | _ \<Rightarrow> db_real_affinity d v)"

text \<open>
  \<open>AUTOINCREMENT\<close>: one more than the largest row id the table ever held. No statement
  of the service deletes a row, so that is the largest row id in the table.
\<close>

definition lastInsertRowId :: "nat list \<Rightarrow> nat" where
  "lastInsertRowId ids = Suc (fold max ids 0)"

text \<open>
  \<open>ORDER BY col ASC\<close> and \<open>ORDER BY col DESC\<close>; rows with equal keys stay in row id
  order.
\<close>

definition order_by_asc :: "('a \<Rightarrow> nat) \<Rightarrow> 'a list \<Rightarrow> 'a list" where
  "order_by_asc col rows = sort_key col rows"

definition order_by_desc :: "('a \<Rightarrow> nat) \<Rightarrow> 'a list \<Rightarrow> 'a list" where
  "order_by_desc col rows = rev (sort_key col (rev rows))"

definition getAllMessages :: "SQLiteService \<Rightarrow> error + Message list" where
  "getAllMessages s =
     (case svc_db s of
        None \<Rightarrow> Inl DatabaseNotInitialized
      | Some d \<Rightarrow> Inr (order_by_asc msg_timestamp (db_Messages d)))"

definition addNote ::
  "SQLiteService \<Rightarrow> json \<Rightarrow> json \<Rightarrow> string \<Rightarrow> string option \<Rightarrow> error + nat \<times> SQLiteService" where
  "addNote s title body createdBy tags =
     (case svc_db s of
        None \<Rightarrow> Inl DatabaseNotInitialized
      | Some d \<Rightarrow>
          (case bind_text d title of
             Inl e \<Rightarrow> Inl e
           | Inr title_text \<Rightarrow>
               (case bind_text d body of
                  Inl e \<Rightarrow> Inl e
                | Inr body_text \<Rightarrow>
                    if createdBy \<notin> set [''user'', ''vi''] then Inl ConstraintFailed
                    else let (now, d1) = read_clock d;
                             rowid = lastInsertRowId (map note_id (db_Notes d1));
                             row = \<lparr>note_id = rowid, note_title = title_text,
                                    note_body = body_text, note_created_by = createdBy,
                                    note_tags = (case tags of None \<Rightarrow> None
                                                 | Some t \<Rightarrow> if t = [] then None else Some t),
                                    note_created_at = now\<rparr>
                         in Inr (rowid,
                                 s\<lparr>svc_db := Some (d1\<lparr>db_Notes := db_Notes d1 @ [row]\<rparr>)\<rparr>))))"

definition createList :: "SQLiteService \<Rightarrow> string \<Rightarrow> string \<Rightarrow> error + nat \<times> SQLiteService" where
  "createList s title type =
     (case svc_db s of
        None \<Rightarrow> Inl DatabaseNotInitialized
      | Some d \<Rightarrow>
          let (now, d1) = read_clock d;
              rowid = lastInsertRowId (map list_id (db_Lists d1));
              row = \<lparr>list_id = rowid, list_title = title, list_type = type, list_created_at = now\<rparr>
          in Inr (rowid, s\<lparr>svc_db := Some (d1\<lparr>db_Lists := db_Lists d1 @ [row]\<rparr>)\<rparr>))"

definition getAllLists :: "SQLiteService \<Rightarrow> error + ListRow list" where
  "getAllLists s =
     (case svc_db s of
        None \<Rightarrow> Inl DatabaseNotInitialized
      | Some d \<Rightarrow> Inr (order_by_desc list_created_at (db_Lists d)))"

definition addListItem :: "SQLiteService \<Rightarrow> nat \<Rightarrow> json \<Rightarrow> error + nat \<times> SQLiteService" where
  "addListItem s listId content =
     (case svc_db s of
        None \<Rightarrow> Inl DatabaseNotInitialized
      | Some d \<Rightarrow>
          (case bind_text d content of
             Inl e \<Rightarrow> Inl e
           | Inr content_text \<Rightarrow>
               let (now, d1) = read_clock d;
                   rowid = lastInsertRowId (map item_id (db_ListItems d1));
                   row = \<lparr>item_id = rowid, item_list_id = listId, item_content = content_text,
                          item_is_completed = False, item_created_at = now\<rparr>
               in Inr (rowid, s\<lparr>svc_db := Some (d1\<lparr>db_ListItems := db_ListItems d1 @ [row]\<rparr>)\<rparr>)))"

definition getListItems :: "SQLiteService \<Rightarrow> nat \<Rightarrow> error + ListItem list" where
  "getListItems s listId =
     (case svc_db s of
        None \<Rightarrow> Inl DatabaseNotInitialized
      | Some d \<Rightarrow>
          Inr (order_by_asc item_created_at
                 (filter (\<lambda>r. item_list_id r = listId) (db_ListItems d))))"

definition getAllGoals :: "SQLiteService \<Rightarrow> error + Goal list" where
  "getAllGoals s =
     (case svc_db s of
        None \<Rightarrow> Inl DatabaseNotInitialized
      | Some d \<Rightarrow> Inr (order_by_desc goal_created_at (db_Goals d)))"

definition updateGoalStreak :: "SQLiteService \<Rightarrow> nat \<Rightarrow> error + SQLiteService" where
  "updateGoalStreak s goalId =
     (case svc_db s of
        None \<Rightarrow> Inl DatabaseNotInitialized
      | Some d \<Rightarrow>
          let (now, d1) = read_clock d;
              rows = map (\<lambda>g. if goal_id g = goalId
                               then g\<lparr>goal_streak_count := goal_streak_count g + 1,
                                      goal_last_completed_date := Some now\<rparr>
                               else g) (db_Goals d1)
          in Inr (s\<lparr>svc_db := Some (d1\<lparr>db_Goals := rows\<rparr>)\<rparr>))"

text \<open>
  \<open>addMindmapNode(label, category, confidenceScore = 0.8, linkedNodeId)\<close>. The
  parameters are bound in the order of the statement, and the \<open>CHECK\<close> constraint of
  \<open>category\<close> is tested on the text the column would hold.
\<close>

definition addMindmapNode ::
  "SQLiteService \<Rightarrow> json \<Rightarrow> json \<Rightarrow> json option \<Rightarrow> nat option \<Rightarrow> error + nat \<times> SQLiteService" where
  "addMindmapNode s label category confidenceScore linkedNodeId =
     (case svc_db s of
        None \<Rightarrow> Inl DatabaseNotInitialized
      | Some d \<Rightarrow>
          (case bind_text d label of
             Inl e \<Rightarrow> Inl e
           | Inr label_text \<Rightarrow>
               (case bind_text d category of
                  Inl e \<Rightarrow> Inl e
                | Inr category_text \<Rightarrow>
                    (case bind_real d (case confidenceScore of None \<Rightarrow> JNumber 0.8 | Some c \<Rightarrow> c) of
                       Inl e \<Rightarrow> Inl e
                     | Inr confidence \<Rightarrow>
                         if category_text \<notin> set [''values'', ''goals'', ''personality'', ''facts'']
                         then Inl ConstraintFailed
                         else let (now, d1) = read_clock d;
                                  rowid = lastInsertRowId (map node_id (db_MindmapNodes d1));
                                  row = \<lparr>node_id = rowid, node_label = label_text,
                                         node_category = category_text,
                                         node_confidence_score = confidence,
                                         node_linked_node_id =
                                           (case linkedNodeId of None \<Rightarrow> None
                                            | Some l \<Rightarrow> if l = 0 then None else Some l),
                                         node_created_at = now\<rparr>
                              in Inr (rowid,
                                      s\<lparr>svc_db := Some (d1\<lparr>db_MindmapNodes :=
                                                             db_MindmapNodes d1 @ [row]\<rparr>)\<rparr>)))))"

definition getAllMindmapNodes :: "SQLiteService \<Rightarrow> error + MindmapNode list" where
  "getAllMindmapNodes s =
     (case svc_db s of
        None \<Rightarrow> Inl DatabaseNotInitialized
      | Some d \<Rightarrow> Inr (order_by_asc node_created_at (db_MindmapNodes d)))"

section \<open>The completion service: \<open>services/LLMService.ts\<close>\<close>

record CompletionParams =
  cp_prompt :: string
  cp_n_predict :: "nat option"
  cp_temperature :: real
  cp_top_k :: nat
  cp_top_p :: "real option"
  cp_stop :: "string list"

text \<open>
  The \<open>llama.rn\<close> context is the collaborator behind \<open>context.completion\<close>: a function
  from the parameters of a call to the generated text, or to the error it throws.
\<close>

type_synonym LlamaContext = "CompletionParams \<Rightarrow> error + string"

record LLMService =
  llm_context :: "LlamaContext option"
  llm_systemPrompt :: string
  llm_isInitialized :: bool

record GenerationOptions =
  opt_temperature :: "real option"
  opt_maxTokens :: "nat option"
  opt_topK :: "nat option"
  opt_topP :: "real option"

record GenerationResult =
  res_text :: string
  res_suggestions :: "string list option"

subsection \<open>\<open>buildChatMLPrompt\<close>\<close>

text \<open>\<open>xs.slice(-n)\<close>: the last \<open>n\<close> elements, all of them when there are fewer.\<close>

definition slice_last :: "nat \<Rightarrow> 'a list \<Rightarrow> 'a list" where
  "slice_last n xs = drop (length xs - n) xs"

definition chatml_role :: "Message \<Rightarrow> string" where
  "chatml_role msg = (if msg_sender msg = ''user'' then ''user'' else ''assistant'')"

definition chatml_block :: "string \<Rightarrow> string \<Rightarrow> string" where
  "chatml_block role content = ''<|im_start|>'' @ role @ NL @ content @ ''<|im_end|>'' @ NL"

definition buildChatMLPrompt :: "LLMService \<Rightarrow> string \<Rightarrow> Message list \<Rightarrow> string" where
  "buildChatMLPrompt svc userMessage conversationHistory =
     (let prompt0 = chatml_block ''system'' (llm_systemPrompt svc);
          recentMessages = slice_last 6 conversationHistory;
          prompt1 = fold (\<lambda>msg prompt. prompt @ chatml_block (chatml_role msg) (msg_content msg))
                      recentMessages prompt0;
          prompt2 = prompt1 @ chatml_block ''user'' userMessage
      in prompt2 @ ''<|im_start|>assistant'' @ NL)"

subsection \<open>\<open>cleanResponse\<close>\<close>

text \<open>
  \<open>/<think>[\s\S]*?<\/think>/gi\<close>. After an opening tag the lazy \<open>[\s\S]*?\<close> stops at the
  first closing tag; \<open>find_close\<close> returns the text behind it, and \<open>None\<close> when no closing
  tag follows. The scan then goes on behind the match, or one character further when
  there is no match at the current position.
\<close>

fun find_close :: "string \<Rightarrow> string option" where
  "find_close [] = None"
| "find_close (c # cs) =
     (if ci_prefix ''</think>'' (c # cs) then Some (drop 8 (c # cs)) else find_close cs)"

function remove_think_blocks :: "string \<Rightarrow> string" where
  "remove_think_blocks [] = []"
| "remove_think_blocks (c # cs) =
     (if ci_prefix ''<think>'' (c # cs) then
        (case find_close (drop 7 (c # cs)) of
           Some rest \<Rightarrow> remove_think_blocks rest
         | None \<Rightarrow> c # remove_think_blocks cs)
      else c # remove_think_blocks cs)"
  by pat_completeness auto
termination
proof (relation "measure length")
  fix c cs rest
  have shorter: "find_close s = Some r \<Longrightarrow> length r < length s" for s r
    by (induction s) (auto split: if_splits)
  assume "find_close (drop 7 (c # cs)) = Some rest"
  then have "length rest < length (drop 7 (c # cs))"
    by (rule shorter)
  then show "(rest, c # cs) \<in> measure length"
    by simp
qed simp_all

text \<open>\<open>/<think>[\s\S]*$/gi\<close>: everything from the first opening tag on.\<close>

fun remove_unclosed_think :: "string \<Rightarrow> string" where
  "remove_unclosed_think [] = []"
| "remove_unclosed_think (c # cs) =
     (if ci_prefix ''<think>'' (c # cs) then [] else c # remove_unclosed_think cs)"

text \<open>
  \<open>text.replace(/tok/g, '')\<close> for a literal, non-empty \<open>tok\<close>: one pass from left to
  right, which goes on behind each occurrence it removes.
\<close>

function remove_all :: "string \<Rightarrow> string \<Rightarrow> string" where
  "remove_all tok [] = []"
| "remove_all tok (c # cs) =
     (if tok \<noteq> [] \<and> prefix tok (c # cs) then remove_all tok (drop (length tok) (c # cs))
      else c # remove_all tok cs)"
  by pat_completeness auto
termination
  by (relation "measure (\<lambda>(tok, s). length s)") auto

text \<open>
  \<open>text.replace(/\n{3,}/g, '\n\n')\<close>: a match starts where three line feeds start and
  takes every line feed that follows.
\<close>

function collapse_newlines :: "string \<Rightarrow> string" where
  "collapse_newlines [] = []"
| "collapse_newlines (c # cs) =
     (if prefix (NL @ NL @ NL) (c # cs)
      then NL @ NL @ collapse_newlines (dropWhile (\<lambda>x. x = CHR 0x0A) (c # cs))
      else c # collapse_newlines cs)"
  by pat_completeness auto
termination
proof (relation "measure length")
  fix c :: char and cs :: string
  assume "prefix (NL @ NL @ NL) (c # cs)"
  then have "c = CHR 0x0A"
    by (simp add: NL_def)
  then have "length (dropWhile (\<lambda>x. x = CHR 0x0A) (c # cs)) \<le> length cs"
    by (simp add: length_dropWhile_le)
  then show "(dropWhile (\<lambda>x. x = CHR 0x0A) (c # cs), c # cs) \<in> measure length"
    by simp
qed simp_all

definition cleanResponse :: "string \<Rightarrow> string" where
  "cleanResponse text =
     (if text = [] then []
      else let cleaned = remove_think_blocks text;
               cleaned = remove_unclosed_think cleaned;
               cleaned = remove_all ''<|im_end|>'' cleaned;
               cleaned = remove_all ''<|im_start|>'' cleaned;
               cleaned = collapse_newlines cleaned
           in trim cleaned)"

subsection \<open>\<open>extractSuggestions\<close> and \<open>removeSuggestions\<close>\<close>

text \<open>
  One attempt of \<open>/\[([^\]]+)\]/\<close> at the start of \<open>s\<close>: an opening bracket, at least one
  character other than a closing bracket, and the closing bracket. The result is the
  captured inner text and the text behind the match.
\<close>

definition match_bracket :: "string \<Rightarrow> (string \<times> string) option" where
  "match_bracket s =
     (case s of
        [] \<Rightarrow> None
      | c # cs \<Rightarrow>
          if c \<noteq> CHR ''['' then None
          else let inner = takeWhile (\<lambda>x. x \<noteq> CHR '']'') cs;
                   rest = dropWhile (\<lambda>x. x \<noteq> CHR '']'') cs
               in if inner \<noteq> [] \<and> rest \<noteq> [] then Some (inner, tl rest) else None)"

text \<open>\<open>text.match(/\[([^\]]+)\]/g)\<close>: the matched substrings, brackets included.\<close>

function bracket_matches :: "string \<Rightarrow> string list" where
  "bracket_matches [] = []"
| "bracket_matches (c # cs) =
     (case match_bracket (c # cs) of
        Some (inner, rest) \<Rightarrow> (''['' @ inner @ '']'') # bracket_matches rest
      | None \<Rightarrow> bracket_matches cs)"
  by pat_completeness auto
termination
proof (relation "measure length")
  fix c cs x inner rest
  have shorter: "match_bracket s = Some (i, r) \<Longrightarrow> length r < length s" for s i r
  proof -
    assume a: "match_bracket s = Some (i, r)"
    then obtain d ds where s: "s = d # ds"
      by (cases s) (auto simp: match_bracket_def)
    from a s have "r = tl (dropWhile (\<lambda>x. x \<noteq> CHR '']'') ds)"
      by (auto simp: match_bracket_def Let_def split: if_splits)
    moreover have "length (dropWhile (\<lambda>x. x \<noteq> CHR '']'') ds) \<le> length ds"
      by (rule length_dropWhile_le)
    ultimately show ?thesis
      using s by simp
  qed
  assume "match_bracket (c # cs) = Some x" "(inner, rest) = x"
  then have "match_bracket (c # cs) = Some (inner, rest)"
    by simp
  then have "length rest < length (c # cs)"
    by (rule shorter)
  then show "(rest, c # cs) \<in> measure length"
    by simp
qed simp_all

text \<open>\<open>text.split('\n').pop() || ''\<close>: the text behind the last line feed.\<close>

definition lastLine :: "string \<Rightarrow> string" where
  "lastLine text = rev (takeWhile (\<lambda>x. x \<noteq> CHR 0x0A) (rev text))"

text \<open>\<open>match.slice(1, -1)\<close>\<close>

definition slice_1_m1 :: "string \<Rightarrow> string" where
  "slice_1_m1 m = butlast (tl m)"

definition extractSuggestions :: "string \<Rightarrow> string list" where
  "extractSuggestions text =
     (let matches = bracket_matches text in
      if matches = [] then []
      else let endMatches = bracket_matches (lastLine text) in
           if endMatches = [] then [] else map slice_1_m1 endMatches)"

text \<open>
  \<open>/\s*\[([^\]]+)\](?:\s*\[([^\]]+)\])*\s*$/\<close>. \<open>chips_tail\<close> is the part behind the first
  bracket, \<open>(?:\s*\[([^\]]+)\])*\s*$\<close>, which has to reach the end of the text;
  \<open>chips_at\<close> is the whole expression tried at the start of \<open>s\<close>; the replacement takes
  the leftmost position where it matches.
\<close>

function chips_tail :: "string \<Rightarrow> bool" where
  "chips_tail s =
     (let t = dropWhile isSpace s in
      if t = [] then True
      else (case match_bracket t of
              Some (inner, rest) \<Rightarrow> chips_tail rest
            | None \<Rightarrow> False))"
  by pat_completeness auto
termination
proof (relation "measure length")
  fix s t x inner rest
  have shorter: "match_bracket u = Some (i, r) \<Longrightarrow> length r < length u" for u i r
  proof -
    assume a: "match_bracket u = Some (i, r)"
    then obtain d ds where s: "u = d # ds"
      by (cases u) (auto simp: match_bracket_def)
    from a s have "r = tl (dropWhile (\<lambda>x. x \<noteq> CHR '']'') ds)"
      by (auto simp: match_bracket_def Let_def split: if_splits)
    moreover have "length (dropWhile (\<lambda>x. x \<noteq> CHR '']'') ds) \<le> length ds"
      by (rule length_dropWhile_le)
    ultimately show ?thesis
      using s by simp
  qed
  assume "t = dropWhile isSpace s" "match_bracket t = Some x" "(inner, rest) = x"
  then have "match_bracket (dropWhile isSpace s) = Some (inner, rest)"
    by simp
  then have "length rest < length (dropWhile isSpace s)"
    by (rule shorter)
  moreover have "length (dropWhile isSpace s) \<le> length s"
    by (rule length_dropWhile_le)
  ultimately show "(rest, s) \<in> measure length"
    by simp
qed simp_all

definition chips_at :: "string \<Rightarrow> bool" where
  "chips_at s =
     (case match_bracket (dropWhile isSpace s) of
        Some (inner, rest) \<Rightarrow> chips_tail rest
      | None \<Rightarrow> False)"

fun remove_chips :: "string \<Rightarrow> string" where
  "remove_chips [] = []"
| "remove_chips (c # cs) = (if chips_at (c # cs) then [] else c # remove_chips cs)"

definition removeSuggestions :: "string \<Rightarrow> string" where
  "removeSuggestions text = trim (remove_chips text)"

subsection \<open>\<open>generateResponse\<close>\<close>

definition generateResponse ::
  "LLMService \<Rightarrow> string \<Rightarrow> Message list \<Rightarrow> GenerationOptions \<Rightarrow> error + GenerationResult" where
  "generateResponse svc userMessage conversationHistory options =
     (case llm_context svc of
        None \<Rightarrow> Inl LLMNotInitialized
      | Some ctx \<Rightarrow>
          if \<not> llm_isInitialized svc then Inl LLMNotInitialized
          else
            let temperature = (case opt_temperature options of None \<Rightarrow> 0.1 | Some t \<Rightarrow> t);
                topK = (case opt_topK options of None \<Rightarrow> 50 | Some k \<Rightarrow> k);
                topP = (case opt_topP options of None \<Rightarrow> 0.1 | Some p \<Rightarrow> p);
                prompt = buildChatMLPrompt svc userMessage conversationHistory
            in case ctx \<lparr>cp_prompt = prompt, cp_n_predict = None, cp_temperature = temperature,
                         cp_top_k = topK, cp_top_p = Some topP,
                         cp_stop = [''<|im_end|>'', ''<|im_start|>'', ''user:'', ''assistant:'']\<rparr> of
                 Inl e \<Rightarrow> Inl e
               | Inr result_text \<Rightarrow>
                   let cleanedText = cleanResponse result_text;
                       suggestions = extractSuggestions cleanedText;
                       finalText = removeSuggestions cleanedText
                   in Inr \<lparr>res_text = finalText,
                           res_suggestions = (if length suggestions > 0 then Some suggestions else None)\<rparr>)"

subsection \<open>\<open>analyzeConversation\<close> and \<open>isReady\<close>\<close>

fun join :: "string \<Rightarrow> string list \<Rightarrow> string" where
  "join sep [] = []"
| "join sep [x] = x"
| "join sep (x # y # ys) = x @ sep @ join sep (y # ys)"

definition analysisPrompt :: "string \<Rightarrow> string" where
  \<open>analysisPrompt conversationText =
     ''You are analyzing a conversation to extract structured information.'' @ NL @
     NL @
     ''Conversation:'' @ NL @
     conversationText @ NL @
     NL @
     ''Extract the following and respond ONLY with valid JSON:'' @ NL @
     ''1. Important information to save as notes'' @ NL @
     ''2. Tasks or items to add to lists (specify list name: groceries, todo, movies, etc.)'' @ NL @
     ''3. Goals that were mentioned as completed'' @ NL @
     ''4. New facts about the user (personality, values, preferences)'' @ NL @
     NL @
     ''JSON format:'' @ NL @
     ''{'' @ NL @
     ''  "notes": [{"title": "Short title", "body": "Full content"}],'' @ NL @
     ''  "listItems": [{"listName": "groceries", "items": ["item1", "item2"]}],'' @ NL @
     ''  "completedGoals": [{"title": "Goal name"}],'' @ NL @
     ''  "mindmapNodes": [{"label": "User fact", "category": "values|goals|personality|facts", "confidence": 0.8}]'' @ NL @
     ''}'' @ NL @
     NL @
     ''If nothing to extract, return empty arrays. Respond with JSON only:''\<close>

definition analyzeConversation :: "LLMService \<Rightarrow> Message list \<Rightarrow> error + string" where
  "analyzeConversation svc messages =
     (case llm_context svc of
        None \<Rightarrow> Inl LLMNotInitialized
      | Some ctx \<Rightarrow>
          if \<not> llm_isInitialized svc then Inl LLMNotInitialized
          else
            let conversationText =
                  join NL (map (\<lambda>m. (if msg_sender m = ''user'' then ''User'' else ''Vi'') @
                                      '': '' @ msg_content m) messages)
            in case ctx \<lparr>cp_prompt = analysisPrompt conversationText, cp_n_predict = Some 1024,
                         cp_temperature = 0.3, cp_top_k = 40, cp_top_p = None,
                         cp_stop = [NL @ NL @ NL]\<rparr> of
                 Inl e \<Rightarrow> Inl e
               | Inr result_text \<Rightarrow> Inr (trim result_text))"

definition isReady :: "LLMService \<Rightarrow> bool" where
  "isReady svc = (llm_isInitialized svc \<and> llm_context svc \<noteq> None)"

section \<open>The extraction pipeline: \<open>services/BackgroundAgent.ts\<close>\<close>

subsection \<open>The analysis result\<close>

text \<open>
  The interface \<open>AnalysisResult\<close>. Nothing checks the types of the items at run time:
  each of the four arrays holds whatever \<open>JSON.parse\<close> produced.
\<close>

record AnalysisResult =
  ar_notes :: "json list"
  ar_listItems :: "json list"
  ar_completedGoals :: "json list"
  ar_mindmapNodes :: "json list"

subsection \<open>\<open>parseAnalysisResult\<close>\<close>

text \<open>\<open>Array.isArray(v) ? v : []\<close>\<close>

fun array_or_empty :: "json option \<Rightarrow> json list" where
  "array_or_empty (Some (JArray xs)) = xs"
| "array_or_empty v = []"

text \<open>\<open>cleanJson.replace(/^```json\n?/i, '')\<close> and \<open>cleanJson.replace(/\n?```$/, '')\<close>\<close>

definition strip_fence_open :: "string \<Rightarrow> string" where
  "strip_fence_open s =
     (if ci_prefix ''```json'' s
      then let r = drop 7 s in if prefix NL r then drop 1 r else r
      else s)"

definition strip_fence_close :: "string \<Rightarrow> string" where
  "strip_fence_close s =
     (if suffix (NL @ ''```'') s then take (length s - 4) s
      else if suffix ''```'' s then take (length s - 3) s
      else s)"

definition clean_json :: "string \<Rightarrow> string" where
  "clean_json rawJson =
     (let cleanJson = trim rawJson;
          cleanJson = strip_fence_open cleanJson;
          cleanJson = strip_fence_close cleanJson
      in trim cleanJson)"

definition parseAnalysisResult :: "(string \<Rightarrow> json option) \<Rightarrow> string \<Rightarrow> AnalysisResult option" where
  "parseAnalysisResult JSON_parse rawJson =
     (case JSON_parse (clean_json rawJson) of
        None \<Rightarrow> None
      | Some parsed \<Rightarrow>
          (case get_property parsed ''notes'' of
             Inl e \<Rightarrow> None
           | Inr p_notes \<Rightarrow>
               (case get_property parsed ''listItems'' of
                  Inl e \<Rightarrow> None
                | Inr p_listItems \<Rightarrow>
                    (case get_property parsed ''completedGoals'' of
                       Inl e \<Rightarrow> None
                     | Inr p_completedGoals \<Rightarrow>
                         (case get_property parsed ''mindmapNodes'' of
                            Inl e \<Rightarrow> None
                          | Inr p_mindmapNodes \<Rightarrow>
                              Some \<lparr>ar_notes = array_or_empty p_notes,
                                    ar_listItems = array_or_empty p_listItems,
                                    ar_completedGoals = array_or_empty p_completedGoals,
                                    ar_mindmapNodes = array_or_empty p_mindmapNodes\<rparr>)))))"

subsection \<open>\<open>applyAnalysisResults\<close>\<close>

text \<open>
  A \<open>for (const x of xs) { await ... }\<close> loop over the store: the body either completes
  (\<open>None\<close>) or throws (\<open>Some e\<close>), and a throw leaves the loop with the store as it is at
  that moment.
\<close>

type_synonym store_step = "SQLiteService \<Rightarrow> error option \<times> SQLiteService"

fun for_of :: "('a \<Rightarrow> store_step) \<Rightarrow> 'a list \<Rightarrow> store_step" where
  "for_of body [] s = (None, s)"
| "for_of body (x # xs) s =
     (case body x s of
        (Some e, s') \<Rightarrow> (Some e, s')
      | (None, s') \<Rightarrow> for_of body xs s')"

text \<open>One statement after another.\<close>

definition and_then :: "store_step \<Rightarrow> store_step \<Rightarrow> store_step" where
  "and_then p q s = (case p s of (Some e, s') \<Rightarrow> (Some e, s') | (None, s') \<Rightarrow> q s')"

text \<open>
  The body of the loop over \<open>analysis.notes\<close>. The template literal of the log line is
  evaluated after the note was added.
\<close>

definition applyNote :: "json \<Rightarrow> store_step" where
  "applyNote note s =
     (case get_property note ''title'' of
        Inl e \<Rightarrow> (Some e, s)
      | Inr title \<Rightarrow>
          if \<not> truthy title then (None, s)
          else
            (case get_property note ''body'' of
               Inl e \<Rightarrow> (Some e, s)
             | Inr body \<Rightarrow>
                 if \<not> truthy body then (None, s)
                 else
                   (case addNote s (the title) (the body) ''vi'' None of
                      Inl e \<Rightarrow> (Some e, s)
                    | Inr (rowid, s') \<Rightarrow> (template_literal [the title], s'))))"

text \<open>\<open>listName.toLowerCase().replace(/\s+/g, '_')\<close>: each run of white space becomes one underscore.\<close>

function replace_ws_runs :: "string \<Rightarrow> string" where
  "replace_ws_runs [] = []"
| "replace_ws_runs (c # cs) =
     (if isSpace c then CHR ''_'' # replace_ws_runs (dropWhile isSpace cs)
      else c # replace_ws_runs cs)"
  by pat_completeness auto
termination
  by (relation "measure length") (auto simp: length_dropWhile_le less_Suc_eq_le)

text \<open>
  The test of \<open>allLists.find\<close> and of \<open>allGoals.find\<close> on two strings, and the callback
  itself: it reads the name under \<open>key\<close> from the item and lower-cases it, which throws
  unless the name is a string.
\<close>

definition title_matches :: "string \<Rightarrow> string \<Rightarrow> bool" where
  "title_matches title name =
     (str_includes (toLowerCase title) (toLowerCase name) \<or>
      str_includes (toLowerCase name) (toLowerCase title))"

definition matches_item :: "json \<Rightarrow> string \<Rightarrow> string \<Rightarrow> error + bool" where
  "matches_item item key title =
     (case get_property item key of
        Inl e \<Rightarrow> Inl e
      | Inr name \<Rightarrow>
          (case js_toLowerCase name of
             Inl e \<Rightarrow> Inl e
           | Inr lowered \<Rightarrow>
               Inr (str_includes (toLowerCase title) lowered \<or>
                    str_includes lowered (toLowerCase title))))"

text \<open>
  The callback of \<open>existingItems.some\<close> and of \<open>existingNodes.some\<close>:
  \<open>existing.toLowerCase() === v.toLowerCase()\<close>.
\<close>

definition equals_lowered :: "json option \<Rightarrow> string \<Rightarrow> error + bool" where
  "equals_lowered v existing =
     (case js_toLowerCase v of
        Inl e \<Rightarrow> Inl e
      | Inr lowered \<Rightarrow> Inr (toLowerCase existing = lowered))"

text \<open>The body of the inner loop over \<open>listGroup.items\<close> when a list was found.\<close>

definition addItemUnlessDuplicate :: "nat \<Rightarrow> json \<Rightarrow> store_step" where
  "addItemUnlessDuplicate targetListId item s =
     (case getListItems s targetListId of
        Inl e \<Rightarrow> (Some e, s)
      | Inr existingItems \<Rightarrow>
          (case js_some (\<lambda>existing. equals_lowered (Some item) (item_content existing))
                  existingItems of
             Inl e \<Rightarrow> (Some e, s)
           | Inr isDuplicate \<Rightarrow>
               if \<not> isDuplicate then
                 (case addListItem s targetListId item of
                    Inl e \<Rightarrow> (Some e, s)
                  | Inr (rowid, s') \<Rightarrow> (template_literal [item], s'))
               else (None, s)))"

text \<open>The body of the inner loop over \<open>listGroup.items\<close> for a new list.\<close>

definition addItem :: "nat \<Rightarrow> json \<Rightarrow> store_step" where
  "addItem newListId item s =
     (case addListItem s newListId item of
        Inl e \<Rightarrow> (Some e, s)
      | Inr (rowid, s') \<Rightarrow> (None, s'))"

text \<open>\<open>for (const item of listGroup.items) body\<close>\<close>

definition for_items :: "json \<Rightarrow> (json \<Rightarrow> store_step) \<Rightarrow> store_step" where
  "for_items listGroup body s =
     (case get_property listGroup ''items'' of
        Inl e \<Rightarrow> (Some e, s)
      | Inr items \<Rightarrow>
          (case js_iterate items of
             Inl e \<Rightarrow> (Some e, s)
           | Inr xs \<Rightarrow> for_of body xs s))"

text \<open>
  The body of the loop over \<open>analysis.listItems\<close>. The arguments of \<open>createList\<close> are
  evaluated before the call: the second one throws unless the name is a string.
\<close>

definition applyListGroup :: "json \<Rightarrow> store_step" where
  "applyListGroup listGroup s =
     (case getAllLists s of
        Inl e \<Rightarrow> (Some e, s)
      | Inr allLists \<Rightarrow>
          (case js_find (\<lambda>list. matches_item listGroup ''listName'' (list_title list)) allLists of
             Inl e \<Rightarrow> (Some e, s)
           | Inr (Some targetList) \<Rightarrow>
               for_items listGroup (addItemUnlessDuplicate (list_id targetList)) s
           | Inr None \<Rightarrow>
               (case get_property listGroup ''listName'' of
                  Inl e \<Rightarrow> (Some e, s)
                | Inr listName \<Rightarrow>
                    (case listName of
                       Some (JString name) \<Rightarrow>
                         (case createList s name (replace_ws_runs (toLowerCase name)) of
                            Inl e \<Rightarrow> (Some e, s)
                          | Inr (newListId, s') \<Rightarrow> for_items listGroup (addItem newListId) s')
                     | _ \<Rightarrow> (Some TypeError, s)))))"

text \<open>The body of the loop over \<open>analysis.completedGoals\<close>.\<close>

definition applyGoalCompletion :: "json \<Rightarrow> store_step" where
  "applyGoalCompletion goalCompletion s =
     (case getAllGoals s of
        Inl e \<Rightarrow> (Some e, s)
      | Inr allGoals \<Rightarrow>
          (case js_find (\<lambda>goal. matches_item goalCompletion ''title'' (goal_title goal)) allGoals of
             Inl e \<Rightarrow> (Some e, s)
           | Inr (Some targetGoal) \<Rightarrow>
               (case updateGoalStreak s (goal_id targetGoal) of
                  Inl e \<Rightarrow> (Some e, s)
                | Inr s' \<Rightarrow> (None, s'))
           | Inr None \<Rightarrow> (None, s)))"

text \<open>The body of the loop over \<open>analysis.mindmapNodes\<close>.\<close>

definition applyMindmapNode :: "json \<Rightarrow> store_step" where
  "applyMindmapNode node s =
     (case get_property node ''label'' of
        Inl e \<Rightarrow> (Some e, s)
      | Inr label \<Rightarrow>
          if \<not> truthy label then (None, s)
          else
            (case get_property node ''category'' of
               Inl e \<Rightarrow> (Some e, s)
             | Inr category \<Rightarrow>
                 if \<not> truthy category then (None, s)
                 else
                   (case getAllMindmapNodes s of
                      Inl e \<Rightarrow> (Some e, s)
                    | Inr existingNodes \<Rightarrow>
                        (case js_some (\<lambda>existing. equals_lowered label (node_label existing))
                                existingNodes of
                           Inl e \<Rightarrow> (Some e, s)
                         | Inr isDuplicate \<Rightarrow>
                             if \<not> isDuplicate then
                               (case get_property node ''confidence'' of
                                  Inl e \<Rightarrow> (Some e, s)
                                | Inr confidence \<Rightarrow>
                                    (case addMindmapNode s (the label) (the category)
                                            (if truthy confidence then confidence
                                             else Some (JNumber 0.8))
                                            None of
                                       Inl e \<Rightarrow> (Some e, s)
                                     | Inr (rowid, s') \<Rightarrow>
                                         (template_literal [the label, the category], s')))
                             else (None, s)))))"

definition applyAnalysisResults :: "AnalysisResult \<Rightarrow> store_step" where
  "applyAnalysisResults analysis =
     and_then (for_of applyNote (ar_notes analysis))
       (and_then (for_of applyListGroup (ar_listItems analysis))
          (and_then (for_of applyGoalCompletion (ar_completedGoals analysis))
             (for_of applyMindmapNode (ar_mindmapNodes analysis))))"

subsection \<open>\<open>processRecentConversations\<close>\<close>

record BackgroundAgent =
  isProcessing :: bool
  lastProcessedMessageId :: nat

text \<open>
  What a run writes to the console, one constructor for each message of
  \<open>processRecentConversations\<close> and for the \<open>Failed to parse analysis result\<close> of
  \<open>parseAnalysisResult\<close>.
\<close>

datatype run_log =
    AlreadyProcessing
  | LLMNotReady
  | NoMessagesToProcess
  | NotEnoughNewMessages
  | FailedToParse
  | ProcessingComplete
  | ProcessingError error

text \<open>\<open>msg.id || 0\<close>\<close>

definition or_zero :: "nat \<Rightarrow> nat" where
  "or_zero n = (if n \<noteq> 0 then n else 0)"

definition newMessagesSince :: "BackgroundAgent \<Rightarrow> Message list \<Rightarrow> Message list" where
  "newMessagesSince agent allMessages =
     filter (\<lambda>msg. or_zero (msg_id msg) > lastProcessedMessageId agent) allMessages"

definition processRecentConversations ::
  "(string \<Rightarrow> json option) \<Rightarrow> LLMService \<Rightarrow> BackgroundAgent \<Rightarrow> SQLiteService
     \<Rightarrow> run_log \<times> BackgroundAgent \<times> SQLiteService" where
  "processRecentConversations JSON_parse llm agent s =
     (if isProcessing agent then (AlreadyProcessing, agent, s)
      else if \<not> isReady llm then (LLMNotReady, agent, s)
      else
        let busy = agent\<lparr>isProcessing := True\<rparr>;
            released = busy\<lparr>isProcessing := False\<rparr> in
        case getAllMessages s of
          Inl e \<Rightarrow> (ProcessingError e, released, s)
        | Inr allMessages \<Rightarrow>
            if length allMessages = 0 then (NoMessagesToProcess, released, s)
            else
              let newMessages = newMessagesSince busy allMessages in
              if length newMessages < 2 then (NotEnoughNewMessages, released, s)
              else
                (case analyzeConversation llm newMessages of
                   Inl e \<Rightarrow> (ProcessingError e, released, s)
                 | Inr rawAnalysis \<Rightarrow>
                     (case parseAnalysisResult JSON_parse rawAnalysis of
                        None \<Rightarrow> (FailedToParse, released, s)
                      | Some analysis \<Rightarrow>
                          (case applyAnalysisResults analysis s of
                             (Some e, s') \<Rightarrow> (ProcessingError e, released, s')
                           | (None, s') \<Rightarrow>
                               (ProcessingComplete,
                                released\<lparr>lastProcessedMessageId :=
                                           or_zero (msg_id (last newMessages))\<rparr>,
                                s')))))"

text \<open>
  A sequence of runs. Before each run the rest of the application may have changed the
  store (\<open>run_store\<close>) and the completion service (\<open>run_llm\<close>).
\<close>

record Run =
  run_llm :: LLMService
  run_store :: "SQLiteService \<Rightarrow> SQLiteService"

fun runs :: "(string \<Rightarrow> json option) \<Rightarrow> Run list \<Rightarrow> BackgroundAgent \<times> SQLiteService
               \<Rightarrow> BackgroundAgent \<times> SQLiteService" where
  "runs JSON_parse [] (agent, s) = (agent, s)"
| "runs JSON_parse (r # rs) (agent, s) =
     (case processRecentConversations JSON_parse (run_llm r) agent (run_store r s) of
        (logged, agent', s') \<Rightarrow> runs JSON_parse rs (agent', s'))"

section \<open>Vocabulary of the properties\<close>

text \<open>
  \<open>goal_kept g g'\<close>: the row \<open>g'\<close> is the row \<open>g\<close> up to the streak counter and the date of
  the last completion, and the counter has not gone down.
\<close>

definition goal_kept :: "Goal \<Rightarrow> Goal \<Rightarrow> bool" where
  "goal_kept g g' =
     (g'\<lparr>goal_streak_count := goal_streak_count g,
         goal_last_completed_date := goal_last_completed_date g\<rparr> = g
      \<and> goal_streak_count g \<le> goal_streak_count g')"

text \<open>
  \<open>only_inserts d d'\<close>: from \<open>d\<close> to \<open>d'\<close> the profile and the messages are the same, the
  notes, lists, list items and mindmap nodes of \<open>d\<close> are all still there, unchanged and in
  place, with new rows behind them, and the goals are the same rows up to \<open>goal_kept\<close>.
\<close>

definition only_inserts :: "Database \<Rightarrow> Database \<Rightarrow> bool" where
  "only_inserts d d' =
     (db_User d' = db_User d \<and> db_Messages d' = db_Messages d
      \<and> prefix (db_Notes d) (db_Notes d')
      \<and> prefix (db_Lists d) (db_Lists d')
      \<and> prefix (db_ListItems d) (db_ListItems d')
      \<and> prefix (db_MindmapNodes d) (db_MindmapNodes d')
      \<and> list_all2 goal_kept (db_Goals d) (db_Goals d'))"

definition store_frame :: "SQLiteService \<Rightarrow> SQLiteService \<Rightarrow> bool" where
  "store_frame s s' =
     (case svc_db s of
        None \<Rightarrow> s' = s
      | Some d \<Rightarrow> (case svc_db s' of None \<Rightarrow> False | Some d' \<Rightarrow> only_inserts d d'))"

text \<open>
  Following the words of the specification: of the items of a group, those that are
  inserted into a container with the entries \<open>existing\<close>. An item is skipped when an
  entry, one of \<open>existing\<close> or one inserted before it, equals it up to case.
\<close>

fun fresh_items :: "string list \<Rightarrow> string list \<Rightarrow> string list" where
  "fresh_items existing [] = []"
| "fresh_items existing (item # items) =
     (if toLowerCase item \<in> set (map toLowerCase existing) then fresh_items existing items
      else item # fresh_items (existing @ [item]) items)"

text \<open>The entries of the container \<open>listId\<close>, and the row that \<open>addListItem\<close> inserts.\<close>

definition entries_of :: "Database \<Rightarrow> nat \<Rightarrow> string list" where
  "entries_of d listId =
     map item_content (filter (\<lambda>r. item_list_id r = listId) (db_ListItems d))"

definition new_entry :: "Database \<Rightarrow> nat \<Rightarrow> string \<Rightarrow> ListItem" where
  "new_entry d listId content =
     \<lparr>item_id = lastInsertRowId (map item_id (db_ListItems d)), item_list_id = listId,
      item_content = content, item_is_completed = False,
      item_created_at = db_clock d (db_clock_reads d)\<rparr>"

text \<open>
  \<open>items_added d d' listId contents\<close>: from \<open>d\<close> to \<open>d'\<close> the only change to the tables is
  that one open entry of the container \<open>listId\<close> was appended for each of \<open>contents\<close>, in
  that order.
\<close>

definition items_added :: "Database \<Rightarrow> Database \<Rightarrow> nat \<Rightarrow> string list \<Rightarrow> bool" where
  "items_added d d' listId contents =
     (\<exists>new. db_ListItems d' = db_ListItems d @ new
        \<and> map item_content new = contents
        \<and> map item_list_id new = replicate (length contents) listId
        \<and> map item_is_completed new = replicate (length contents) False
        \<and> db_Lists d' = db_Lists d \<and> db_Notes d' = db_Notes d \<and> db_Goals d' = db_Goals d
        \<and> db_MindmapNodes d' = db_MindmapNodes d \<and> db_Messages d' = db_Messages d
        \<and> db_User d' = db_User d)"

text \<open>The mindmap nodes whose label is \<open>label\<close> up to case.\<close>

definition facts_labelled :: "Database \<Rightarrow> string \<Rightarrow> MindmapNode list" where
  "facts_labelled d label =
     filter (\<lambda>e. toLowerCase (node_label e) = toLowerCase label) (db_MindmapNodes d)"

text \<open>
  A result that has the shape of the interface \<open>AnalysisResult\<close>: the items are objects
  with strings under the names of the interface, the items of a group are an array of
  strings, the category of a mindmap item is one of the four of the schema, and its
  confidence is a number when it has one.
\<close>

fun is_string :: "json option \<Rightarrow> bool" where
  "is_string (Some (JString x)) = True"
| "is_string v = False"

fun typed_note :: "json \<Rightarrow> bool" where
  "typed_note (JObject props) =
     (is_string (map_of props ''title'') \<and> is_string (map_of props ''body''))"
| "typed_note v = False"

fun typed_group :: "json \<Rightarrow> bool" where
  "typed_group (JObject props) =
     (is_string (map_of props ''listName'') \<and>
      (case map_of props ''items'' of
         Some (JArray xs) \<Rightarrow> list_all (\<lambda>x. is_string (Some x)) xs
       | _ \<Rightarrow> False))"
| "typed_group v = False"

fun typed_goal :: "json \<Rightarrow> bool" where
  "typed_goal (JObject props) = is_string (map_of props ''title'')"
| "typed_goal v = False"

fun typed_node :: "json \<Rightarrow> bool" where
  "typed_node (JObject props) =
     (is_string (map_of props ''label'') \<and>
      (case map_of props ''category'' of
         Some (JString c) \<Rightarrow> c \<in> set [''values'', ''goals'', ''personality'', ''facts'']
       | _ \<Rightarrow> False) \<and>
      (case map_of props ''confidence'' of
         None \<Rightarrow> True
       | Some (JNumber x) \<Rightarrow> True
       | _ \<Rightarrow> False))"
| "typed_node v = False"

definition typed_result :: "AnalysisResult \<Rightarrow> bool" where
  "typed_result analysis =
     (list_all typed_note (ar_notes analysis) \<and> list_all typed_group (ar_listItems analysis)
      \<and> list_all typed_goal (ar_completedGoals analysis)
      \<and> list_all typed_node (ar_mindmapNodes analysis))"

text \<open>The database is open: \<open>init\<close> has run.\<close>

definition store_open :: "SQLiteService \<Rightarrow> bool" where
  "store_open s = (svc_db s \<noteq> None)"

text \<open>The row that \<open>addMindmapNode\<close> inserts when it is called without a link.\<close>

definition new_fact :: "Database \<Rightarrow> string \<Rightarrow> string \<Rightarrow> json \<Rightarrow> MindmapNode" where
  "new_fact d label category confidence =
     \<lparr>node_id = lastInsertRowId (map node_id (db_MindmapNodes d)), node_label = label,
      node_category = category, node_confidence_score = confidence,
      node_linked_node_id = None, node_created_at = db_clock d (db_clock_reads d)\<rparr>"

text \<open>
  \<open>facts_untouched s s'\<close>: the table of mindmap nodes is the same in \<open>s\<close> and \<open>s'\<close>.
  \<open>at_most_one_more label s s'\<close>: from \<open>s\<close> to \<open>s'\<close> the nodes with this label have not
  become fewer, and not more either unless there was none, in which case there is at most
  one now.
\<close>

definition facts_untouched :: "SQLiteService \<Rightarrow> SQLiteService \<Rightarrow> bool" where
  "facts_untouched s s' =
     (map_option db_MindmapNodes (svc_db s') = map_option db_MindmapNodes (svc_db s))"

definition at_most_one_more :: "string \<Rightarrow> SQLiteService \<Rightarrow> SQLiteService \<Rightarrow> bool" where
  "at_most_one_more label s s' =
     (case svc_db s of
        None \<Rightarrow> svc_db s' = None
      | Some d \<Rightarrow>
          (case svc_db s' of
             None \<Rightarrow> False
           | Some d' \<Rightarrow>
               length (facts_labelled d label) \<le> length (facts_labelled d' label)
               \<and> length (facts_labelled d' label) \<le> max 1 (length (facts_labelled d label))))"

text \<open>
  Following the words of the specification: the array under one of the four keys of a
  parsed value, empty when the key is missing or holds something that is not an array.
\<close>

definition coerced_key :: "json \<Rightarrow> string \<Rightarrow> json list" where
  "coerced_key v key =
     (case v of
        JObject props \<Rightarrow> (case map_of props key of Some (JArray xs) \<Rightarrow> xs | _ \<Rightarrow> [])
      | _ \<Rightarrow> [])"

section \<open>Fixtures\<close>

text \<open>
  A small installation used to run the definitions: a store with one exchange of two
  messages, whose driver rejects every bound value that is not of the type of its
  column, a completion engine that always answers \<open>reply\<close>, and a stand-in for
  \<open>JSON.parse\<close> that knows the texts the examples use.
\<close>

definition demo_failing_text :: string where
  \<open>demo_failing_text =
     ''{"mindmapNodes":[{"label":"Likes tea","category":"hobby"},'' @
     ''{"label":"Loves hiking","category":"values","confidence":0.9}]}''\<close>

definition demo_failing_json :: json where
  "demo_failing_json =
     JObject [(''mindmapNodes'',
       JArray [JObject [(''label'', JString ''Likes tea''), (''category'', JString ''hobby'')],
               JObject [(''label'', JString ''Loves hiking''), (''category'', JString ''values''),
                        (''confidence'', JNumber 0.9)]])]"

definition demo_parse :: "string \<Rightarrow> json option" where
  \<open>demo_parse x =
     (if x = ''{}'' then Some (JObject [])
      else if x = ''null'' then Some JNull
      else if x = ''{"notes":"x"}'' then Some (JObject [(''notes'', JString ''x'')])
      else if x = ''{"notes":[null]}'' then Some (JObject [(''notes'', JArray [JNull])])
      else if x = demo_failing_text then Some demo_failing_json
      else None)\<close>

definition demo_llm :: "string \<Rightarrow> LLMService" where
  "demo_llm reply =
     \<lparr>llm_context = Some (\<lambda>params. Inr reply), llm_systemPrompt = ''You are Vi'',
      llm_isInitialized = True\<rparr>"

definition demo_messages :: "Message list" where
  "demo_messages =
     [\<lparr>msg_id = 1, msg_content = ''hi'', msg_sender = ''user'', msg_timestamp = 10,
       msg_context_json = None\<rparr>,
      \<lparr>msg_id = 2, msg_content = ''hello'', msg_sender = ''assistant'', msg_timestamp = 11,
       msg_context_json = None\<rparr>]"

definition demo_db :: Database where
  "demo_db =
     \<lparr>db_User = [], db_Messages = demo_messages, db_Notes = [], db_Lists = [],
      db_ListItems = [], db_Goals = [], db_MindmapNodes = [],
      db_clock = (\<lambda>n. 100 + n), db_clock_reads = 0,
      db_text_affinity = (\<lambda>v. Inl BindFailed), db_real_affinity = (\<lambda>v. Inl BindFailed)\<rparr>"

definition demo_store :: SQLiteService where
  "demo_store = \<lparr>svc_db = Some demo_db\<rparr>"

definition demo_agent :: BackgroundAgent where
  "demo_agent = \<lparr>isProcessing = False, lastProcessedMessageId = 0\<rparr>"

definition demo_goals :: "Goal list" where
  "demo_goals =
     [\<lparr>goal_id = 1, goal_title = ''Morning Run'', goal_frequency = ''daily'',
       goal_streak_count = 3, goal_last_completed_date = Some 50, goal_target_count = None,
       goal_created_at = 20\<rparr>,
      \<lparr>goal_id = 2, goal_title = ''Read'', goal_frequency = ''weekly'',
       goal_streak_count = 0, goal_last_completed_date = None, goal_target_count = Some 5,
       goal_created_at = 30\<rparr>]"

definition demo_lists :: "ListRow list" where
  "demo_lists =
     [\<lparr>list_id = 1, list_title = ''Groceries'', list_type = ''grocery'', list_created_at = 5\<rparr>,
      \<lparr>list_id = 2, list_title = ''To-Do'', list_type = ''todo'', list_created_at = 5\<rparr>]"

definition demo_full_db :: Database where
  "demo_full_db = demo_db\<lparr>db_Lists := demo_lists, db_Goals := demo_goals\<rparr>"

definition demo_full_store :: SQLiteService where
  "demo_full_store = \<lparr>svc_db = Some demo_full_db\<rparr>"

definition demo_analysis :: AnalysisResult where
  "demo_analysis =
     \<lparr>ar_notes = [JObject [(''title'', JString ''Dentist''),
                            (''body'', JString ''Appointment on Friday'')]],
      ar_listItems = [JObject [(''listName'', JString ''groceries''),
                                (''items'', JArray [JString ''Milk'', JString ''milk''])]],
      ar_completedGoals = [JObject [(''title'', JString ''run'')]],
      ar_mindmapNodes = [JObject [(''label'', JString ''Loves hiking''),
                                   (''category'', JString ''values''),
                                   (''confidence'', JNumber 0.9)]]\<rparr>"

definition demo_failing_analysis :: AnalysisResult where
  "demo_failing_analysis =
     \<lparr>ar_notes = [], ar_listItems = [], ar_completedGoals = [],
      ar_mindmapNodes =
        [JObject [(''label'', JString ''Likes tea''), (''category'', JString ''hobby'')],
         JObject [(''label'', JString ''Loves hiking''), (''category'', JString ''values''),
                  (''confidence'', JNumber 0.9)]]\<rparr>"

definition demo_second_analysis :: AnalysisResult where
  "demo_second_analysis =
     \<lparr>ar_notes = [], ar_listItems = [], ar_completedGoals = [],
      ar_mindmapNodes =
        [JObject [(''label'', JString ''Loves hiking''),
                  (''category'', JString ''personality'')]]\<rparr>"

text \<open>A result with one mindmap item, whose category is not one of the schema.\<close>

definition demo_hobby_analysis :: AnalysisResult where
  "demo_hobby_analysis =
     \<lparr>ar_notes = [], ar_listItems = [], ar_completedGoals = [],
      ar_mindmapNodes =
        [JObject [(''label'', JString ''Likes tea''), (''category'', JString ''hobby'')]]\<rparr>"

text \<open>
  A result whose second list item is \<open>null\<close>: the note, the new list and its first item
  are written, the insert of \<open>null\<close> violates \<open>NOT NULL\<close>.
\<close>

definition demo_partial_analysis :: AnalysisResult where
  "demo_partial_analysis =
     \<lparr>ar_notes = [JObject [(''title'', JString ''Dentist''),
                            (''body'', JString ''Appointment on Friday'')]],
      ar_listItems = [JObject [(''listName'', JString ''Movie Night''),
                                (''items'', JArray [JString ''Up'', JNull])]],
      ar_completedGoals = [JObject [(''title'', JString ''run'')]],
      ar_mindmapNodes = [JObject [(''label'', JString ''Loves hiking''),
                                   (''category'', JString ''values'')]]\<rparr>"
section \<open>The prompt\<close>

lemma fold_append_blocks:
  "fold (\<lambda>msg prompt. prompt @ f msg) xs p = p @ concat (map f xs)"
  by (induction xs arbitrary: p) simp_all

lemma slice_last_suffix: "\<exists>older. xs = older @ slice_last n xs"
  unfolding slice_last_def by (metis append_take_drop_id)

lemma slice_last_length: "length (slice_last n xs) = min n (length xs)"
  unfolding slice_last_def by simp

text \<open>
  C9. For every history, the prompt is the system block, then one block for each of the
  last six turns of the history (all of them when there are fewer), in their order, each
  under the role \<open>user\<close> when the sender is the user and \<open>assistant\<close> otherwise, then the
  block of the new user message, then the opening of an assistant block that is left
  open. A block is the opening tag with the role, a line feed, the content, the closing
  tag and a line feed. The turns before the last six do not occur and nothing fails: of
  a history of seven turns the first is dropped.
\<close>

theorem prompt_last_six_turns:
  "buildChatMLPrompt svc userMessage history =
     ''<|im_start|>system'' @ [CHR 0x0A] @ llm_systemPrompt svc @ ''<|im_end|>'' @ [CHR 0x0A] @
     concat (map (\<lambda>msg. ''<|im_start|>'' @
                         (if msg_sender msg = ''user'' then ''user'' else ''assistant'') @
                         [CHR 0x0A] @ msg_content msg @ ''<|im_end|>'' @ [CHR 0x0A])
               (drop (length history - 6) history)) @
     ''<|im_start|>user'' @ [CHR 0x0A] @ userMessage @ ''<|im_end|>'' @ [CHR 0x0A] @
     ''<|im_start|>assistant'' @ [CHR 0x0A]
   \<and> (\<exists>older. history = older @ drop (length history - 6) history)
   \<and> length (drop (length history - 6) history) = min 6 (length history)
   \<and> buildChatMLPrompt (demo_llm ''{}'') ''Q''
        (map (\<lambda>(c, w). \<lparr>msg_id = 0, msg_content = c, msg_sender = w, msg_timestamp = 0,
                         msg_context_json = None\<rparr>)
           [(''t1'', ''user''), (''t2'', ''assistant''), (''t3'', ''user''), (''t4'', ''vi''),
            (''t5'', ''user''), (''t6'', ''assistant''), (''t7'', ''user'')]) =
       ''<|im_start|>system'' @ [CHR 0x0A] @ ''You are Vi<|im_end|>'' @ [CHR 0x0A] @
       ''<|im_start|>assistant'' @ [CHR 0x0A] @ ''t2<|im_end|>'' @ [CHR 0x0A] @
       ''<|im_start|>user'' @ [CHR 0x0A] @ ''t3<|im_end|>'' @ [CHR 0x0A] @
       ''<|im_start|>assistant'' @ [CHR 0x0A] @ ''t4<|im_end|>'' @ [CHR 0x0A] @
       ''<|im_start|>user'' @ [CHR 0x0A] @ ''t5<|im_end|>'' @ [CHR 0x0A] @
       ''<|im_start|>assistant'' @ [CHR 0x0A] @ ''t6<|im_end|>'' @ [CHR 0x0A] @
       ''<|im_start|>user'' @ [CHR 0x0A] @ ''t7<|im_end|>'' @ [CHR 0x0A] @
       ''<|im_start|>user'' @ [CHR 0x0A] @ ''Q<|im_end|>'' @ [CHR 0x0A] @
       ''<|im_start|>assistant'' @ [CHR 0x0A]"
proof (intro conjI)
  show "buildChatMLPrompt svc userMessage history =
     ''<|im_start|>system'' @ [CHR 0x0A] @ llm_systemPrompt svc @ ''<|im_end|>'' @ [CHR 0x0A] @
     concat (map (\<lambda>msg. ''<|im_start|>'' @
                         (if msg_sender msg = ''user'' then ''user'' else ''assistant'') @
                         [CHR 0x0A] @ msg_content msg @ ''<|im_end|>'' @ [CHR 0x0A])
               (drop (length history - 6) history)) @
     ''<|im_start|>user'' @ [CHR 0x0A] @ userMessage @ ''<|im_end|>'' @ [CHR 0x0A] @
     ''<|im_start|>assistant'' @ [CHR 0x0A]"
    by (simp add: buildChatMLPrompt_def Let_def fold_append_blocks slice_last_def
        chatml_role_def chatml_block_def NL_def)
  show "\<exists>older. history = older @ drop (length history - 6) history"
    by (metis append_take_drop_id)
  show "length (drop (length history - 6) history) = min 6 (length history)"
    by simp
  show "buildChatMLPrompt (demo_llm ''{}'') ''Q''
        (map (\<lambda>(c, w). \<lparr>msg_id = 0, msg_content = c, msg_sender = w, msg_timestamp = 0,
                         msg_context_json = None\<rparr>)
           [(''t1'', ''user''), (''t2'', ''assistant''), (''t3'', ''user''), (''t4'', ''vi''),
            (''t5'', ''user''), (''t6'', ''assistant''), (''t7'', ''user'')]) =
       ''<|im_start|>system'' @ [CHR 0x0A] @ ''You are Vi<|im_end|>'' @ [CHR 0x0A] @
       ''<|im_start|>assistant'' @ [CHR 0x0A] @ ''t2<|im_end|>'' @ [CHR 0x0A] @
       ''<|im_start|>user'' @ [CHR 0x0A] @ ''t3<|im_end|>'' @ [CHR 0x0A] @
       ''<|im_start|>assistant'' @ [CHR 0x0A] @ ''t4<|im_end|>'' @ [CHR 0x0A] @
       ''<|im_start|>user'' @ [CHR 0x0A] @ ''t5<|im_end|>'' @ [CHR 0x0A] @
       ''<|im_start|>assistant'' @ [CHR 0x0A] @ ''t6<|im_end|>'' @ [CHR 0x0A] @
       ''<|im_start|>user'' @ [CHR 0x0A] @ ''t7<|im_end|>'' @ [CHR 0x0A] @
       ''<|im_start|>user'' @ [CHR 0x0A] @ ''Q<|im_end|>'' @ [CHR 0x0A] @
       ''<|im_start|>assistant'' @ [CHR 0x0A]"
    by (simp add: buildChatMLPrompt_def Let_def slice_last_def chatml_role_def
        chatml_block_def NL_def demo_llm_def)
qed

section \<open>The high-water mark\<close>

lemma or_zero_id: "or_zero n = n"
  by (simp add: or_zero_def)

lemma newMessagesSince_greater:
  "m \<in> set (newMessagesSince agent allMessages) \<Longrightarrow> lastProcessedMessageId agent < msg_id m"
  by (simp add: newMessagesSince_def or_zero_id)

lemma newMessagesSince_busy:
  "newMessagesSince (agent\<lparr>isProcessing := b\<rparr>) allMessages = newMessagesSince agent allMessages"
  by (simp add: newMessagesSince_def)

lemma run_mark_mono:
  assumes "processRecentConversations JSON_parse llm agent s = (lg, agent', s')"
  shows "lastProcessedMessageId agent \<le> lastProcessedMessageId agent'"
proof -
  have last_gt: "lastProcessedMessageId agent < msg_id (last (newMessagesSince agent ms))"
    if "\<not> length (newMessagesSince agent ms) < 2" for ms
  proof -
    from that have "newMessagesSince agent ms \<noteq> []"
      by auto
    then have "last (newMessagesSince agent ms) \<in> set (newMessagesSince agent ms)"
      by (rule last_in_set)
    then show ?thesis
      by (rule newMessagesSince_greater)
  qed
  from assms show ?thesis
    unfolding processRecentConversations_def Let_def newMessagesSince_busy
    by (auto split: if_splits sum.splits option.splits prod.splits simp: or_zero_id
        dest!: last_gt less_imp_le)
qed

lemma runs_mark_mono:
  "lastProcessedMessageId agent \<le> lastProcessedMessageId (fst (runs JSON_parse rs (agent, s)))"
proof (induction rs arbitrary: agent s)
  case Nil
  then show ?case by simp
next
  case (Cons r rs)
  obtain lg agent' s' where
    p: "processRecentConversations JSON_parse (run_llm r) agent (run_store r s) = (lg, agent', s')"
    by (cases "processRecentConversations JSON_parse (run_llm r) agent (run_store r s)") auto
  from run_mark_mono [OF p] Cons.IH [of agent' s'] p show ?case
    by simp
qed

lemma newMessagesSince_filter:
  "newMessagesSince agent allMessages =
     filter (\<lambda>m. lastProcessedMessageId agent < msg_id m) allMessages"
  by (simp add: newMessagesSince_def or_zero_id)

lemma run_after_analysis:
  assumes "\<not> isProcessing agent" and "isReady llm" and "getAllMessages s = Inr allMessages"
    and "2 \<le> length (newMessagesSince agent allMessages)"
    and "analyzeConversation llm (newMessagesSince agent allMessages) = Inr rawAnalysis"
  shows "processRecentConversations JSON_parse llm agent s =
     (case parseAnalysisResult JSON_parse rawAnalysis of
        None \<Rightarrow> (FailedToParse, agent, s)
      | Some analysis \<Rightarrow>
          (case applyAnalysisResults analysis s of
             (Some e, s') \<Rightarrow> (ProcessingError e, agent, s')
           | (None, s') \<Rightarrow>
               (ProcessingComplete,
                agent\<lparr>lastProcessedMessageId :=
                        msg_id (last (newMessagesSince agent allMessages))\<rparr>, s')))"
proof -
  from assms(4) have "allMessages \<noteq> []"
    by (auto simp: newMessagesSince_def)
  with assms show ?thesis
    by (simp add: processRecentConversations_def Let_def newMessagesSince_busy or_zero_id
        split: option.splits prod.splits)
qed

text \<open>
  C1. Over any sequence of runs of \<open>processRecentConversations\<close>, whatever the rest of the
  application does to the store and to the completion service in between, the mark
  \<open>lastProcessedMessageId\<close> at the end is at least the mark at the start. In a run that
  gets as far as the analysis of the new messages (those with an id above the mark, at
  least two of them): when parsing yields no result the agent and the store are left as
  they were, so the mark is not advanced; when parsing yields a result and applying it
  completes, the mark becomes the id of the last of the new messages; and when applying
  it throws, the mark is not advanced either.
\<close>

theorem high_water_mark:
  "lastProcessedMessageId agent \<le> lastProcessedMessageId (fst (runs JSON_parse rs (agent, s)))
   \<and> (\<not> isProcessing agent \<longrightarrow> isReady llm \<longrightarrow> getAllMessages s = Inr allMessages \<longrightarrow>
        2 \<le> length (filter (\<lambda>m. lastProcessedMessageId agent < msg_id m) allMessages) \<longrightarrow>
        analyzeConversation llm
          (filter (\<lambda>m. lastProcessedMessageId agent < msg_id m) allMessages) = Inr rawAnalysis \<longrightarrow>
        (parseAnalysisResult JSON_parse rawAnalysis = None \<longrightarrow>
           processRecentConversations JSON_parse llm agent s = (FailedToParse, agent, s)) \<and>
        (parseAnalysisResult JSON_parse rawAnalysis = Some analysis \<longrightarrow>
         applyAnalysisResults analysis s = (None, s') \<longrightarrow>
           processRecentConversations JSON_parse llm agent s =
             (ProcessingComplete,
              agent\<lparr>lastProcessedMessageId :=
                      msg_id (last (filter (\<lambda>m. lastProcessedMessageId agent < msg_id m)
                                      allMessages))\<rparr>,
              s')) \<and>
        (parseAnalysisResult JSON_parse rawAnalysis = Some analysis \<longrightarrow>
         applyAnalysisResults analysis s = (Some e, s') \<longrightarrow>
           processRecentConversations JSON_parse llm agent s = (ProcessingError e, agent, s')))"
proof (intro conjI impI)
  show "lastProcessedMessageId agent \<le> lastProcessedMessageId (fst (runs JSON_parse rs (agent, s)))"
    by (rule runs_mark_mono)
next
  assume "\<not> isProcessing agent" "isReady llm" "getAllMessages s = Inr allMessages"
    "2 \<le> length (filter (\<lambda>m. lastProcessedMessageId agent < msg_id m) allMessages)"
    "analyzeConversation llm
       (filter (\<lambda>m. lastProcessedMessageId agent < msg_id m) allMessages) = Inr rawAnalysis"
  then have run: "processRecentConversations JSON_parse llm agent s =
     (case parseAnalysisResult JSON_parse rawAnalysis of
        None \<Rightarrow> (FailedToParse, agent, s)
      | Some analysis \<Rightarrow>
          (case applyAnalysisResults analysis s of
             (Some e, s') \<Rightarrow> (ProcessingError e, agent, s')
           | (None, s') \<Rightarrow>
               (ProcessingComplete,
                agent\<lparr>lastProcessedMessageId :=
                        msg_id (last (filter (\<lambda>m. lastProcessedMessageId agent < msg_id m)
                                        allMessages))\<rparr>, s')))"
    by (rule run_after_analysis [unfolded newMessagesSince_filter])
  {
    assume "parseAnalysisResult JSON_parse rawAnalysis = None"
    with run show "processRecentConversations JSON_parse llm agent s = (FailedToParse, agent, s)"
      by simp
  }
  {
    assume "parseAnalysisResult JSON_parse rawAnalysis = Some analysis"
      "applyAnalysisResults analysis s = (None, s')"
    with run show "processRecentConversations JSON_parse llm agent s =
             (ProcessingComplete,
              agent\<lparr>lastProcessedMessageId :=
                      msg_id (last (filter (\<lambda>m. lastProcessedMessageId agent < msg_id m)
                                      allMessages))\<rparr>,
              s')"
      by simp
  }
  {
    assume "parseAnalysisResult JSON_parse rawAnalysis = Some analysis"
      "applyAnalysisResults analysis s = (Some e, s')"
    with run show "processRecentConversations JSON_parse llm agent s =
        (ProcessingError e, agent, s')"
      by simp
  }
qed

lemma demo_getAllMessages: "getAllMessages demo_store = Inr demo_messages"
  by (simp add: getAllMessages_def demo_store_def demo_db_def demo_messages_def order_by_asc_def)

lemma demo_new: "newMessagesSince demo_agent demo_messages = demo_messages"
  by (simp add: newMessagesSince_def demo_agent_def demo_messages_def or_zero_def)

lemma demo_clean_braces: "clean_json ''{}'' = ''{}''"
  by code_simp

lemma demo_trim_braces: "trim ''{}'' = ''{}''"
  by code_simp

lemma demo_clean_oops: "clean_json ''oops'' = ''oops''"
  by code_simp

lemma demo_trim_oops: "trim ''oops'' = ''oops''"
  by code_simp

lemma demo_clean_null_note: \<open>clean_json ''{"notes":[null]}'' = ''{"notes":[null]}''\<close>
  by code_simp

lemma demo_trim_null_note: \<open>trim ''{"notes":[null]}'' = ''{"notes":[null]}''\<close>
  by code_simp

lemma demo_analyze: "analyzeConversation (demo_llm reply) ms = Inr (trim reply)"
  by (simp add: analyzeConversation_def demo_llm_def)

theorem high_water_mark_witness:
  \<open>processRecentConversations demo_parse (demo_llm ''{}'') demo_agent demo_store =
     (ProcessingComplete, demo_agent\<lparr>lastProcessedMessageId := 2\<rparr>, demo_store)
   \<and> processRecentConversations demo_parse (demo_llm ''oops'') demo_agent demo_store =
     (FailedToParse, demo_agent, demo_store)
   \<and> processRecentConversations demo_parse (demo_llm ''{"notes":[null]}'') demo_agent
       demo_store = (ProcessingError TypeError, demo_agent, demo_store)\<close>
proof -
  have ready: "isReady (demo_llm r)" for r
    by (simp add: isReady_def demo_llm_def)
  have idle: "\<not> isProcessing demo_agent"
    by (simp add: demo_agent_def)
  have new: "filter (\<lambda>m. lastProcessedMessageId demo_agent < msg_id m) demo_messages =
      demo_messages"
    by (simp add: demo_agent_def demo_messages_def)
  have two: "2 \<le> length demo_messages"
    by (simp add: demo_messages_def)
  have parsed: "parseAnalysisResult demo_parse ''{}'' =
      Some \<lparr>ar_notes = [], ar_listItems = [], ar_completedGoals = [], ar_mindmapNodes = []\<rparr>"
    by (simp add: parseAnalysisResult_def demo_clean_braces demo_parse_def)
  have unparsed: "parseAnalysisResult demo_parse ''oops'' = None"
    by (simp add: parseAnalysisResult_def demo_clean_oops demo_parse_def demo_failing_text_def)
  have ill: \<open>parseAnalysisResult demo_parse ''{"notes":[null]}'' =
      Some \<lparr>ar_notes = [JNull], ar_listItems = [], ar_completedGoals = [],
            ar_mindmapNodes = []\<rparr>\<close>
    by (simp add: parseAnalysisResult_def demo_clean_null_note demo_parse_def
        demo_failing_text_def)
  have applied: "applyAnalysisResults
      \<lparr>ar_notes = [], ar_listItems = [], ar_completedGoals = [], ar_mindmapNodes = []\<rparr>
      demo_store = (None, demo_store)"
    by (simp add: applyAnalysisResults_def and_then_def)
  have thrown: "applyAnalysisResults
      \<lparr>ar_notes = [JNull], ar_listItems = [], ar_completedGoals = [], ar_mindmapNodes = []\<rparr>
      demo_store = (Some TypeError, demo_store)"
    by (simp add: applyAnalysisResults_def and_then_def applyNote_def)
  have lst: "msg_id (last demo_messages) = 2"
    by (simp add: demo_messages_def)
  have 1: "processRecentConversations demo_parse (demo_llm ''{}'') demo_agent demo_store =
     (ProcessingComplete, demo_agent\<lparr>lastProcessedMessageId := 2\<rparr>, demo_store)"
    using high_water_mark [where agent = demo_agent and JSON_parse = demo_parse
        and rs = "[]" and s = demo_store and allMessages = demo_messages
        and llm = "demo_llm ''{}''" and rawAnalysis = "''{}''"
        and analysis = "\<lparr>ar_notes = [], ar_listItems = [], ar_completedGoals = [],
          ar_mindmapNodes = []\<rparr>" and s' = demo_store, THEN conjunct2]
    by (simp add: idle ready demo_getAllMessages new two demo_analyze demo_trim_braces parsed
        applied lst)
  have 2: "processRecentConversations demo_parse (demo_llm ''oops'') demo_agent demo_store =
     (FailedToParse, demo_agent, demo_store)"
    using high_water_mark [where agent = demo_agent and JSON_parse = demo_parse
        and rs = "[]" and s = demo_store and allMessages = demo_messages
        and llm = "demo_llm ''oops''" and rawAnalysis = "''oops''", THEN conjunct2]
    by (simp add: idle ready demo_getAllMessages new two demo_analyze demo_trim_oops unparsed)
  have 3: \<open>processRecentConversations demo_parse (demo_llm ''{"notes":[null]}'') demo_agent
       demo_store = (ProcessingError TypeError, demo_agent, demo_store)\<close>
    using high_water_mark [where agent = demo_agent and JSON_parse = demo_parse
        and rs = "[]" and s = demo_store and allMessages = demo_messages
        and llm = \<open>demo_llm ''{"notes":[null]}''\<close>
        and rawAnalysis = \<open>''{"notes":[null]}''\<close>
        and analysis = "\<lparr>ar_notes = [JNull], ar_listItems = [], ar_completedGoals = [],
          ar_mindmapNodes = []\<rparr>" and s' = demo_store and e = TypeError, THEN conjunct2]
    by (simp add: idle ready demo_getAllMessages new two demo_analyze demo_trim_null_note ill
        thrown)
  from 1 2 3 show ?thesis
    by blast
qed

section \<open>The response sanitizer\<close>

lemma lower_think: "toLowerCase ''<think>'' = ''<think>''"
  by code_simp

lemma lower_think_close: "toLowerCase ''</think>'' = ''</think>''"
  by code_simp

lemma ci_prefix_tag:
  assumes "toLowerCase tag = toLowerCase p"
  shows "ci_prefix p (tag @ t)" and "drop (length p) (tag @ t) = t"
proof -
  from assms have "length tag = length p"
    by (metis length_map toLowerCase_def)
  then show "ci_prefix p (tag @ t)" and "drop (length p) (tag @ t) = t"
    using assms by (simp_all add: ci_prefix_def)
qed

lemma ci_prefix_of_prefix:
  assumes "ci_prefix p a" and "prefix a b"
  shows "ci_prefix p b"
proof -
  from assms(1) have "length (take (length p) a) = length p"
    by (metis ci_prefix_def length_map toLowerCase_def)
  then have "length p \<le> length a"
    by simp
  with assms(2) have "take (length p) b = take (length p) a"
    by (auto simp: prefix_def)
  with assms(1) show ?thesis
    by (simp add: ci_prefix_def)
qed

lemma skip_think_blocks:
  "(\<forall>i < length pre. \<not> ci_prefix ''<think>'' (drop i (pre @ s))) \<Longrightarrow>
   remove_think_blocks (pre @ s) = pre @ remove_think_blocks s"
proof (induction pre)
  case Nil
  then show ?case by simp
next
  case (Cons p ps)
  from Cons.prems have "\<not> ci_prefix ''<think>'' (p # ps @ s)"
    by force
  moreover have "\<forall>i < length ps. \<not> ci_prefix ''<think>'' (drop i (ps @ s))"
    using Cons.prems by force
  ultimately show ?case
    using Cons.IH by simp
qed

lemma find_close_first:
  assumes "toLowerCase cls = ''</think>''"
  shows "(\<forall>j < length body. \<not> ci_prefix ''</think>'' (drop j (body @ cls @ rest))) \<Longrightarrow>
         find_close (body @ cls @ rest) = Some rest"
proof (induction body)
  case Nil
  from assms have c: "toLowerCase cls = toLowerCase ''</think>''"
    by (simp add: lower_think_close)
  then have "length cls = length ''</think>''"
    by (metis length_map toLowerCase_def)
  then have len: "length cls = 8"
    by simp
  then obtain x xs where x: "cls @ rest = x # xs"
    by (cases cls) auto
  from len have d: "drop 8 (cls @ rest) = rest"
    by simp
  from ci_prefix_tag(1) [OF c, of rest] have "ci_prefix ''</think>'' (x # xs)"
    by (simp only: x)
  then have "find_close (x # xs) = Some (drop 8 (x # xs))"
    by (simp only: find_close.simps if_True)
  then show ?case
    by (simp only: append_Nil x [symmetric] d)
next
  case (Cons b bs)
  from Cons.prems have "\<not> ci_prefix ''</think>'' (b # bs @ cls @ rest)"
    by force
  moreover have "\<forall>j < length bs. \<not> ci_prefix ''</think>'' (drop j (bs @ cls @ rest))"
    using Cons.prems by force
  ultimately show ?case
    using Cons.IH by simp
qed

lemma think_block_removed:
  assumes "\<forall>i < length pre. \<not> ci_prefix ''<think>'' (drop i (pre @ opn @ body @ cls @ rest))"
    and "toLowerCase opn = ''<think>''" and "toLowerCase cls = ''</think>''"
    and "\<forall>j < length body. \<not> ci_prefix ''</think>'' (drop j (body @ cls @ rest))"
  shows "remove_think_blocks (pre @ opn @ body @ cls @ rest) = pre @ remove_think_blocks rest"
proof -
  let ?t = "body @ cls @ rest"
  from assms(2) have o: "toLowerCase opn = toLowerCase ''<think>''"
    by (simp add: lower_think)
  then have "length opn = length ''<think>''"
    by (metis length_map toLowerCase_def)
  then have len: "length opn = 7"
    by simp
  then obtain x xs where x: "opn @ ?t = x # xs"
    by (cases opn) auto
  from len have d: "drop 7 (opn @ ?t) = ?t"
    by simp
  have fc: "find_close ?t = Some rest"
    using assms(3,4) by (rule find_close_first)
  from ci_prefix_tag(1) [OF o, of ?t] have "ci_prefix ''<think>'' (x # xs)"
    by (simp only: x)
  then have "remove_think_blocks (x # xs) =
      (case find_close (drop 7 (x # xs)) of
         Some r \<Rightarrow> remove_think_blocks r | None \<Rightarrow> x # remove_think_blocks xs)"
    by (simp only: remove_think_blocks.simps if_True)
  then have "remove_think_blocks (opn @ ?t) = remove_think_blocks rest"
    by (simp only: x [symmetric] d fc option.case)
  with skip_think_blocks [OF assms(1)] show ?thesis
    by simp
qed

lemma find_close_None:
  "(\<forall>i < length s. \<not> ci_prefix ''</think>'' (drop i s)) \<Longrightarrow> find_close s = None"
proof (induction s)
  case Nil
  then show ?case by simp
next
  case (Cons c cs)
  from Cons.prems have "\<not> ci_prefix ''</think>'' (c # cs)"
    by force
  moreover have "\<forall>i < length cs. \<not> ci_prefix ''</think>'' (drop i cs)"
    using Cons.prems by force
  ultimately show ?case
    using Cons.IH by simp
qed

lemma no_close_unchanged:
  "(\<forall>i < length s. \<not> ci_prefix ''</think>'' (drop i s)) \<Longrightarrow> remove_think_blocks s = s"
proof (induction s)
  case Nil
  then show ?case by simp
next
  case (Cons c cs)
  have tail: "\<forall>i < length cs. \<not> ci_prefix ''</think>'' (drop i cs)"
    using Cons.prems by force
  have "\<forall>i < length (drop 7 (c # cs)). \<not> ci_prefix ''</think>'' (drop i (drop 7 (c # cs)))"
  proof (intro allI impI)
    fix i assume "i < length (drop 7 (c # cs))"
    then have "i + 7 < length (c # cs)"
      by simp
    with Cons.prems have "\<not> ci_prefix ''</think>'' (drop (i + 7) (c # cs))"
      by blast
    then show "\<not> ci_prefix ''</think>'' (drop i (drop 7 (c # cs)))"
      unfolding drop_drop .
  qed
  then have "find_close (drop 7 (c # cs)) = None"
    by (rule find_close_None)
  with Cons.IH [OF tail] show ?case
    by simp
qed

lemma no_block_unchanged:
  "(\<forall>i j. i + 7 \<le> j \<and> j < length s \<and> ci_prefix ''<think>'' (drop i s) \<longrightarrow>
      \<not> ci_prefix ''</think>'' (drop j s)) \<Longrightarrow> remove_think_blocks s = s"
proof (induction s)
  case Nil
  then show ?case by simp
next
  case (Cons c cs)
  have tail: "\<forall>i j. i + 7 \<le> j \<and> j < length cs \<and> ci_prefix ''<think>'' (drop i cs) \<longrightarrow>
      \<not> ci_prefix ''</think>'' (drop j cs)"
  proof (intro allI impI)
    fix i j
    assume "i + 7 \<le> j \<and> j < length cs \<and> ci_prefix ''<think>'' (drop i cs)"
    then have "Suc i + 7 \<le> Suc j \<and> Suc j < length (c # cs)
        \<and> ci_prefix ''<think>'' (drop (Suc i) (c # cs))"
      by simp
    with Cons.prems have "\<not> ci_prefix ''</think>'' (drop (Suc j) (c # cs))"
      by blast
    then show "\<not> ci_prefix ''</think>'' (drop j cs)"
      by simp
  qed
  have rest: "remove_think_blocks cs = cs"
    using tail by (rule Cons.IH)
  show ?case
  proof (cases "ci_prefix ''<think>'' (c # cs)")
    case True
    have "\<forall>i < length (drop 7 (c # cs)). \<not> ci_prefix ''</think>'' (drop i (drop 7 (c # cs)))"
    proof (intro allI impI)
      fix i assume "i < length (drop 7 (c # cs))"
      then have "0 + 7 \<le> i + 7 \<and> i + 7 < length (c # cs)
          \<and> ci_prefix ''<think>'' (drop 0 (c # cs))"
        using True by simp
      with Cons.prems have "\<not> ci_prefix ''</think>'' (drop (i + 7) (c # cs))"
        by blast
      then show "\<not> ci_prefix ''</think>'' (drop i (drop 7 (c # cs)))"
        unfolding drop_drop .
    qed
    then have "find_close (drop 7 (c # cs)) = None"
      by (rule find_close_None)
    with True rest show ?thesis
      by simp
  next
    case False
    with rest show ?thesis
      by simp
  qed
qed

lemma skip_unclosed:
  "(\<forall>i < length pre. \<not> ci_prefix ''<think>'' (drop i (pre @ s))) \<Longrightarrow>
   remove_unclosed_think (pre @ s) = pre @ remove_unclosed_think s"
proof (induction pre)
  case Nil
  then show ?case by simp
next
  case (Cons p ps)
  from Cons.prems have "\<not> ci_prefix ''<think>'' (p # ps @ s)"
    by force
  moreover have "\<forall>i < length ps. \<not> ci_prefix ''<think>'' (drop i (ps @ s))"
    using Cons.prems by force
  ultimately show ?case
    using Cons.IH by simp
qed

lemma unclosed_removed:
  assumes "\<forall>i < length pre. \<not> ci_prefix ''<think>'' (drop i (pre @ opn @ rest))"
    and "toLowerCase opn = ''<think>''"
  shows "remove_unclosed_think (pre @ opn @ rest) = pre"
proof -
  from assms(2) have o: "toLowerCase opn = toLowerCase ''<think>''"
    by (simp add: lower_think)
  then have "length opn = length ''<think>''"
    by (metis length_map toLowerCase_def)
  then obtain x xs where x: "opn @ rest = x # xs"
    by (cases opn) auto
  from ci_prefix_tag(1) [OF o, of rest] have "ci_prefix ''<think>'' (x # xs)"
    by (simp only: x)
  then have "remove_unclosed_think (opn @ rest) = []"
    by (simp only: x remove_unclosed_think.simps if_True)
  with skip_unclosed [OF assms(1)] show ?thesis
    by simp
qed

lemma remove_unclosed_prefix: "prefix (remove_unclosed_think s) s"
  by (induction s) simp_all

lemma no_think_left: "\<not> ci_prefix ''<think>'' (drop i (remove_unclosed_think s))"
proof (induction s arbitrary: i)
  case Nil
  then show ?case by (simp add: ci_prefix_def toLowerCase_def)
next
  case (Cons c cs)
  show ?case
  proof (cases "ci_prefix ''<think>'' (c # cs)")
    case True
    then show ?thesis
      by (simp add: ci_prefix_def toLowerCase_def)
  next
    case False
    show ?thesis
    proof (cases i)
      case 0
      have "prefix (c # remove_unclosed_think cs) (c # cs)"
        by (simp add: remove_unclosed_prefix)
      with False have "\<not> ci_prefix ''<think>'' (c # remove_unclosed_think cs)"
        by (blast dest: ci_prefix_of_prefix)
      with False 0 show ?thesis
        by simp
    next
      case (Suc k)
      with False Cons.IH [of k] show ?thesis
        by simp
    qed
  qed
qed

lemma skip_token:
  "(\<forall>i < length pre. \<not> prefix tok (drop i (pre @ s))) \<Longrightarrow>
   remove_all tok (pre @ s) = pre @ remove_all tok s"
proof (induction pre)
  case Nil
  then show ?case by simp
next
  case (Cons p ps)
  from Cons.prems have "\<not> prefix tok (p # ps @ s)"
    by force
  moreover have "\<forall>i < length ps. \<not> prefix tok (drop i (ps @ s))"
    using Cons.prems by force
  ultimately show ?case
    using Cons.IH by simp
qed

lemma token_removed:
  assumes "tok \<noteq> []" and "\<forall>i < length pre. \<not> prefix tok (drop i (pre @ tok @ rest))"
  shows "remove_all tok (pre @ tok @ rest) = pre @ remove_all tok rest"
proof -
  from assms(1) obtain x xs where x: "tok = x # xs"
    by (cases tok) auto
  have "remove_all tok (tok @ rest) = remove_all tok rest"
    using remove_all.simps(2) [of tok x "xs @ rest"] by (simp add: x)
  with skip_token [OF assms(2)] show ?thesis
    by simp
qed

lemma collapse_other: "c \<noteq> CHR 0x0A \<Longrightarrow> collapse_newlines (c # t) = c # collapse_newlines t"
  by (simp add: NL_def)

lemma collapse_run:
  assumes "rest = [] \<or> hd rest \<noteq> CHR 0x0A"
  shows "collapse_newlines (replicate n (CHR 0x0A) @ rest) =
         replicate (min n 2) (CHR 0x0A) @ collapse_newlines rest"
proof -
  have drop_run: "dropWhile (\<lambda>x. x = CHR 0x0A) (replicate k (CHR 0x0A) @ rest) = rest" for k
    using assms by (cases rest) (auto simp: dropWhile_append)
  have short: "\<not> prefix (NL @ NL @ NL) (CHR 0x0A # rest)"
    "\<not> prefix (NL @ NL @ NL) (CHR 0x0A # CHR 0x0A # rest)"
    using assms by (cases rest; simp add: NL_def)+
  consider "n = 0" | "n = 1" | "n = 2" | k where "n = Suc (Suc (Suc k))"
    by (metis One_nat_def Suc_1 not0_implies_Suc)
  then show ?thesis
  proof cases
    case 1
    then show ?thesis by simp
  next
    case 2
    with short show ?thesis by simp
  next
    case 3
    with short show ?thesis by (simp add: numeral_2_eq_2)
  next
    case 4
    have "replicate n (CHR 0x0A) @ rest = CHR 0x0A # replicate (Suc (Suc k)) (CHR 0x0A) @ rest"
      by (simp add: 4)
    moreover have "prefix (NL @ NL @ NL) (CHR 0x0A # replicate (Suc (Suc k)) (CHR 0x0A) @ rest)"
      by (simp add: NL_def)
    moreover have "dropWhile (\<lambda>x. x = CHR 0x0A)
        (CHR 0x0A # replicate (Suc (Suc k)) (CHR 0x0A) @ rest) = rest"
      using drop_run [of "Suc (Suc (Suc k))"] by simp
    ultimately show ?thesis
      by (simp add: 4 NL_def numeral_2_eq_2)
  qed
qed

lemma trim_decompose:
  "\<exists>a b. t = a @ trim t @ b \<and> (\<forall>c \<in> set a. isSpace c) \<and> (\<forall>c \<in> set b. isSpace c)"
proof -
  let ?u = "dropWhile isSpace t"
  have "t = takeWhile isSpace t @ ?u"
    by simp
  moreover have "rev ?u = takeWhile isSpace (rev ?u) @ dropWhile isSpace (rev ?u)"
    by simp
  then have "?u = rev (dropWhile isSpace (rev ?u)) @ rev (takeWhile isSpace (rev ?u))"
    by (metis rev_append rev_rev_ident)
  ultimately have "t = takeWhile isSpace t @ trim t @ rev (takeWhile isSpace (rev ?u))"
    by (simp add: trim_def trimStart_def trimEnd_def)
  moreover have "\<forall>c \<in> set (takeWhile isSpace t). isSpace c"
    by (auto dest: set_takeWhileD)
  moreover have "\<forall>c \<in> set (rev (takeWhile isSpace (rev ?u))). isSpace c"
    by (auto dest: set_takeWhileD)
  ultimately show ?thesis
    by blast
qed

lemma trim_ends:
  "trim t = [] \<or> (\<not> isSpace (hd (trim t)) \<and> \<not> isSpace (last (trim t)))"
proof (cases "trim t = []")
  case True
  then show ?thesis by simp
next
  case False
  let ?u = "dropWhile isSpace t"
  let ?v = "dropWhile isSpace (rev ?u)"
  from False have v: "?v \<noteq> []"
    by (simp add: trim_def trimStart_def trimEnd_def)
  then have "\<not> isSpace (hd ?v)"
    by (rule hd_dropWhile)
  then have l: "\<not> isSpace (last (trim t))"
    using v by (simp add: trim_def trimStart_def trimEnd_def last_rev)
  from v have u: "?u \<noteq> []"
    by (metis dropWhile.simps(1) rev.simps(1))
  then have hu: "\<not> isSpace (hd ?u)"
    by (rule hd_dropWhile)
  have "prefix (trim t) ?u"
    unfolding trim_def trimStart_def trimEnd_def
    by (metis prefixI rev_append rev_rev_ident takeWhile_dropWhile_id)
  with False have "hd (trim t) = hd ?u"
    by (auto simp: prefix_def)
  with hu l show ?thesis
    by simp
qed

lemma cleanResponse_steps:
  "cleanResponse text =
     trim (collapse_newlines (remove_all ''<|im_start|>'' (remove_all ''<|im_end|>''
       (remove_unclosed_think (remove_think_blocks text)))))"
  by (simp add: cleanResponse_def Let_def trim_def trimStart_def trimEnd_def)

lemma collapse_head:
  "s = [] \<or> hd s \<noteq> CHR 0x0A \<Longrightarrow>
   collapse_newlines s = [] \<or> hd (collapse_newlines s) \<noteq> CHR 0x0A"
  by (cases s) (auto simp: NL_def)

lemma collapse_two:
  assumes "prefix [CHR 0x0A, CHR 0x0A] (collapse_newlines s)"
  shows "prefix [CHR 0x0A, CHR 0x0A] s"
proof (cases s)
  case Nil
  with assms show ?thesis by simp
next
  case (Cons c cs)
  show ?thesis
  proof (cases "prefix (NL @ NL @ NL) (c # cs)")
    case True
    with Cons show ?thesis
      by (cases cs) (auto simp: NL_def)
  next
    case False
    with Cons assms have p: "c = CHR 0x0A" "prefix [CHR 0x0A] (collapse_newlines cs)"
      by auto
    from p(2) have "collapse_newlines cs \<noteq> []" "hd (collapse_newlines cs) = CHR 0x0A"
      by (auto simp: prefix_def)
    with collapse_head [of cs] have "cs \<noteq> []" "hd cs = CHR 0x0A"
      by auto
    with p(1) Cons show ?thesis
      by (cases cs) auto
  qed
qed

lemma no_triple_behind_two:
  assumes "X = [] \<or> hd X \<noteq> CHR 0x0A"
    and "\<not> sublist [CHR 0x0A, CHR 0x0A, CHR 0x0A] X"
  shows "\<not> sublist [CHR 0x0A, CHR 0x0A, CHR 0x0A] (CHR 0x0A # CHR 0x0A # X)"
proof -
  from assms(1) have "\<not> prefix [CHR 0x0A, CHR 0x0A, CHR 0x0A] (CHR 0x0A # CHR 0x0A # X)"
    "\<not> prefix [CHR 0x0A, CHR 0x0A, CHR 0x0A] (CHR 0x0A # X)"
    by (cases X; simp)+
  with assms(2) show ?thesis
    using sublist_Cons_right [of "[CHR 0x0A, CHR 0x0A, CHR 0x0A]" "CHR 0x0A" "CHR 0x0A # X"]
      sublist_Cons_right [of "[CHR 0x0A, CHR 0x0A, CHR 0x0A]" "CHR 0x0A" X]
    by blast
qed

lemma no_triple_behind_one:
  assumes "\<not> prefix [CHR 0x0A, CHR 0x0A, CHR 0x0A] (c # Y)"
    and "\<not> sublist [CHR 0x0A, CHR 0x0A, CHR 0x0A] Y"
  shows "\<not> sublist [CHR 0x0A, CHR 0x0A, CHR 0x0A] (c # Y)"
  using assms sublist_Cons_right [of "[CHR 0x0A, CHR 0x0A, CHR 0x0A]" c Y]
  by blast

lemma triple_prefix_two:
  "prefix [CHR 0x0A, CHR 0x0A, CHR 0x0A] (c # Y) \<Longrightarrow>
   c = CHR 0x0A \<and> prefix [CHR 0x0A, CHR 0x0A] Y"
  by auto

lemma collapse_no_triple:
  "\<not> sublist [CHR 0x0A, CHR 0x0A, CHR 0x0A] (collapse_newlines s)"
proof (induction s rule: collapse_newlines.induct)
  case 1
  then show ?case by simp
next
  case (2 c cs)
  show ?case
  proof (cases "prefix (NL @ NL @ NL) (c # cs)")
    case True
    let ?rest = "dropWhile (\<lambda>x. x = CHR 0x0A) (c # cs)"
    have "?rest = [] \<or> hd ?rest \<noteq> CHR 0x0A"
      using hd_dropWhile [of "\<lambda>x. x = CHR 0x0A" "c # cs"] by blast
    then have h: "collapse_newlines ?rest = [] \<or> hd (collapse_newlines ?rest) \<noteq> CHR 0x0A"
      by (rule collapse_head)
    have ih: "\<not> sublist [CHR 0x0A, CHR 0x0A, CHR 0x0A] (collapse_newlines ?rest)"
      by (rule 2(1) [OF True])
    have "collapse_newlines (c # cs) = NL @ NL @ collapse_newlines ?rest"
      by (simp only: collapse_newlines.simps True if_True)
    then have c: "collapse_newlines (c # cs) = CHR 0x0A # CHR 0x0A # collapse_newlines ?rest"
      by (simp only: NL_def append.simps)
    show ?thesis
      unfolding c using h ih by (rule no_triple_behind_two)
  next
    case False
    have ih: "\<not> sublist [CHR 0x0A, CHR 0x0A, CHR 0x0A] (collapse_newlines cs)"
      by (rule 2(2) [OF False])
    have c: "collapse_newlines (c # cs) = c # collapse_newlines cs"
      by (simp only: collapse_newlines.simps False if_False)
    have "\<not> prefix [CHR 0x0A, CHR 0x0A, CHR 0x0A] (c # collapse_newlines cs)"
    proof
      assume "prefix [CHR 0x0A, CHR 0x0A, CHR 0x0A] (c # collapse_newlines cs)"
      then have "c = CHR 0x0A \<and> prefix [CHR 0x0A, CHR 0x0A] (collapse_newlines cs)"
        by (rule triple_prefix_two)
      with collapse_two [of cs] have "c = CHR 0x0A" "prefix [CHR 0x0A, CHR 0x0A] cs"
        by blast+
      then have "prefix (NL @ NL @ NL) (c # cs)"
        by (simp add: NL_def)
      with False show False ..
    qed
    then show ?thesis
      unfolding c using ih by (rule no_triple_behind_one)
  qed
qed

lemma generateResponse_returns:
  assumes "llm_context svc = Some ctx" and "llm_isInitialized svc" and "\<forall>p. ctx p = Inr raw"
  shows "generateResponse svc userMessage history options =
     Inr \<lparr>res_text = removeSuggestions (cleanResponse raw),
          res_suggestions =
            (if extractSuggestions (cleanResponse raw) = [] then None
             else Some (extractSuggestions (cleanResponse raw)))\<rparr>"
  using assms by (simp add: generateResponse_def Let_def)

lemma demo_hello_clean:
  "cleanResponse
     ''<think>reasoning here</think>Hello there [Tell me more] [Ask something]'' =
   ''Hello there [Tell me more] [Ask something]''"
  by code_simp

lemma demo_hello_suggestions:
  "extractSuggestions ''Hello there [Tell me more] [Ask something]'' =
   [''Tell me more'', ''Ask something'']"
  by code_simp

lemma demo_hello_text:
  "removeSuggestions ''Hello there [Tell me more] [Ask something]'' = ''Hello there''"
  by code_simp

lemma demo_docs_clean: "cleanResponse ''See [docs] for more info'' = ''See [docs] for more info''"
  by code_simp

lemma demo_docs_suggestions: "extractSuggestions ''See [docs] for more info'' = [''docs'']"
  by code_simp

lemma demo_docs_text:
  "removeSuggestions ''See [docs] for more info'' = ''See [docs] for more info''"
  by code_simp

lemma demo_lines_suggestions:
  "extractSuggestions (''Hello'' @ NL @ ''[A]'' @ NL @ ''[B]'') = [''B'']"
  by code_simp

lemma demo_lines_text: "removeSuggestions (''Hello'' @ NL @ ''[A]'' @ NL @ ''[B]'') = ''Hello''"
  by code_simp

text \<open>
  C7. The code does not do what the claim and its own comment say (``only extract if they
  appear at the end of the message''): \<open>extractSuggestions\<close> takes every bracketed token of
  the last line, wherever it stands. For the completion \<open>See [docs] for more info\<close>, which
  ends in no bracket, the suggestions are \<open>docs\<close> and the text keeps \<open>[docs]\<close>. And for a
  trailing group that spans lines the whole group is removed from the text while only
  the tokens of the last line become suggestions.
\<close>

theorem suggestions_outside_trailing_group:
  "cleanResponse ''See [docs] for more info'' = ''See [docs] for more info''
   \<and> extractSuggestions ''See [docs] for more info'' = [''docs'']
   \<and> removeSuggestions ''See [docs] for more info'' = ''See [docs] for more info''
   \<and> generateResponse (demo_llm ''See [docs] for more info'') ''hi'' []
        \<lparr>opt_temperature = None, opt_maxTokens = None, opt_topK = None, opt_topP = None\<rparr> =
       Inr \<lparr>res_text = ''See [docs] for more info'', res_suggestions = Some [''docs'']\<rparr>
   \<and> extractSuggestions (''Hello'' @ NL @ ''[A]'' @ NL @ ''[B]'') = [''B'']
   \<and> removeSuggestions (''Hello'' @ NL @ ''[A]'' @ NL @ ''[B]'') = ''Hello''"
proof -
  have "generateResponse (demo_llm ''See [docs] for more info'') ''hi'' []
        \<lparr>opt_temperature = None, opt_maxTokens = None, opt_topK = None, opt_topP = None\<rparr> =
       Inr \<lparr>res_text = ''See [docs] for more info'', res_suggestions = Some [''docs'']\<rparr>"
    by (simp add: generateResponse_returns [of _ "\<lambda>p. Inr ''See [docs] for more info''"]
        demo_llm_def demo_docs_clean demo_docs_suggestions demo_docs_text)
  then show ?thesis
    by (simp only: demo_docs_clean demo_docs_suggestions demo_docs_text demo_lines_suggestions
        demo_lines_text simp_thms)
qed

lemma demo_nbsp_clean: "cleanResponse (CHR 0xA0 # ''Hello'' @ [CHR 0xA0, CHR 0x0A]) = ''Hello''"
  by code_simp

lemma demo_lone_close_clean: "cleanResponse ''a</think>b<THINK>'' = ''a</think>b''"
  by code_simp

text \<open>
  C8. \<open>cleanResponse\<close> is the five steps in this order, and each step does what the claim
  says of it. A \<open><think>\<close> tag, in any case, with the first \<open></think>\<close> behind it is removed
  with everything between them, and the scan goes on behind it; a text without a closing
  tag is left alone by this step. From the first opening tag that is left, everything to
  the end is removed, so that no opening tag is left behind this step. Each occurrence of
  a turn delimiter met in one pass from left to right is removed. A run of line feeds
  becomes two line feeds when it is three or longer and stays as it is otherwise, so no
  three line feeds in a row are left. Trimming removes white space at both ends, the
  no-break space included, and nothing else. The example of the claim evaluates as
  stated, and \<open>generateResponse\<close> returns a result for every text the engine
  returns: the sanitizer has no failing case. More generally the first step leaves a
  text alone when no opening tag in it has a closing tag behind it, as for a closing tag
  that closes nothing.
\<close>

theorem response_sanitizer:
  "cleanResponse str =
     trim (collapse_newlines (remove_all ''<|im_start|>'' (remove_all ''<|im_end|>''
       (remove_unclosed_think (remove_think_blocks str)))))
   \<and> ((\<forall>i < length pre. \<not> ci_prefix ''<think>'' (drop i (pre @ opn @ body @ cls @ rest)))
        \<and> toLowerCase opn = ''<think>'' \<and> toLowerCase cls = ''</think>''
        \<and> (\<forall>j < length body. \<not> ci_prefix ''</think>'' (drop j (body @ cls @ rest))) \<longrightarrow>
        remove_think_blocks (pre @ opn @ body @ cls @ rest) = pre @ remove_think_blocks rest)
   \<and> ((\<forall>i < length str. \<not> ci_prefix ''</think>'' (drop i str)) \<longrightarrow>
        remove_think_blocks str = str)
   \<and> ((\<forall>i < length pre. \<not> ci_prefix ''<think>'' (drop i (pre @ opn @ rest)))
        \<and> toLowerCase opn = ''<think>'' \<longrightarrow>
        remove_unclosed_think (pre @ opn @ rest) = pre)
   \<and> ((\<forall>i < length str. \<not> ci_prefix ''<think>'' (drop i str)) \<longrightarrow>
        remove_unclosed_think str = str)
   \<and> \<not> ci_prefix ''<think>'' (drop k (remove_unclosed_think str))
   \<and> (tok \<noteq> [] \<and> (\<forall>i < length pre. \<not> prefix tok (drop i (pre @ tok @ rest))) \<longrightarrow>
        remove_all tok (pre @ tok @ rest) = pre @ remove_all tok rest)
   \<and> ((\<forall>i < length str. \<not> prefix tok (drop i str)) \<longrightarrow> remove_all tok str = str)
   \<and> (rest = [] \<or> hd rest \<noteq> CHR 0x0A \<longrightarrow>
        collapse_newlines (replicate n (CHR 0x0A) @ rest) =
          replicate (min n 2) (CHR 0x0A) @ collapse_newlines rest)
   \<and> (c \<noteq> CHR 0x0A \<longrightarrow> collapse_newlines (c # str) = c # collapse_newlines str)
   \<and> \<not> sublist [CHR 0x0A, CHR 0x0A, CHR 0x0A] (collapse_newlines str)
   \<and> (\<exists>a b. str = a @ trim str @ b \<and> (\<forall>x \<in> set a. isSpace x) \<and> (\<forall>x \<in> set b. isSpace x))
   \<and> (trim str = [] \<or> (\<not> isSpace (hd (trim str)) \<and> \<not> isSpace (last (trim str))))
   \<and> cleanResponse
         ''<think>reasoning here</think>Hello there [Tell me more] [Ask something]'' =
       ''Hello there [Tell me more] [Ask something]''
   \<and> removeSuggestions ''Hello there [Tell me more] [Ask something]'' = ''Hello there''
   \<and> extractSuggestions ''Hello there [Tell me more] [Ask something]'' =
       [''Tell me more'', ''Ask something'']
   \<and> (llm_context svc = Some ctx \<and> llm_isInitialized svc \<and> (\<forall>p. ctx p = Inr raw) \<longrightarrow>
        generateResponse svc userMessage history options =
          Inr \<lparr>res_text = removeSuggestions (cleanResponse raw),
               res_suggestions =
                 (if extractSuggestions (cleanResponse raw) = [] then None
                  else Some (extractSuggestions (cleanResponse raw)))\<rparr>)
   \<and> ((\<forall>i j. i + 7 \<le> j \<and> j < length u \<and> ci_prefix ''<think>'' (drop i u) \<longrightarrow>
           \<not> ci_prefix ''</think>'' (drop j u)) \<longrightarrow>
        remove_think_blocks u = u)
   \<and> (isSpace ch \<longleftrightarrow>
        ch \<in> {CHR 0x09, CHR 0x0A, CHR 0x0B, CHR 0x0C, CHR 0x0D, CHR 0x20, CHR 0xA0})
   \<and> cleanResponse (CHR 0xA0 # ''Hello'' @ [CHR 0xA0, CHR 0x0A]) = ''Hello''
   \<and> cleanResponse ''a</think>b<THINK>'' = ''a</think>b''"
proof (intro conjI impI)
  show "cleanResponse str =
     trim (collapse_newlines (remove_all ''<|im_start|>'' (remove_all ''<|im_end|>''
       (remove_unclosed_think (remove_think_blocks str)))))"
    by (rule cleanResponse_steps)
  show "remove_think_blocks (pre @ opn @ body @ cls @ rest) = pre @ remove_think_blocks rest"
    if "(\<forall>i < length pre. \<not> ci_prefix ''<think>'' (drop i (pre @ opn @ body @ cls @ rest)))
        \<and> toLowerCase opn = ''<think>'' \<and> toLowerCase cls = ''</think>''
        \<and> (\<forall>j < length body. \<not> ci_prefix ''</think>'' (drop j (body @ cls @ rest)))"
    using that by (intro think_block_removed) blast+
  show "remove_think_blocks str = str"
    if "\<forall>i < length str. \<not> ci_prefix ''</think>'' (drop i str)"
    using that by (rule no_close_unchanged)
  show "remove_unclosed_think (pre @ opn @ rest) = pre"
    if "(\<forall>i < length pre. \<not> ci_prefix ''<think>'' (drop i (pre @ opn @ rest)))
        \<and> toLowerCase opn = ''<think>''"
    using that by (intro unclosed_removed) blast+
  show "remove_unclosed_think str = str"
    if "\<forall>i < length str. \<not> ci_prefix ''<think>'' (drop i str)"
  proof -
    from that have "remove_unclosed_think (str @ []) = str @ remove_unclosed_think []"
      by (intro skip_unclosed) simp
    then show ?thesis
      by simp
  qed
  show "\<not> ci_prefix ''<think>'' (drop k (remove_unclosed_think str))"
    by (rule no_think_left)
  show "remove_all tok (pre @ tok @ rest) = pre @ remove_all tok rest"
    if "tok \<noteq> [] \<and> (\<forall>i < length pre. \<not> prefix tok (drop i (pre @ tok @ rest)))"
    using that by (intro token_removed) blast+
  show "remove_all tok str = str"
    if "\<forall>i < length str. \<not> prefix tok (drop i str)"
  proof -
    from that have "remove_all tok (str @ []) = str @ remove_all tok []"
      by (intro skip_token) simp
    then show ?thesis
      by simp
  qed
  show "collapse_newlines (replicate n (CHR 0x0A) @ rest) =
          replicate (min n 2) (CHR 0x0A) @ collapse_newlines rest"
    if "rest = [] \<or> hd rest \<noteq> CHR 0x0A"
    using that by (rule collapse_run)
  show "collapse_newlines (c # str) = c # collapse_newlines str" if "c \<noteq> CHR 0x0A"
    using that by (rule collapse_other)
  show "\<not> sublist [CHR 0x0A, CHR 0x0A, CHR 0x0A] (collapse_newlines str)"
    by (rule collapse_no_triple)
  show "\<exists>a b. str = a @ trim str @ b \<and> (\<forall>x \<in> set a. isSpace x) \<and> (\<forall>x \<in> set b. isSpace x)"
    by (rule trim_decompose)
  show "trim str = [] \<or> (\<not> isSpace (hd (trim str)) \<and> \<not> isSpace (last (trim str)))"
    by (rule trim_ends)
  show "cleanResponse
         ''<think>reasoning here</think>Hello there [Tell me more] [Ask something]'' =
       ''Hello there [Tell me more] [Ask something]''"
    by (rule demo_hello_clean)
  show "removeSuggestions ''Hello there [Tell me more] [Ask something]'' = ''Hello there''"
    by (rule demo_hello_text)
  show "extractSuggestions ''Hello there [Tell me more] [Ask something]'' =
       [''Tell me more'', ''Ask something'']"
    by (rule demo_hello_suggestions)
  show "generateResponse svc userMessage history options =
          Inr \<lparr>res_text = removeSuggestions (cleanResponse raw),
               res_suggestions =
                 (if extractSuggestions (cleanResponse raw) = [] then None
                  else Some (extractSuggestions (cleanResponse raw)))\<rparr>"
    if "llm_context svc = Some ctx \<and> llm_isInitialized svc \<and> (\<forall>p. ctx p = Inr raw)"
    using that by (intro generateResponse_returns) blast+
  show "remove_think_blocks u = u"
    if "\<forall>i j. i + 7 \<le> j \<and> j < length u \<and> ci_prefix ''<think>'' (drop i u) \<longrightarrow>
           \<not> ci_prefix ''</think>'' (drop j u)"
    using that by (rule no_block_unchanged)
  show "isSpace ch \<longleftrightarrow>
        ch \<in> {CHR 0x09, CHR 0x0A, CHR 0x0B, CHR 0x0C, CHR 0x0D, CHR 0x20, CHR 0xA0}"
    by (simp add: isSpace_def)
  show "cleanResponse (CHR 0xA0 # ''Hello'' @ [CHR 0xA0, CHR 0x0A]) = ''Hello''"
    by (rule demo_nbsp_clean)
  show "cleanResponse ''a</think>b<THINK>'' = ''a</think>b''"
    by (rule demo_lone_close_clean)
qed

lemma demo_tags:
  "toLowerCase ''<THINK>'' = ''<think>''" "toLowerCase ''</Think>'' = ''</think>''"
  by code_simp+

lemma demo_no_tags:
  "\<not> ci_prefix ''<think>'' ''a<THINK>b</Think>c''"
  "\<not> ci_prefix ''</think>'' ''b</Think>c''"
  "\<not> ci_prefix ''</think>'' ''x''"
  "\<not> ci_prefix ''<think>'' ''a<THINK>c''"
  "\<not> ci_prefix ''<think>'' ''x''"
  "\<not> prefix ''<|im_end|>'' ''a<|im_end|>c''"
  "\<not> prefix ''<|im_end|>'' ''x''"
  by code_simp+

lemma demo_lone_close:
  "\<forall>i j. i + 7 \<le> j \<and> j < length ''a</think>b<THINK>''
      \<and> ci_prefix ''<think>'' (drop i ''a</think>b<THINK>'') \<longrightarrow>
      \<not> ci_prefix ''</think>'' (drop j ''a</think>b<THINK>'')"
proof (intro allI impI)
  fix i j
  assume a: "i + 7 \<le> j \<and> j < length ''a</think>b<THINK>''
      \<and> ci_prefix ''<think>'' (drop i ''a</think>b<THINK>'')"
  then have "i \<in> set [0..<10]"
    by simp
  moreover have "list_all (\<lambda>i. \<not> ci_prefix ''<think>'' (drop i ''a</think>b<THINK>'')) [0..<10]"
    by code_simp
  ultimately have "\<not> ci_prefix ''<think>'' (drop i ''a</think>b<THINK>'')"
    unfolding list_all_iff by blast
  with a show "\<not> ci_prefix ''</think>'' (drop j ''a</think>b<THINK>'')"
    by simp
qed

theorem response_sanitizer_witness:
  "remove_think_blocks (''a'' @ ''<THINK>'' @ ''b'' @ ''</Think>'' @ ''c'') =
     ''a'' @ remove_think_blocks ''c''
   \<and> remove_think_blocks ''x'' = ''x''
   \<and> remove_unclosed_think (''a'' @ ''<THINK>'' @ ''c'') = ''a''
   \<and> remove_unclosed_think ''x'' = ''x''
   \<and> remove_all ''<|im_end|>'' (''a'' @ ''<|im_end|>'' @ ''c'') = ''a'' @ remove_all ''<|im_end|>'' ''c''
   \<and> remove_all ''<|im_end|>'' ''x'' = ''x''
   \<and> collapse_newlines (replicate 4 (CHR 0x0A) @ ''c'') =
       replicate (min 4 2) (CHR 0x0A) @ collapse_newlines ''c''
   \<and> collapse_newlines (CHR ''a'' # ''x'') = CHR ''a'' # collapse_newlines ''x''
   \<and> remove_think_blocks ''a</think>b<THINK>'' = ''a</think>b<THINK>''
   \<and> generateResponse
        (demo_llm ''<think>reasoning here</think>Hello there [Tell me more] [Ask something]'')
        ''hi'' []
        \<lparr>opt_temperature = None, opt_maxTokens = None, opt_topK = None, opt_topP = None\<rparr> =
       Inr \<lparr>res_text = ''Hello there'',
            res_suggestions = Some [''Tell me more'', ''Ask something'']\<rparr>"
proof -
  note t = response_sanitizer
    [where str = "''x''" and pre = "''a''" and opn = "''<THINK>''" and body = "''b''"
      and cls = "''</Think>''" and rest = "''c''" and tok = "''<|im_end|>''" and n = 4
      and c = "CHR ''a''" and k = 0 and u = "''a</think>b<THINK>''"
      and svc = "demo_llm ''<think>reasoning here</think>Hello there [Tell me more] [Ask something]''"
      and ctx = "\<lambda>p. Inr ''<think>reasoning here</think>Hello there [Tell me more] [Ask something]''"
      and raw = "''<think>reasoning here</think>Hello there [Tell me more] [Ask something]''"
      and userMessage = "''hi''" and history = "[]"
      and options = "\<lparr>opt_temperature = None, opt_maxTokens = None, opt_topK = None,
                      opt_topP = None\<rparr>"]
  have 1: "remove_think_blocks (''a'' @ ''<THINK>'' @ ''b'' @ ''</Think>'' @ ''c'') =
     ''a'' @ remove_think_blocks ''c''"
    by (rule t [THEN conjunct2, THEN conjunct1, THEN mp]) (simp add: demo_tags demo_no_tags)
  have 2: "remove_think_blocks ''x'' = ''x''"
    by (rule t [THEN conjunct2, THEN conjunct2, THEN conjunct1, THEN mp]) (simp add: demo_no_tags)
  have 3: "remove_unclosed_think (''a'' @ ''<THINK>'' @ ''c'') = ''a''"
    by (rule t [THEN conjunct2, THEN conjunct2, THEN conjunct2, THEN conjunct1, THEN mp]) (simp add: demo_tags demo_no_tags)
  have 4: "remove_unclosed_think ''x'' = ''x''"
    by (rule t [THEN conjunct2, THEN conjunct2, THEN conjunct2, THEN conjunct2, THEN conjunct1, THEN mp]) (simp add: demo_no_tags)
  have 5: "remove_all ''<|im_end|>'' (''a'' @ ''<|im_end|>'' @ ''c'') =
      ''a'' @ remove_all ''<|im_end|>'' ''c''"
    by (rule t [THEN conjunct2, THEN conjunct2, THEN conjunct2, THEN conjunct2, THEN conjunct2, THEN conjunct2, THEN conjunct1, THEN mp]) (simp add: demo_no_tags)
  have 6: "remove_all ''<|im_end|>'' ''x'' = ''x''"
    by (rule t [THEN conjunct2, THEN conjunct2, THEN conjunct2, THEN conjunct2, THEN conjunct2, THEN conjunct2, THEN conjunct2, THEN conjunct1, THEN mp]) (simp add: demo_no_tags)
  have 7: "collapse_newlines (replicate 4 (CHR 0x0A) @ ''c'') =
       replicate (min 4 2) (CHR 0x0A) @ collapse_newlines ''c''"
    by (rule t [THEN conjunct2, THEN conjunct2, THEN conjunct2, THEN conjunct2, THEN conjunct2, THEN conjunct2, THEN conjunct2, THEN conjunct2, THEN conjunct1, THEN mp]) simp
  have 8: "collapse_newlines (CHR ''a'' # ''x'') = CHR ''a'' # collapse_newlines ''x''"
    by (rule t [THEN conjunct2, THEN conjunct2, THEN conjunct2, THEN conjunct2, THEN conjunct2, THEN conjunct2, THEN conjunct2, THEN conjunct2, THEN conjunct2, THEN conjunct1, THEN mp]) simp
  have c: "cleanResponse
         ''<think>reasoning here</think>Hello there [Tell me more] [Ask something]'' =
       ''Hello there [Tell me more] [Ask something]''"
    by (rule t [THEN conjunct2, THEN conjunct2, THEN conjunct2, THEN conjunct2, THEN conjunct2, THEN conjunct2, THEN conjunct2, THEN conjunct2, THEN conjunct2, THEN conjunct2, THEN conjunct2, THEN conjunct2, THEN conjunct2, THEN conjunct1])
  have r: "removeSuggestions ''Hello there [Tell me more] [Ask something]'' = ''Hello there''"
    by (rule t [THEN conjunct2, THEN conjunct2, THEN conjunct2, THEN conjunct2, THEN conjunct2, THEN conjunct2, THEN conjunct2, THEN conjunct2, THEN conjunct2, THEN conjunct2, THEN conjunct2, THEN conjunct2, THEN conjunct2, THEN conjunct2, THEN conjunct1])
  have e: "extractSuggestions ''Hello there [Tell me more] [Ask something]'' =
       [''Tell me more'', ''Ask something'']"
    by (rule t [THEN conjunct2, THEN conjunct2, THEN conjunct2, THEN conjunct2, THEN conjunct2, THEN conjunct2, THEN conjunct2, THEN conjunct2, THEN conjunct2, THEN conjunct2, THEN conjunct2, THEN conjunct2, THEN conjunct2, THEN conjunct2, THEN conjunct2, THEN conjunct1])
  have "generateResponse
        (demo_llm ''<think>reasoning here</think>Hello there [Tell me more] [Ask something]'')
        ''hi'' []
        \<lparr>opt_temperature = None, opt_maxTokens = None, opt_topK = None, opt_topP = None\<rparr> =
       Inr \<lparr>res_text = removeSuggestions (cleanResponse
                ''<think>reasoning here</think>Hello there [Tell me more] [Ask something]''),
            res_suggestions =
              (if extractSuggestions (cleanResponse
                    ''<think>reasoning here</think>Hello there [Tell me more] [Ask something]'') = []
               then None
               else Some (extractSuggestions (cleanResponse
                    ''<think>reasoning here</think>Hello there [Tell me more] [Ask something]'')))\<rparr>"
    by (rule t [THEN conjunct2, THEN conjunct2, THEN conjunct2, THEN conjunct2, THEN conjunct2, THEN conjunct2, THEN conjunct2, THEN conjunct2, THEN conjunct2, THEN conjunct2, THEN conjunct2, THEN conjunct2, THEN conjunct2, THEN conjunct2, THEN conjunct2, THEN conjunct2, THEN conjunct1, THEN mp]) (simp add: demo_llm_def)
  then have 9: "generateResponse
        (demo_llm ''<think>reasoning here</think>Hello there [Tell me more] [Ask something]'')
        ''hi'' []
        \<lparr>opt_temperature = None, opt_maxTokens = None, opt_topK = None, opt_topP = None\<rparr> =
       Inr \<lparr>res_text = ''Hello there'',
            res_suggestions = Some [''Tell me more'', ''Ask something'']\<rparr>"
    by (simp only: c r e) simp
  have 10: "remove_think_blocks ''a</think>b<THINK>'' = ''a</think>b<THINK>''"
    by (rule t [THEN conjunct2, THEN conjunct2, THEN conjunct2, THEN conjunct2, THEN conjunct2, THEN conjunct2, THEN conjunct2, THEN conjunct2, THEN conjunct2, THEN conjunct2, THEN conjunct2, THEN conjunct2, THEN conjunct2, THEN conjunct2, THEN conjunct2, THEN conjunct2, THEN conjunct2, THEN conjunct1, THEN mp, OF demo_lone_close])
  from 1 2 3 4 5 6 7 8 9 10 show ?thesis
    by blast
qed

section \<open>The store operations on an open database\<close>

lemma set_order_by_asc: "set (order_by_asc col rows) = set rows"
  by (simp add: order_by_asc_def)

lemma set_order_by_desc: "set (order_by_desc col rows) = set rows"
  by (simp add: order_by_desc_def)

lemma order_by_asc_Nil [simp]: "order_by_asc col rows = [] \<longleftrightarrow> rows = []"
  by (metis set_order_by_asc set_empty)

lemma order_by_desc_Nil [simp]: "order_by_desc col rows = [] \<longleftrightarrow> rows = []"
  by (metis set_order_by_desc set_empty)

lemma getAllGoals_Some:
  "svc_db s = Some d \<Longrightarrow> getAllGoals s = Inr (order_by_desc goal_created_at (db_Goals d))"
  by (simp add: getAllGoals_def)

lemma updateGoalStreak_Some:
  "svc_db s = Some d \<Longrightarrow>
   updateGoalStreak s goalId =
     Inr (s\<lparr>svc_db := Some (d\<lparr>db_clock_reads := Suc (db_clock_reads d),
            db_Goals := map (\<lambda>g. if goal_id g = goalId
                then g\<lparr>goal_streak_count := goal_streak_count g + 1,
                       goal_last_completed_date := Some (db_clock d (db_clock_reads d))\<rparr>
                else g) (db_Goals d)\<rparr>)\<rparr>)"
  by (simp add: updateGoalStreak_def read_clock_def)

lemma getAllLists_Some:
  "svc_db s = Some d \<Longrightarrow> getAllLists s = Inr (order_by_desc list_created_at (db_Lists d))"
  by (simp add: getAllLists_def)

lemma getListItems_Some:
  "svc_db s = Some d \<Longrightarrow>
   getListItems s listId =
     Inr (order_by_asc item_created_at (filter (\<lambda>r. item_list_id r = listId) (db_ListItems d)))"
  by (simp add: getListItems_def)

lemma bind_text_string [simp]: "bind_text d (JString x) = Inr x"
  by (simp add: bind_text_def)

lemma bind_text_null [simp]: "bind_text d JNull = Inl ConstraintFailed"
  by (simp add: bind_text_def)

lemma bind_real_number [simp]: "bind_real d (JNumber x) = Inr (JNumber x)"
  by (simp add: bind_real_def)

lemma addListItem_bound:
  "svc_db s = Some d \<Longrightarrow> bind_text d v = Inr content \<Longrightarrow>
   addListItem s listId v =
     Inr (lastInsertRowId (map item_id (db_ListItems d)),
          s\<lparr>svc_db := Some (d\<lparr>db_clock_reads := Suc (db_clock_reads d),
                 db_ListItems := db_ListItems d @ [new_entry d listId content]\<rparr>)\<rparr>)"
  by (simp add: addListItem_def read_clock_def new_entry_def Let_def)

lemma addListItem_Some:
  "svc_db s = Some d \<Longrightarrow>
   addListItem s listId (JString content) =
     Inr (lastInsertRowId (map item_id (db_ListItems d)),
          s\<lparr>svc_db := Some (d\<lparr>db_clock_reads := Suc (db_clock_reads d),
                 db_ListItems := db_ListItems d @ [new_entry d listId content]\<rparr>)\<rparr>)"
  by (simp add: addListItem_bound)

lemma addListItem_rejected:
  "svc_db s = Some d \<Longrightarrow> bind_text d v = Inl e \<Longrightarrow> addListItem s listId v = Inl e"
  by (simp add: addListItem_def)

lemma addListItem_Inr:
  assumes "addListItem s listId v = Inr (rowid, s')"
  obtains d content where "svc_db s = Some d" and "bind_text d v = Inr content"
    and "s' = s\<lparr>svc_db := Some (d\<lparr>db_clock_reads := Suc (db_clock_reads d),
                 db_ListItems := db_ListItems d @ [new_entry d listId content]\<rparr>)\<rparr>"
proof -
  from assms obtain d where d: "svc_db s = Some d"
    by (cases "svc_db s") (auto simp: addListItem_def)
  with assms obtain content where b: "bind_text d v = Inr content"
    by (cases "bind_text d v") (auto simp: addListItem_def)
  from assms addListItem_bound [OF d b, of listId]
  have "s' = s\<lparr>svc_db := Some (d\<lparr>db_clock_reads := Suc (db_clock_reads d),
                 db_ListItems := db_ListItems d @ [new_entry d listId content]\<rparr>)\<rparr>"
    by auto
  with d b show ?thesis
    by (rule that)
qed

lemma addNote_bound:
  "svc_db s = Some d \<Longrightarrow> bind_text d t = Inr title \<Longrightarrow> bind_text d b = Inr body \<Longrightarrow>
   addNote s t b ''vi'' None =
     Inr (lastInsertRowId (map note_id (db_Notes d)),
          s\<lparr>svc_db := Some (d\<lparr>db_clock_reads := Suc (db_clock_reads d),
                 db_Notes := db_Notes d @
                   [\<lparr>note_id = lastInsertRowId (map note_id (db_Notes d)),
                     note_title = title, note_body = body, note_created_by = ''vi'',
                     note_tags = None,
                     note_created_at = db_clock d (db_clock_reads d)\<rparr>]\<rparr>)\<rparr>)"
  by (simp add: addNote_def read_clock_def Let_def)

lemma addNote_Inr:
  assumes "addNote s t b ''vi'' None = Inr (rowid, s')"
  obtains d title body where "svc_db s = Some d" and "bind_text d t = Inr title"
    and "bind_text d b = Inr body"
    and "s' = s\<lparr>svc_db := Some (d\<lparr>db_clock_reads := Suc (db_clock_reads d),
                 db_Notes := db_Notes d @
                   [\<lparr>note_id = lastInsertRowId (map note_id (db_Notes d)),
                     note_title = title, note_body = body, note_created_by = ''vi'',
                     note_tags = None,
                     note_created_at = db_clock d (db_clock_reads d)\<rparr>]\<rparr>)\<rparr>"
proof -
  from assms obtain d where d: "svc_db s = Some d"
    by (cases "svc_db s") (auto simp: addNote_def)
  with assms obtain title where t: "bind_text d t = Inr title"
    by (cases "bind_text d t") (auto simp: addNote_def)
  with d assms obtain body where b: "bind_text d b = Inr body"
    by (cases "bind_text d b") (auto simp: addNote_def)
  from assms addNote_bound [OF d t b]
  have "s' = s\<lparr>svc_db := Some (d\<lparr>db_clock_reads := Suc (db_clock_reads d),
                 db_Notes := db_Notes d @
                   [\<lparr>note_id = lastInsertRowId (map note_id (db_Notes d)),
                     note_title = title, note_body = body, note_created_by = ''vi'',
                     note_tags = None,
                     note_created_at = db_clock d (db_clock_reads d)\<rparr>]\<rparr>)\<rparr>"
    by auto
  with d t b show ?thesis
    by (rule that)
qed

lemma addMindmapNode_bound:
  "svc_db s = Some d \<Longrightarrow> bind_text d l = Inr label \<Longrightarrow> bind_text d c = Inr category \<Longrightarrow>
   bind_real d (case cf of None \<Rightarrow> JNumber 0.8 | Some v \<Rightarrow> v) = Inr confidence \<Longrightarrow>
   addMindmapNode s l c cf None =
     (if category \<notin> set [''values'', ''goals'', ''personality'', ''facts'']
      then Inl ConstraintFailed
      else Inr (lastInsertRowId (map node_id (db_MindmapNodes d)),
          s\<lparr>svc_db := Some (d\<lparr>db_clock_reads := Suc (db_clock_reads d),
                 db_MindmapNodes := db_MindmapNodes d @
                   [new_fact d label category confidence]\<rparr>)\<rparr>))"
  by (simp add: addMindmapNode_def read_clock_def new_fact_def Let_def del: set_simps)

lemma addMindmapNode_Inr:
  assumes "addMindmapNode s l c cf None = Inr (rowid, s')"
  obtains d label category confidence where "svc_db s = Some d"
    and "bind_text d l = Inr label" and "bind_text d c = Inr category"
    and "bind_real d (case cf of None \<Rightarrow> JNumber 0.8 | Some v \<Rightarrow> v) = Inr confidence"
    and "category \<in> set [''values'', ''goals'', ''personality'', ''facts'']"
    and "s' = s\<lparr>svc_db := Some (d\<lparr>db_clock_reads := Suc (db_clock_reads d),
                 db_MindmapNodes := db_MindmapNodes d @
                   [new_fact d label category confidence]\<rparr>)\<rparr>"
proof -
  from assms obtain d where d: "svc_db s = Some d"
    by (cases "svc_db s") (auto simp: addMindmapNode_def)
  with assms obtain label where l: "bind_text d l = Inr label"
    by (cases "bind_text d l") (auto simp: addMindmapNode_def)
  with d assms obtain category where c: "bind_text d c = Inr category"
    by (cases "bind_text d c") (auto simp: addMindmapNode_def)
  with d l assms obtain confidence where
    r: "bind_real d (case cf of None \<Rightarrow> JNumber 0.8 | Some v \<Rightarrow> v) = Inr confidence"
    by (cases "bind_real d (case cf of None \<Rightarrow> JNumber 0.8 | Some v \<Rightarrow> v)")
      (auto simp: addMindmapNode_def)
  from assms addMindmapNode_bound [OF d l c r]
  have ok: "category \<in> set [''values'', ''goals'', ''personality'', ''facts'']"
    by (auto split: if_splits simp del: set_simps)
  with assms addMindmapNode_bound [OF d l c r]
  have "s' = s\<lparr>svc_db := Some (d\<lparr>db_clock_reads := Suc (db_clock_reads d),
                 db_MindmapNodes := db_MindmapNodes d @
                   [new_fact d label category confidence]\<rparr>)\<rparr>"
    by (auto simp del: set_simps)
  with d l c r ok show ?thesis
    by (rule that)
qed

lemma createList_Some:
  "svc_db s = Some d \<Longrightarrow>
   createList s title type =
     Inr (lastInsertRowId (map list_id (db_Lists d)),
          s\<lparr>svc_db := Some (d\<lparr>db_clock_reads := Suc (db_clock_reads d),
                 db_Lists := db_Lists d @
                   [\<lparr>list_id = lastInsertRowId (map list_id (db_Lists d)),
                     list_title = title, list_type = type,
                     list_created_at = db_clock d (db_clock_reads d)\<rparr>]\<rparr>)\<rparr>)"
  by (simp add: createList_def read_clock_def Let_def)

lemma getAllMindmapNodes_Some:
  "svc_db s = Some d \<Longrightarrow>
   getAllMindmapNodes s = Inr (order_by_asc node_created_at (db_MindmapNodes d))"
  by (simp add: getAllMindmapNodes_def)

lemma title_matches_iff:
  "title_matches title name \<longleftrightarrow>
     (\<exists>p q. toLowerCase title = p @ toLowerCase name @ q) \<or>
     (\<exists>p q. toLowerCase name = p @ toLowerCase title @ q)"
  by (simp add: title_matches_def str_includes_def sublist_def)

section \<open>Callbacks that return\<close>

lemma js_find_pure: "(\<And>x. p x = Inr (q x)) \<Longrightarrow> js_find p xs = Inr (List.find q xs)"
  by (induction xs) simp_all

lemma js_some_pure: "(\<And>x. p x = Inr (q x)) \<Longrightarrow> js_some p xs = Inr (list_ex q xs)"
  by (induction xs) simp_all

lemma js_find_throws: "xs \<noteq> [] \<Longrightarrow> (\<And>x. p x = Inl e) \<Longrightarrow> js_find p xs = Inl e"
  by (cases xs) simp_all

lemma js_some_throws: "xs \<noteq> [] \<Longrightarrow> (\<And>x. p x = Inl e) \<Longrightarrow> js_some p xs = Inl e"
  by (cases xs) simp_all

lemma get_property_Inl: "get_property v key = Inl e \<Longrightarrow> v = JNull \<and> e = TypeError"
  by (cases v) simp_all

lemma js_toLowerCase_Inr:
  "js_toLowerCase v = Inr l \<longleftrightarrow> (\<exists>x. v = Some (JString x) \<and> l = toLowerCase x)"
  by (cases "(v)" rule: js_toLowerCase.cases) auto

lemma js_toLowerCase_Inl: "js_toLowerCase v = Inl e \<Longrightarrow> e = TypeError"
  by (cases "(v)" rule: js_toLowerCase.cases) auto

lemma matches_item_string:
  "map_of props key = Some (JString name) \<Longrightarrow>
   matches_item (JObject props) key title = Inr (title_matches title name)"
  by (simp add: matches_item_def title_matches_def)

lemma matches_item_not_string:
  assumes "\<forall>name. get_property item key \<noteq> Inr (Some (JString name))"
  shows "matches_item item key title = Inl TypeError"
proof (cases "get_property item key")
  case (Inl e)
  then show ?thesis
    by (auto simp: matches_item_def dest: get_property_Inl)
next
  case (Inr v)
  with assms have "\<forall>x. v \<noteq> Some (JString x)"
    by simp
  then have "js_toLowerCase v = Inl TypeError"
    by (cases "(v)" rule: js_toLowerCase.cases) auto
  with Inr show ?thesis
    by (simp add: matches_item_def)
qed

lemma equals_lowered_string:
  "equals_lowered (Some (JString x)) existing = Inr (toLowerCase existing = toLowerCase x)"
  by (simp add: equals_lowered_def)

lemma equals_lowered_not_string:
  "\<forall>x. v \<noteq> Some (JString x) \<Longrightarrow> equals_lowered v existing = Inl TypeError"
  by (cases "(v)" rule: js_toLowerCase.cases) (auto simp: equals_lowered_def)

section \<open>Loops over the store\<close>

lemma for_of_preserves:
  assumes step: "\<And>x s out s'. body x s = (out, s') \<Longrightarrow> R s s'"
    and refl: "\<And>s. R s s"
    and trans: "\<And>a b c. R a b \<Longrightarrow> R b c \<Longrightarrow> R a c"
  shows "for_of body xs s = (out, s') \<Longrightarrow> R s s'"
proof (induction xs arbitrary: s)
  case Nil
  then show ?case by (simp add: refl)
next
  case (Cons x xs)
  obtain o1 s1 where b: "body x s = (o1, s1)"
    by (cases "body x s") auto
  show ?case
  proof (cases o1)
    case None
    with b Cons.prems have "for_of body xs s1 = (out, s')"
      by simp
    then have "R s1 s'" by (rule Cons.IH)
    with step [OF b] show ?thesis by (rule trans)
  next
    case (Some e)
    with b Cons.prems have "s' = s1" by simp
    with step [OF b] show ?thesis by simp
  qed
qed

lemma and_then_preserves:
  assumes p: "\<And>s out s'. p s = (out, s') \<Longrightarrow> R s s'"
    and q: "\<And>s out s'. q s = (out, s') \<Longrightarrow> R s s'"
    and trans: "\<And>a b c. R a b \<Longrightarrow> R b c \<Longrightarrow> R a c"
  shows "and_then p q s = (out, s') \<Longrightarrow> R s s'"
  unfolding and_then_def
  by (auto split: prod.splits option.splits dest: p q intro: trans)

lemma for_items_preserves:
  assumes step: "\<And>x s out s'. body x s = (out, s') \<Longrightarrow> R s s'"
    and refl: "\<And>s. R s s"
    and trans: "\<And>a b c. R a b \<Longrightarrow> R b c \<Longrightarrow> R a c"
  shows "for_items g body s = (out, s') \<Longrightarrow> R s s'"
proof -
  have loop: "for_of body xs t = (u, t') \<Longrightarrow> R t t'" for xs t u t'
    by (rule for_of_preserves [of body R]) (auto intro: step refl trans)
  assume "for_items g body s = (out, s')"
  then show ?thesis
    by (auto simp: for_items_def refl split: sum.splits dest: loop)
qed

lemma applyListGroup_preserves:
  assumes c: "\<And>s t ty rowid s'. createList s t ty = Inr (rowid, s') \<Longrightarrow> R s s'"
    and a: "\<And>s l c rowid s'. addListItem s l c = Inr (rowid, s') \<Longrightarrow> R s s'"
    and refl: "\<And>s. R s s"
    and trans: "\<And>a b c. R a b \<Longrightarrow> R b c \<Longrightarrow> R a c"
  shows "applyListGroup g s = (out, s') \<Longrightarrow> R s s'"
proof -
  assume run: "applyListGroup g s = (out, s')"
  have plain: "addItem l i t = (u, t') \<Longrightarrow> R t t'" for l i t u t'
    by (auto simp: addItem_def refl split: sum.splits dest: a)
  have dedup: "addItemUnlessDuplicate l i t = (u, t') \<Longrightarrow> R t t'" for l i t u t'
    by (auto simp: addItemUnlessDuplicate_def refl split: if_splits sum.splits dest: a)
  have plain_loop: "for_items j (addItem l) t = (u, t') \<Longrightarrow> R t t'" for j l t u t'
    by (rule for_items_preserves [of "addItem l" R]) (auto intro: plain refl trans)
  have dedup_loop: "for_items j (addItemUnlessDuplicate l) t = (u, t') \<Longrightarrow> R t t'"
    for j l t u t'
    by (rule for_items_preserves [of "addItemUnlessDuplicate l" R])
      (auto intro: dedup refl trans)
  have created: "R s s'"
    if "createList s n ty = Inr (newListId, s1)"
      and "for_items g (addItem newListId) s1 = (out, s')" for n ty newListId s1
  proof -
    from that(1) have "R s s1"
      by (rule c)
    moreover from that(2) have "R s1 s'"
      by (rule plain_loop)
    ultimately show ?thesis
      by (rule trans)
  qed
  from run show ?thesis
    unfolding applyListGroup_def
    by (auto simp: refl split: sum.splits option.splits json.splits prod.splits
        dest: dedup_loop created)
qed

lemma applyAnalysisResults_preserves:
  assumes n: "\<And>x s out s'. applyNote x s = (out, s') \<Longrightarrow> R s s'"
    and l: "\<And>x s out s'. applyListGroup x s = (out, s') \<Longrightarrow> R s s'"
    and g: "\<And>x s out s'. applyGoalCompletion x s = (out, s') \<Longrightarrow> R s s'"
    and m: "\<And>x s out s'. applyMindmapNode x s = (out, s') \<Longrightarrow> R s s'"
    and refl: "\<And>s. R s s"
    and trans: "\<And>a b c. R a b \<Longrightarrow> R b c \<Longrightarrow> R a c"
  shows "applyAnalysisResults analysis s = (out, s') \<Longrightarrow> R s s'"
proof -
  have ln: "for_of applyNote xs t = (u, t') \<Longrightarrow> R t t'" for xs t u t'
    by (rule for_of_preserves [of applyNote R]) (auto intro: n refl trans)
  have ll: "for_of applyListGroup xs t = (u, t') \<Longrightarrow> R t t'" for xs t u t'
    by (rule for_of_preserves [of applyListGroup R]) (auto intro: l refl trans)
  have lg: "for_of applyGoalCompletion xs t = (u, t') \<Longrightarrow> R t t'" for xs t u t'
    by (rule for_of_preserves [of applyGoalCompletion R]) (auto intro: g refl trans)
  have lm: "for_of applyMindmapNode xs t = (u, t') \<Longrightarrow> R t t'" for xs t u t'
    by (rule for_of_preserves [of applyMindmapNode R]) (auto intro: m refl trans)
  have a3: "and_then (for_of applyGoalCompletion (ar_completedGoals analysis))
              (for_of applyMindmapNode (ar_mindmapNodes analysis)) t = (u, t') \<Longrightarrow> R t t'"
    for t u t'
    by (rule and_then_preserves [where R = R]) (auto intro: lg lm trans)
  have a2: "and_then (for_of applyListGroup (ar_listItems analysis))
              (and_then (for_of applyGoalCompletion (ar_completedGoals analysis))
                 (for_of applyMindmapNode (ar_mindmapNodes analysis))) t = (u, t') \<Longrightarrow> R t t'"
    for t u t'
    by (rule and_then_preserves [where R = R]) (auto intro: ll a3 trans)
  assume "applyAnalysisResults analysis s = (out, s')"
  then show "R s s'"
    unfolding applyAnalysisResults_def
    by (rule and_then_preserves [where R = R, rotated 3]) (auto intro: ln a2 trans)
qed

section \<open>What applying a result leaves alone\<close>

lemma goal_kept_refl: "goal_kept g g"
  by (simp add: goal_kept_def)

lemma goal_kept_trans: "goal_kept a b \<Longrightarrow> goal_kept b c \<Longrightarrow> goal_kept a c"
  unfolding goal_kept_def
  by (cases a, cases b, cases c) auto

lemma only_inserts_refl: "only_inserts d d"
  by (simp add: only_inserts_def list_all2_refl goal_kept_refl)

lemma only_inserts_trans: "only_inserts a b \<Longrightarrow> only_inserts b c \<Longrightarrow> only_inserts a c"
  unfolding only_inserts_def
  by (auto intro: list_all2_trans [of goal_kept goal_kept goal_kept] goal_kept_trans
      dest: prefix_order.trans)

lemma store_frame_refl: "store_frame s s"
  by (simp add: store_frame_def only_inserts_refl split: option.splits)

lemma store_frame_trans: "store_frame a b \<Longrightarrow> store_frame b c \<Longrightarrow> store_frame a c"
  unfolding store_frame_def
  by (auto split: option.splits intro: only_inserts_trans)

lemma insert_frame:
  assumes "svc_db s = Some d"
    and "db_User d' = db_User d" and "db_Messages d' = db_Messages d"
    and "prefix (db_Notes d) (db_Notes d')" and "prefix (db_Lists d) (db_Lists d')"
    and "prefix (db_ListItems d) (db_ListItems d')"
    and "prefix (db_MindmapNodes d) (db_MindmapNodes d')" and "db_Goals d' = db_Goals d"
  shows "store_frame s (s\<lparr>svc_db := Some d'\<rparr>)"
  using assms by (simp add: store_frame_def only_inserts_def list_all2_refl goal_kept_refl)

lemma addNote_frame: "addNote s t b ''vi'' None = Inr (rowid, s') \<Longrightarrow> store_frame s s'"
  by (erule addNote_Inr) (simp add: insert_frame)

lemma createList_frame: "createList s t ty = Inr (rowid, s') \<Longrightarrow> store_frame s s'"
  by (auto simp: createList_def store_frame_def only_inserts_def read_clock_def Let_def
      list_all2_refl goal_kept_refl split: option.splits if_splits)

lemma addListItem_frame: "addListItem s l c = Inr (rowid, s') \<Longrightarrow> store_frame s s'"
  by (erule addListItem_Inr) (simp add: insert_frame)

lemma addMindmapNode_frame:
  "addMindmapNode s l c cf None = Inr (rowid, s') \<Longrightarrow> store_frame s s'"
  by (erule addMindmapNode_Inr) (simp add: insert_frame)

lemma updateGoalStreak_frame: "updateGoalStreak s g = Inr s' \<Longrightarrow> store_frame s s'"
  by (auto simp: updateGoalStreak_def store_frame_def only_inserts_def read_clock_def Let_def
      list_all2_map2 goal_kept_def list_all2_refl split: option.splits if_splits
      intro!: list_all2_refl)

lemma applyNote_frame: "applyNote n s = (out, s') \<Longrightarrow> store_frame s s'"
  by (auto simp: applyNote_def store_frame_refl split: if_splits sum.splits dest: addNote_frame)

lemma applyListGroup_frame: "applyListGroup g s = (out, s') \<Longrightarrow> store_frame s s'"
  by (rule applyListGroup_preserves [of store_frame])
    (auto intro: createList_frame addListItem_frame store_frame_refl store_frame_trans)

lemma applyGoalCompletion_frame: "applyGoalCompletion g s = (out, s') \<Longrightarrow> store_frame s s'"
  by (auto simp: applyGoalCompletion_def store_frame_refl split: sum.splits option.splits
      dest: updateGoalStreak_frame)

lemma applyMindmapNode_frame: "applyMindmapNode n s = (out, s') \<Longrightarrow> store_frame s s'"
  by (auto simp: applyMindmapNode_def store_frame_refl split: if_splits sum.splits
      dest: addMindmapNode_frame)

lemma applyAnalysisResults_frame:
  "applyAnalysisResults analysis s = (out, s') \<Longrightarrow> store_frame s s'"
  by (rule applyAnalysisResults_preserves [of store_frame])
    (auto intro: applyNote_frame applyListGroup_frame applyGoalCompletion_frame
      applyMindmapNode_frame store_frame_refl store_frame_trans)

text \<open>
  C10. Applying an analysis result to an open database, whether it completes or stops at
  an error, leaves the user profile and the messages as they are; every note, list, list
  item and mindmap node that was there is still there, unchanged and at its place, and
  what is new comes behind them; the goals are the same rows in the same order, each
  with its id, title, frequency, target and creation time, only the streak counter (which
  has not gone down) and the date of the last completion may differ.
\<close>

theorem apply_only_inserts:
  assumes "svc_db s = Some d"
  shows "\<exists>d'. svc_db (snd (applyAnalysisResults analysis s)) = Some d'
     \<and> db_User d' = db_User d \<and> db_Messages d' = db_Messages d
     \<and> prefix (db_Notes d) (db_Notes d')
     \<and> prefix (db_Lists d) (db_Lists d')
     \<and> prefix (db_ListItems d) (db_ListItems d')
     \<and> prefix (db_MindmapNodes d) (db_MindmapNodes d')
     \<and> list_all2 (\<lambda>g g'. g'\<lparr>goal_streak_count := goal_streak_count g,
                              goal_last_completed_date := goal_last_completed_date g\<rparr> = g
                          \<and> goal_streak_count g \<le> goal_streak_count g')
          (db_Goals d) (db_Goals d')"
proof -
  obtain out s' where a: "applyAnalysisResults analysis s = (out, s')"
    by (cases "applyAnalysisResults analysis s") auto
  then have "store_frame s s'"
    by (rule applyAnalysisResults_frame)
  with assms obtain d' where "svc_db s' = Some d'" "only_inserts d d'"
    by (auto simp: store_frame_def split: option.splits)
  with a show ?thesis
    by (auto simp: only_inserts_def goal_kept_def [abs_def])
qed

theorem apply_only_inserts_witness:
  "\<exists>d'. svc_db (snd (applyAnalysisResults demo_analysis demo_full_store)) = Some d'
     \<and> db_User d' = [] \<and> db_Messages d' = demo_messages
     \<and> prefix [] (db_Notes d')
     \<and> prefix demo_lists (db_Lists d')
     \<and> prefix [] (db_ListItems d')
     \<and> prefix [] (db_MindmapNodes d')
     \<and> list_all2 (\<lambda>g g'. g'\<lparr>goal_streak_count := goal_streak_count g,
                              goal_last_completed_date := goal_last_completed_date g\<rparr> = g
                          \<and> goal_streak_count g \<le> goal_streak_count g')
          demo_goals (db_Goals d')"
proof -
  have "svc_db demo_full_store = Some demo_full_db"
    by (simp add: demo_full_store_def)
  from apply_only_inserts [OF this, of demo_analysis] show ?thesis
    by (simp add: demo_full_db_def demo_db_def)
qed

section \<open>Completed goals\<close>

lemma map_update_distinct:
  assumes "distinct (map key rows)" and "g \<in> set rows"
  shows "map (\<lambda>r. if key r = key g then f r else r) rows =
         map (\<lambda>r. if r = g then f g else r) rows"
proof (rule map_cong [OF refl])
  fix r assume "r \<in> set rows"
  with assms have "key r = key g \<longleftrightarrow> r = g"
    by (auto simp: distinct_map inj_on_def)
  then show "(if key r = key g then f r else r) = (if r = g then f g else r)"
    by auto
qed

lemma demo_accent_matches: "title_matches (CHR 0xC9 # ''cole'') (CHR 0xE9 # ''cole'')"
  by code_simp

text \<open>
  C5. On an open database whose goals have distinct ids, for an entry of
  \<open>completedGoals\<close> whose title is the string \<open>name\<close>: a goal matches the entry when, in
  lower case, its title contains the title of the entry or is contained in it; a capital
  letter with an accent matches its small letter. When no goal matches, the store is
  left exactly as it was. Otherwise the first matching goal in the order of
  \<open>getAllGoals\<close> gets its streak counter raised by one and its last-completed date set
  to the reading of the clock; every other goal row, and the number of rows, stay as they
  are. For an entry without a title that is a string no goal matches either: the store
  is left as it was, and the comparison throws a \<open>TypeError\<close> when there is a goal to
  compare with.
\<close>

theorem goal_completion:
  assumes "svc_db s = Some d" and "distinct (map goal_id (db_Goals d))"
  shows "(title_matches title name \<longleftrightarrow>
            (\<exists>p q. toLowerCase title = p @ toLowerCase name @ q) \<or>
            (\<exists>p q. toLowerCase name = p @ toLowerCase title @ q))
     \<and> title_matches (CHR 0xC9 # ''cole'') (CHR 0xE9 # ''cole'')
     \<and> (map_of props ''title'' = Some (JString name)
          \<and> (\<forall>g \<in> set (db_Goals d). \<not> title_matches (goal_title g) name) \<longrightarrow>
          applyGoalCompletion (JObject props) s = (None, s))
     \<and> (map_of props ''title'' = Some (JString name)
          \<and> List.find (\<lambda>goal. title_matches (goal_title goal) name)
                (order_by_desc goal_created_at (db_Goals d)) = Some targetGoal \<longrightarrow>
          applyGoalCompletion (JObject props) s =
            (None,
             s\<lparr>svc_db := Some (d\<lparr>db_clock_reads := Suc (db_clock_reads d),
                 db_Goals := map (\<lambda>g. if g = targetGoal
                     then targetGoal\<lparr>goal_streak_count := goal_streak_count targetGoal + 1,
                            goal_last_completed_date := Some (db_clock d (db_clock_reads d))\<rparr>
                     else g) (db_Goals d)\<rparr>)\<rparr>))
     \<and> ((\<forall>x. get_property goalCompletion ''title'' \<noteq> Inr (Some (JString x))) \<longrightarrow>
          applyGoalCompletion goalCompletion s =
            (if db_Goals d = [] then None else Some TypeError, s))"
proof (intro conjI impI)
  show "title_matches title name \<longleftrightarrow>
            (\<exists>p q. toLowerCase title = p @ toLowerCase name @ q) \<or>
            (\<exists>p q. toLowerCase name = p @ toLowerCase title @ q)"
    by (rule title_matches_iff)
next
  show "title_matches (CHR 0xC9 # ''cole'') (CHR 0xE9 # ''cole'')"
    by (rule demo_accent_matches)
next
  assume h: "map_of props ''title'' = Some (JString name)
      \<and> (\<forall>g \<in> set (db_Goals d). \<not> title_matches (goal_title g) name)"
  then have "List.find (\<lambda>goal. title_matches (goal_title goal) name)
           (order_by_desc goal_created_at (db_Goals d)) = None"
    by (simp add: find_None_iff set_order_by_desc)
  moreover from h have "js_find (\<lambda>goal. matches_item (JObject props) ''title'' (goal_title goal))
      (order_by_desc goal_created_at (db_Goals d)) =
    Inr (List.find (\<lambda>goal. title_matches (goal_title goal) name)
           (order_by_desc goal_created_at (db_Goals d)))"
    by (intro js_find_pure matches_item_string) simp
  ultimately show "applyGoalCompletion (JObject props) s = (None, s)"
    using assms(1) by (simp add: applyGoalCompletion_def getAllGoals_Some)
next
  assume h: "map_of props ''title'' = Some (JString name)
      \<and> List.find (\<lambda>goal. title_matches (goal_title goal) name)
           (order_by_desc goal_created_at (db_Goals d)) = Some targetGoal"
  then have f: "List.find (\<lambda>goal. title_matches (goal_title goal) name)
           (order_by_desc goal_created_at (db_Goals d)) = Some targetGoal"
    by simp
  then have "targetGoal \<in> set (order_by_desc goal_created_at (db_Goals d))"
    by (auto simp: find_Some_iff)
  then have mem: "targetGoal \<in> set (db_Goals d)"
    by (simp add: set_order_by_desc)
  have upd: "map (\<lambda>g. if goal_id g = goal_id targetGoal
                 then g\<lparr>goal_streak_count := goal_streak_count g + 1,
                        goal_last_completed_date := Some (db_clock d (db_clock_reads d))\<rparr>
                 else g) (db_Goals d)
      = map (\<lambda>g. if g = targetGoal
                 then targetGoal\<lparr>goal_streak_count := goal_streak_count targetGoal + 1,
                        goal_last_completed_date := Some (db_clock d (db_clock_reads d))\<rparr>
                 else g) (db_Goals d)"
    using assms(2) mem by (rule map_update_distinct)
  from h have "js_find (\<lambda>goal. matches_item (JObject props) ''title'' (goal_title goal))
      (order_by_desc goal_created_at (db_Goals d)) =
    Inr (List.find (\<lambda>goal. title_matches (goal_title goal) name)
           (order_by_desc goal_created_at (db_Goals d)))"
    by (intro js_find_pure matches_item_string) simp
  with assms(1) f upd show "applyGoalCompletion (JObject props) s =
            (None,
             s\<lparr>svc_db := Some (d\<lparr>db_clock_reads := Suc (db_clock_reads d),
                 db_Goals := map (\<lambda>g. if g = targetGoal
                     then targetGoal\<lparr>goal_streak_count := goal_streak_count targetGoal + 1,
                            goal_last_completed_date := Some (db_clock d (db_clock_reads d))\<rparr>
                     else g) (db_Goals d)\<rparr>)\<rparr>)"
    by (simp add: applyGoalCompletion_def getAllGoals_Some updateGoalStreak_Some)
next
  assume h: "\<forall>x. get_property goalCompletion ''title'' \<noteq> Inr (Some (JString x))"
  show "applyGoalCompletion goalCompletion s =
            (if db_Goals d = [] then None else Some TypeError, s)"
  proof (cases "db_Goals d = []")
    case True
    with assms(1) show ?thesis
      by (simp add: applyGoalCompletion_def getAllGoals_Some order_by_desc_def)
  next
    case False
    then have "order_by_desc goal_created_at (db_Goals d) \<noteq> []"
      by simp
    then have "js_find (\<lambda>goal. matches_item goalCompletion ''title'' (goal_title goal))
        (order_by_desc goal_created_at (db_Goals d)) = Inl TypeError"
      by (rule js_find_throws) (rule matches_item_not_string [OF h])
    with assms(1) False show ?thesis
      by (simp add: applyGoalCompletion_def getAllGoals_Some)
  qed
qed

lemma demo_run_matches: "title_matches ''Morning Run'' ''run''"
  by code_simp

lemma demo_run_read: "\<not> title_matches ''Read'' ''run''"
  by code_simp

lemma demo_swim_run: "\<not> title_matches ''Morning Run'' ''swim''"
  by code_simp

lemma demo_swim_read: "\<not> title_matches ''Read'' ''swim''"
  by code_simp

lemma demo_goals_order: "order_by_desc goal_created_at demo_goals = rev demo_goals"
  by (simp add: order_by_desc_def demo_goals_def)

theorem goal_completion_witness:
  "applyGoalCompletion (JObject [(''title'', JString ''swim'')]) demo_full_store =
     (None, demo_full_store)
   \<and> applyGoalCompletion (JObject [(''title'', JString ''run'')]) demo_full_store =
       (None, \<lparr>svc_db = Some (demo_full_db\<lparr>db_Goals :=
          [\<lparr>goal_id = 1, goal_title = ''Morning Run'', goal_frequency = ''daily'',
            goal_streak_count = 4, goal_last_completed_date = Some 100,
            goal_target_count = None, goal_created_at = 20\<rparr>,
           \<lparr>goal_id = 2, goal_title = ''Read'', goal_frequency = ''weekly'',
            goal_streak_count = 0, goal_last_completed_date = None,
            goal_target_count = Some 5, goal_created_at = 30\<rparr>],
          db_clock_reads := 1\<rparr>)\<rparr>)
   \<and> applyGoalCompletion (JObject []) demo_full_store = (Some TypeError, demo_full_store)
   \<and> applyGoalCompletion JNull demo_full_store = (Some TypeError, demo_full_store)"
proof -
  have d: "svc_db demo_full_store = Some demo_full_db"
    by (simp add: demo_full_store_def)
  have g: "db_Goals demo_full_db = demo_goals"
    by (simp add: demo_full_db_def)
  have dist: "distinct (map goal_id (db_Goals demo_full_db))"
    by (simp add: g) (simp add: demo_goals_def)
  have f: "map_of [(''title'', JString ''run'')] ''title'' = Some (JString ''run'')
      \<and> List.find (\<lambda>goal. title_matches (goal_title goal) ''run'')
           (order_by_desc goal_created_at (db_Goals demo_full_db)) = Some (hd demo_goals)"
    by (simp add: g demo_goals_order) (simp add: demo_goals_def demo_run_matches demo_run_read)
  have n: "map_of [(''title'', JString ''swim'')] ''title'' = Some (JString ''swim'')
      \<and> (\<forall>g \<in> set (db_Goals demo_full_db). \<not> title_matches (goal_title g) ''swim'')"
    by (simp add: g) (simp add: demo_goals_def demo_swim_run demo_swim_read)
  have ne: "db_Goals demo_full_db \<noteq> []"
    by (simp add: g demo_goals_def)
  have 1: "applyGoalCompletion (JObject [(''title'', JString ''swim'')]) demo_full_store =
      (None, demo_full_store)"
    by (rule goal_completion [OF d dist, where props = "[(''title'', JString ''swim'')]"
          and name = "''swim''", THEN conjunct2, THEN conjunct2, THEN conjunct1, THEN mp, OF n])
  have 2: "applyGoalCompletion (JObject [(''title'', JString ''run'')]) demo_full_store = (None,
      demo_full_store\<lparr>svc_db := Some (demo_full_db\<lparr>
        db_clock_reads := Suc (db_clock_reads demo_full_db),
        db_Goals := map (\<lambda>g. if g = hd demo_goals
           then (hd demo_goals)\<lparr>goal_streak_count := goal_streak_count (hd demo_goals) + 1,
                  goal_last_completed_date :=
                    Some (db_clock demo_full_db (db_clock_reads demo_full_db))\<rparr>
           else g) (db_Goals demo_full_db)\<rparr>)\<rparr>)"
    by (rule goal_completion [OF d dist, where props = "[(''title'', JString ''run'')]"
          and name = "''run''" and targetGoal = "hd demo_goals", THEN conjunct2,
          THEN conjunct2, THEN conjunct2, THEN conjunct1, THEN mp, OF f])
  have 3: "applyGoalCompletion (JObject []) demo_full_store =
      (if db_Goals demo_full_db = [] then None else Some TypeError, demo_full_store)"
    by (rule goal_completion [OF d dist, where goalCompletion = "JObject []", THEN conjunct2,
          THEN conjunct2, THEN conjunct2, THEN conjunct2, THEN mp]) simp
  have 4: "applyGoalCompletion JNull demo_full_store =
      (if db_Goals demo_full_db = [] then None else Some TypeError, demo_full_store)"
    by (rule goal_completion [OF d dist, where goalCompletion = JNull, THEN conjunct2,
          THEN conjunct2, THEN conjunct2, THEN conjunct2, THEN mp]) simp
  show ?thesis
    unfolding 1 2 3 4 using ne
    by (simp add: demo_goals_def demo_full_db_def demo_db_def demo_full_store_def)
qed

section \<open>List items\<close>

lemma template_literal_string [simp]: "template_literal [JString x] = None"
  by (simp add: template_literal_def)

lemma addItem_Some:
  "svc_db s = Some d \<Longrightarrow>
   addItem listId (JString item) s =
     (None, s\<lparr>svc_db := Some (d\<lparr>db_clock_reads := Suc (db_clock_reads d),
                 db_ListItems := db_ListItems d @ [new_entry d listId item]\<rparr>)\<rparr>)"
  by (simp add: addItem_def addListItem_Some)

lemma is_duplicate_iff:
  "list_ex (\<lambda>existing. toLowerCase (item_content existing) = toLowerCase item)
     (order_by_asc item_created_at (filter (\<lambda>r. item_list_id r = listId) (db_ListItems d)))
   \<longleftrightarrow> toLowerCase item \<in> set (map toLowerCase (entries_of d listId))"
  by (force simp: list_ex_iff set_order_by_asc entries_of_def)

lemma some_duplicate:
  "js_some (\<lambda>existing. equals_lowered (Some (JString item)) (item_content existing))
     (order_by_asc item_created_at (filter (\<lambda>r. item_list_id r = listId) (db_ListItems d))) =
   Inr (toLowerCase item \<in> set (map toLowerCase (entries_of d listId)))"
  unfolding is_duplicate_iff [symmetric]
  by (rule js_some_pure) (rule equals_lowered_string)

lemma addItemUnlessDuplicate_Some:
  "svc_db s = Some d \<Longrightarrow>
   addItemUnlessDuplicate listId (JString item) s =
     (None,
      if toLowerCase item \<in> set (map toLowerCase (entries_of d listId)) then s
      else s\<lparr>svc_db := Some (d\<lparr>db_clock_reads := Suc (db_clock_reads d),
                  db_ListItems := db_ListItems d @ [new_entry d listId item]\<rparr>)\<rparr>)"
  unfolding addItemUnlessDuplicate_def
  by (simp add: getListItems_Some some_duplicate addListItem_Some del: set_map)

lemma for_items_strings:
  "map_of props ''items'' = Some (JArray xs) \<Longrightarrow>
   for_items (JObject props) body s = for_of body xs s"
  by (simp add: for_items_def)

lemma items_added_Nil: "items_added d d listId []"
  by (simp add: items_added_def)

lemma items_added_Cons:
  assumes "items_added
             (d\<lparr>db_clock_reads := n, db_ListItems := db_ListItems d @ [new_entry d listId x]\<rparr>)
             d' listId xs"
  shows "items_added d d' listId (x # xs)"
proof -
  from assms obtain new where
    n: "db_ListItems d' = (db_ListItems d @ [new_entry d listId x]) @ new"
      "map item_content new = xs" "map item_list_id new = replicate (length xs) listId"
      "map item_is_completed new = replicate (length xs) False"
    and rest: "db_Lists d' = db_Lists d" "db_Notes d' = db_Notes d" "db_Goals d' = db_Goals d"
      "db_MindmapNodes d' = db_MindmapNodes d" "db_Messages d' = db_Messages d"
      "db_User d' = db_User d"
    by (auto simp: items_added_def)
  show ?thesis
    unfolding items_added_def
    by (rule exI [of _ "new_entry d listId x # new"]) (simp add: n rest new_entry_def)
qed

lemma entries_of_append:
  "entries_of (d\<lparr>db_clock_reads := n,
                 db_ListItems := db_ListItems d @ [new_entry d listId x]\<rparr>) listId
     = entries_of d listId @ [x]"
  by (simp add: entries_of_def new_entry_def)

lemma dedup_loop:
  "svc_db s = Some d \<Longrightarrow>
   \<exists>s' d'. for_of (addItemUnlessDuplicate listId) (map JString items) s = (None, s')
     \<and> svc_db s' = Some d'
     \<and> items_added d d' listId (fresh_items (entries_of d listId) items)"
proof (induction items arbitrary: s d)
  case Nil
  then show ?case by (simp add: items_added_Nil)
next
  case (Cons item items)
  show ?case
  proof (cases "toLowerCase item \<in> set (map toLowerCase (entries_of d listId))")
    case True
    with Cons.IH [OF Cons.prems] Cons.prems show ?thesis
      by (simp add: addItemUnlessDuplicate_Some del: set_map)
  next
    case False
    let ?d1 = "d\<lparr>db_clock_reads := Suc (db_clock_reads d),
                 db_ListItems := db_ListItems d @ [new_entry d listId item]\<rparr>"
    let ?s1 = "s\<lparr>svc_db := Some ?d1\<rparr>"
    have "svc_db ?s1 = Some ?d1" by simp
    from Cons.IH [OF this] obtain s' d' where
      l: "for_of (addItemUnlessDuplicate listId) (map JString items) ?s1 = (None, s')"
        "svc_db s' = Some d'"
      and a: "items_added ?d1 d' listId (fresh_items (entries_of ?d1 listId) items)"
      by blast
    from a have "items_added d d' listId (item # fresh_items (entries_of d listId @ [item]) items)"
      by (intro items_added_Cons) (simp add: entries_of_append)
    with l False Cons.prems show ?thesis
      by (simp add: addItemUnlessDuplicate_Some del: set_map)
  qed
qed

lemma plain_loop:
  "svc_db s = Some d \<Longrightarrow>
   \<exists>s' d'. for_of (addItem listId) (map JString items) s = (None, s') \<and> svc_db s' = Some d'
     \<and> items_added d d' listId items"
proof (induction items arbitrary: s d)
  case Nil
  then show ?case by (simp add: items_added_Nil)
next
  case (Cons item items)
  let ?d1 = "d\<lparr>db_clock_reads := Suc (db_clock_reads d),
               db_ListItems := db_ListItems d @ [new_entry d listId item]\<rparr>"
  let ?s1 = "s\<lparr>svc_db := Some ?d1\<rparr>"
  have "svc_db ?s1 = Some ?d1" by simp
  from Cons.IH [OF this] obtain s' d' where
    l: "for_of (addItem listId) (map JString items) ?s1 = (None, s')" "svc_db s' = Some d'"
    and a: "items_added ?d1 d' listId items"
    by blast
  from a have "items_added d d' listId (item # items)"
    by (rule items_added_Cons)
  with l Cons.prems show ?case
    by (simp add: addItem_Some)
qed

lemma replace_ws_runs_no_space: "c \<in> set (replace_ws_runs s) \<Longrightarrow> \<not> isSpace c"
proof (induction s rule: replace_ws_runs.induct)
  case 1
  then show ?case by simp
next
  case (2 x xs)
  have "\<not> isSpace (CHR ''_'')"
    by (simp add: isSpace_def)
  with 2 show ?case
    by (auto split: if_splits)
qed

lemma replace_ws_runs_word:
  "\<forall>c \<in> set a. \<not> isSpace c \<Longrightarrow> replace_ws_runs (a @ b) = a @ replace_ws_runs b"
  by (induction a) simp_all

lemma replace_ws_runs_run:
  assumes "ws \<noteq> []" and "\<forall>c \<in> set ws. isSpace c" and "b = [] \<or> \<not> isSpace (hd b)"
  shows "replace_ws_runs (ws @ b) = CHR ''_'' # replace_ws_runs b"
proof -
  from assms(1) obtain w ws' where ws: "ws = w # ws'"
    by (cases ws) auto
  with assms(2) have w: "isSpace w" and ws': "\<forall>c \<in> set ws'. isSpace c"
    by auto
  from ws' assms(3) have "dropWhile isSpace (ws' @ b) = b"
    by (cases b) (auto simp: dropWhile_append)
  with w ws show ?thesis
    by simp
qed

lemma demo_accent_fresh:
  "fresh_items [] [''CAF'' @ [CHR 0xC9], ''caf'' @ [CHR 0xE9]] = [''CAF'' @ [CHR 0xC9]]"
  by code_simp

lemma demo_nbsp_type:
  "replace_ws_runs (toLowerCase (''Movie'' @ [CHR 0xA0, CHR 0x20] @ ''Night'')) = ''movie_night''"
  by code_simp

lemma find_list_string:
  "map_of props ''listName'' = Some (JString name) \<Longrightarrow>
   js_find (\<lambda>list. matches_item (JObject props) ''listName'' (list_title list)) rows =
     Inr (List.find (\<lambda>list. title_matches (list_title list) name) rows)"
  by (intro js_find_pure matches_item_string)

text \<open>
  C3. On an open database, for a group \<open>{listName, items}\<close> with a string \<open>listName\<close> and
  an array of strings \<open>items\<close>: a list matches when, in lower case, its title contains
  \<open>listName\<close> or is contained in it, and the first match in the order of \<open>getAllLists\<close> is
  the target. With a target, the loop completes and appends to the target exactly the
  items that no entry of the target equals up to case, counting the entries inserted
  earlier in the same loop (\<open>fresh_items\<close>, so \<open>Milk\<close>, \<open>milk\<close> into a container without
  entries inserts \<open>Milk\<close> alone, and so for a capital letter with an accent); nothing
  else changes. Without a match, a list is created with the title \<open>listName\<close> and as type
  \<open>listName\<close> in lower case with each run of white space, the no-break space included,
  replaced by one underscore, and every item of the group is appended to it, duplicates
  included. A group without a \<open>listName\<close> that is a string is not applied: the
  comparison or the call of \<open>createList\<close> throws a \<open>TypeError\<close> and the store is left as
  it was.
\<close>

theorem list_group_applied:
  assumes "svc_db s = Some d"
  shows "(title_matches title name \<longleftrightarrow>
            (\<exists>p q. toLowerCase title = p @ toLowerCase name @ q) \<or>
            (\<exists>p q. toLowerCase name = p @ toLowerCase title @ q))
     \<and> (map_of props ''listName'' = Some (JString name)
         \<and> map_of props ''items'' = Some (JArray (map JString items))
         \<and> List.find (\<lambda>list. title_matches (list_title list) name)
             (order_by_desc list_created_at (db_Lists d)) = Some targetList \<longrightarrow>
         (\<exists>s' d'. applyListGroup (JObject props) s = (None, s') \<and> svc_db s' = Some d'
            \<and> items_added d d' (list_id targetList)
                 (fresh_items (entries_of d (list_id targetList)) items)))
     \<and> (map_of props ''listName'' = Some (JString name)
         \<and> map_of props ''items'' = Some (JArray (map JString items))
         \<and> (\<forall>list \<in> set (db_Lists d). \<not> title_matches (list_title list) name) \<longrightarrow>
         (\<exists>s' d'. applyListGroup (JObject props) s = (None, s') \<and> svc_db s' = Some d'
            \<and> items_added
                 (d\<lparr>db_clock_reads := Suc (db_clock_reads d),
                    db_Lists := db_Lists d @
                      [\<lparr>list_id = lastInsertRowId (map list_id (db_Lists d)),
                        list_title = name,
                        list_type = replace_ws_runs (toLowerCase name),
                        list_created_at = db_clock d (db_clock_reads d)\<rparr>]\<rparr>)
                 d' (lastInsertRowId (map list_id (db_Lists d))) items))
     \<and> fresh_items [] [''Milk'', ''milk''] = [''Milk'']
     \<and> (\<forall>c \<in> set (replace_ws_runs rest). \<not> isSpace c)
     \<and> ((\<forall>c \<in> set word. \<not> isSpace c) \<longrightarrow>
          replace_ws_runs (word @ rest) = word @ replace_ws_runs rest)
     \<and> (spaces \<noteq> [] \<and> (\<forall>c \<in> set spaces. isSpace c) \<and> (rest = [] \<or> \<not> isSpace (hd rest)) \<longrightarrow>
          replace_ws_runs (spaces @ rest) = CHR ''_'' # replace_ws_runs rest)
     \<and> fresh_items [] [''CAF'' @ [CHR 0xC9], ''caf'' @ [CHR 0xE9]] = [''CAF'' @ [CHR 0xC9]]
     \<and> replace_ws_runs (toLowerCase (''Movie'' @ [CHR 0xA0, CHR 0x20] @ ''Night'')) =
         ''movie_night''
     \<and> (isSpace ch \<longleftrightarrow>
          ch \<in> {CHR 0x09, CHR 0x0A, CHR 0x0B, CHR 0x0C, CHR 0x0D, CHR 0x20, CHR 0xA0})
     \<and> ((\<forall>x. get_property listGroup ''listName'' \<noteq> Inr (Some (JString x))) \<longrightarrow>
          applyListGroup listGroup s = (Some TypeError, s))"
proof (intro conjI impI)
  show "title_matches title name \<longleftrightarrow>
            (\<exists>p q. toLowerCase title = p @ toLowerCase name @ q) \<or>
            (\<exists>p q. toLowerCase name = p @ toLowerCase title @ q)"
    by (rule title_matches_iff)
next
  assume h: "map_of props ''listName'' = Some (JString name)
         \<and> map_of props ''items'' = Some (JArray (map JString items))
         \<and> List.find (\<lambda>list. title_matches (list_title list) name)
             (order_by_desc list_created_at (db_Lists d)) = Some targetList"
  with assms dedup_loop [OF assms, of "list_id targetList" items]
  show "\<exists>s' d'. applyListGroup (JObject props) s = (None, s') \<and> svc_db s' = Some d'
            \<and> items_added d d' (list_id targetList)
                 (fresh_items (entries_of d (list_id targetList)) items)"
    by (simp add: applyListGroup_def getAllLists_Some find_list_string for_items_strings)
next
  let ?newId = "lastInsertRowId (map list_id (db_Lists d))"
  let ?d1 = "d\<lparr>db_clock_reads := Suc (db_clock_reads d),
                    db_Lists := db_Lists d @
                      [\<lparr>list_id = ?newId,
                        list_title = name,
                        list_type = replace_ws_runs (toLowerCase name),
                        list_created_at = db_clock d (db_clock_reads d)\<rparr>]\<rparr>"
  assume h: "map_of props ''listName'' = Some (JString name)
         \<and> map_of props ''items'' = Some (JArray (map JString items))
         \<and> (\<forall>list \<in> set (db_Lists d). \<not> title_matches (list_title list) name)"
  then have none: "List.find (\<lambda>list. title_matches (list_title list) name)
           (order_by_desc list_created_at (db_Lists d)) = None"
    by (simp add: find_None_iff set_order_by_desc)
  have "svc_db (s\<lparr>svc_db := Some ?d1\<rparr>) = Some ?d1"
    by simp
  from plain_loop [OF this, of ?newId items] none assms h
  show "\<exists>s' d'. applyListGroup (JObject props) s = (None, s') \<and> svc_db s' = Some d'
            \<and> items_added ?d1 d' ?newId items"
    by (simp add: applyListGroup_def getAllLists_Some createList_Some find_list_string
        for_items_strings)
next
  show "fresh_items [] [''Milk'', ''milk''] = [''Milk'']"
    by code_simp
next
  show "\<forall>c \<in> set (replace_ws_runs rest). \<not> isSpace c"
    by (auto dest: replace_ws_runs_no_space)
next
  assume "\<forall>c \<in> set word. \<not> isSpace c"
  then show "replace_ws_runs (word @ rest) = word @ replace_ws_runs rest"
    by (rule replace_ws_runs_word)
next
  assume "spaces \<noteq> [] \<and> (\<forall>c \<in> set spaces. isSpace c) \<and> (rest = [] \<or> \<not> isSpace (hd rest))"
  then show "replace_ws_runs (spaces @ rest) = CHR ''_'' # replace_ws_runs rest"
    by (intro replace_ws_runs_run) auto
next
  show "fresh_items [] [''CAF'' @ [CHR 0xC9], ''caf'' @ [CHR 0xE9]] = [''CAF'' @ [CHR 0xC9]]"
    by (rule demo_accent_fresh)
next
  show "replace_ws_runs (toLowerCase (''Movie'' @ [CHR 0xA0, CHR 0x20] @ ''Night'')) =
         ''movie_night''"
    by (rule demo_nbsp_type)
next
  show "isSpace ch \<longleftrightarrow>
          ch \<in> {CHR 0x09, CHR 0x0A, CHR 0x0B, CHR 0x0C, CHR 0x0D, CHR 0x20, CHR 0xA0}"
    by (simp add: isSpace_def)
next
  assume h: "\<forall>x. get_property listGroup ''listName'' \<noteq> Inr (Some (JString x))"
  show "applyListGroup listGroup s = (Some TypeError, s)"
  proof (cases "db_Lists d = []")
    case True
    with assms h show ?thesis
      by (auto simp: applyListGroup_def getAllLists_Some order_by_desc_def
          split: sum.splits option.splits json.splits dest: get_property_Inl)
  next
    case False
    then have "order_by_desc list_created_at (db_Lists d) \<noteq> []"
      by simp
    then have "js_find (\<lambda>list. matches_item listGroup ''listName'' (list_title list))
        (order_by_desc list_created_at (db_Lists d)) = Inl TypeError"
      by (rule js_find_throws) (rule matches_item_not_string [OF h])
    with assms show ?thesis
      by (simp add: applyListGroup_def getAllLists_Some)
  qed
qed

lemma demo_groceries_matches: "title_matches ''Groceries'' ''groceries''"
  by code_simp

lemma demo_groceries_no_grocery: "\<not> title_matches ''Groceries'' ''grocery''"
  by code_simp

lemma demo_movie_groceries: "\<not> title_matches ''Groceries'' ''Movie  Night''"
  by code_simp

lemma demo_movie_todo: "\<not> title_matches ''To-Do'' ''Movie  Night''"
  by code_simp

lemma demo_movie_type: "replace_ws_runs (toLowerCase ''Movie  Night'') = ''movie_night''"
  by code_simp

lemma demo_lists_order: "order_by_desc list_created_at demo_lists = demo_lists"
  by (simp add: order_by_desc_def demo_lists_def)

theorem list_group_applied_witness:
  "(\<exists>s' d'. applyListGroup (JObject [(''listName'', JString ''groceries''),
                 (''items'', JArray [JString ''Milk'', JString ''milk''])])
               demo_full_store = (None, s')
      \<and> svc_db s' = Some d' \<and> db_Lists d' = demo_lists
      \<and> map item_content (db_ListItems d') = [''Milk'']
      \<and> map item_list_id (db_ListItems d') = [1])
   \<and> (\<exists>s' d'. applyListGroup (JObject [(''listName'', JString ''Movie  Night''),
                 (''items'', JArray [JString ''Up'', JString ''up''])])
               demo_full_store = (None, s')
      \<and> svc_db s' = Some d'
      \<and> db_Lists d' = demo_lists @
           [\<lparr>list_id = 3, list_title = ''Movie  Night'', list_type = ''movie_night'',
             list_created_at = 100\<rparr>]
      \<and> map item_content (db_ListItems d') = [''Up'', ''up'']
      \<and> map item_list_id (db_ListItems d') = [3, 3])
   \<and> replace_ws_runs (''a'' @ ''  b'') = ''a'' @ replace_ws_runs ''  b''
   \<and> replace_ws_runs (''  '' @ ''b'') = CHR ''_'' # replace_ws_runs ''b''
   \<and> applyListGroup (JObject [(''items'', JArray [JString ''Up''])]) demo_full_store =
       (Some TypeError, demo_full_store)"
proof -
  have d: "svc_db demo_full_store = Some demo_full_db"
    by (simp add: demo_full_store_def)
  have l: "db_Lists demo_full_db = demo_lists" and i: "db_ListItems demo_full_db = []"
    by (simp_all add: demo_full_db_def demo_db_def)
  have e: "entries_of demo_full_db n = []" for n
    by (simp add: entries_of_def i)
  let ?g1 = "[(''listName'', JString ''groceries''),
              (''items'', JArray [JString ''Milk'', JString ''milk''])]"
  let ?g2 = "[(''listName'', JString ''Movie  Night''),
              (''items'', JArray [JString ''Up'', JString ''up''])]"
  have f: "map_of ?g1 ''listName'' = Some (JString ''groceries'')
      \<and> map_of ?g1 ''items'' = Some (JArray (map JString [''Milk'', ''milk'']))
      \<and> List.find (\<lambda>list. title_matches (list_title list) ''groceries'')
           (order_by_desc list_created_at (db_Lists demo_full_db)) = Some (hd demo_lists)"
    by (simp add: l demo_lists_order) (simp add: demo_lists_def demo_groceries_matches)
  have n: "map_of ?g2 ''listName'' = Some (JString ''Movie  Night'')
      \<and> map_of ?g2 ''items'' = Some (JArray (map JString [''Up'', ''up'']))
      \<and> (\<forall>list \<in> set (db_Lists demo_full_db).
            \<not> title_matches (list_title list) ''Movie  Night'')"
    by (simp add: l) (simp add: demo_lists_def demo_movie_groceries demo_movie_todo)
  have newid: "lastInsertRowId (map list_id (db_Lists demo_full_db)) = 3"
    by (simp add: l) (simp add: demo_lists_def lastInsertRowId_def)
  have sp: "\<forall>c \<in> set ''a''. \<not> isSpace c" "''  '' \<noteq> [] \<and> (\<forall>c \<in> set ''  ''. isSpace c) \<and> (''b'' = [] \<or> \<not> isSpace (hd ''b''))"
    by (simp_all add: isSpace_def)
  note t1 = list_group_applied [OF d,
      where props = ?g1 and name = "''groceries''" and items = "[''Milk'', ''milk'']"
        and targetList = "hd demo_lists" and word = "''a''" and rest = "''  b''"]
  note t2 = list_group_applied [OF d,
      where props = ?g2 and name = "''Movie  Night''" and items = "[''Up'', ''up'']"
        and spaces = "''  ''" and rest = "''b''"
        and listGroup = "JObject [(''items'', JArray [JString ''Up''])]"]
  from t1 [THEN conjunct2, THEN conjunct1, THEN mp, OF f]
  have 1: "\<exists>s' d'. applyListGroup (JObject ?g1) demo_full_store = (None, s')
            \<and> svc_db s' = Some d'
            \<and> items_added demo_full_db d' (list_id (hd demo_lists))
                 (fresh_items [] [''Milk'', ''milk''])"
    by (simp only: e)
  have m: "fresh_items [] [''Milk'', ''milk''] = [''Milk'']"
    by (rule t1 [THEN conjunct2, THEN conjunct2, THEN conjunct2, THEN conjunct1])
  from t2 [THEN conjunct2, THEN conjunct2, THEN conjunct1, THEN mp, OF n]
  have 2: "\<exists>s' d'. applyListGroup (JObject ?g2) demo_full_store = (None, s')
            \<and> svc_db s' = Some d'
            \<and> items_added
                 (demo_full_db\<lparr>db_clock_reads := Suc (db_clock_reads demo_full_db),
                    db_Lists := db_Lists demo_full_db @
                      [\<lparr>list_id = 3, list_title = ''Movie  Night'',
                        list_type = replace_ws_runs (toLowerCase ''Movie  Night''),
                        list_created_at = db_clock demo_full_db (db_clock_reads demo_full_db)\<rparr>]\<rparr>)
                 d' 3 [''Up'', ''up'']"
    by (simp only: newid)
  have 3: "replace_ws_runs (''a'' @ ''  b'') = ''a'' @ replace_ws_runs ''  b''"
    by (rule t1 [THEN conjunct2, THEN conjunct2, THEN conjunct2, THEN conjunct2,
          THEN conjunct2, THEN conjunct1, THEN mp, OF sp(1)])
  have 4: "replace_ws_runs (''  '' @ ''b'') = CHR ''_'' # replace_ws_runs ''b''"
    by (rule t2 [THEN conjunct2, THEN conjunct2, THEN conjunct2, THEN conjunct2,
          THEN conjunct2, THEN conjunct2, THEN conjunct1, THEN mp, OF sp(2)])
  have 5: "applyListGroup (JObject [(''items'', JArray [JString ''Up''])]) demo_full_store =
       (Some TypeError, demo_full_store)"
    by (rule t2 [THEN conjunct2, THEN conjunct2, THEN conjunct2, THEN conjunct2,
          THEN conjunct2, THEN conjunct2, THEN conjunct2, THEN conjunct2, THEN conjunct2,
          THEN conjunct2, THEN mp]) simp
  from 1 have r1: "\<exists>s' d'. applyListGroup (JObject ?g1) demo_full_store = (None, s')
      \<and> svc_db s' = Some d' \<and> db_Lists d' = demo_lists
      \<and> map item_content (db_ListItems d') = [''Milk'']
      \<and> map item_list_id (db_ListItems d') = [1]"
    unfolding m items_added_def
    by (auto simp: l i demo_lists_def)
  from 2 have r2: "\<exists>s' d'. applyListGroup (JObject ?g2) demo_full_store = (None, s')
      \<and> svc_db s' = Some d'
      \<and> db_Lists d' = demo_lists @
           [\<lparr>list_id = 3, list_title = ''Movie  Night'', list_type = ''movie_night'',
             list_created_at = 100\<rparr>]
      \<and> map item_content (db_ListItems d') = [''Up'', ''up'']
      \<and> map item_list_id (db_ListItems d') = [3, 3]"
    unfolding items_added_def demo_movie_type
    by (auto simp: l i demo_full_db_def demo_db_def numeral_2_eq_2)
  from r1 r2 3 4 5 show ?thesis
    by blast
qed

section \<open>Mindmap facts\<close>

lemma template_literal_strings [simp]: "template_literal [JString x, JString y] = None"
  by (simp add: template_literal_def)

lemma is_duplicate_fact_iff:
  "list_ex (\<lambda>existing. toLowerCase (node_label existing) = toLowerCase label)
     (order_by_asc node_created_at (db_MindmapNodes d))
   \<longleftrightarrow> facts_labelled d label \<noteq> []"
  by (auto simp: list_ex_iff set_order_by_asc facts_labelled_def filter_empty_conv)

lemma some_fact_string:
  "js_some (\<lambda>existing. equals_lowered (Some (JString label)) (node_label existing))
     (order_by_asc node_created_at (db_MindmapNodes d)) =
   Inr (facts_labelled d label \<noteq> [])"
  unfolding is_duplicate_fact_iff [symmetric]
  by (rule js_some_pure) (rule equals_lowered_string)

lemma some_fact_cases:
  assumes "js_some (\<lambda>existing. equals_lowered v (node_label existing))
     (order_by_asc node_created_at (db_MindmapNodes d)) = Inr found"
  shows "(db_MindmapNodes d = [] \<and> \<not> found) \<or>
     (\<exists>x. v = Some (JString x) \<and> found = (facts_labelled d x \<noteq> []))"
proof (cases "db_MindmapNodes d = []")
  case True
  with assms show ?thesis
    by (simp add: order_by_asc_def)
next
  case False
  then have ne: "order_by_asc node_created_at (db_MindmapNodes d) \<noteq> []"
    by simp
  show ?thesis
  proof (cases "\<exists>x. v = Some (JString x)")
    case True
    with assms show ?thesis
      by (auto simp: some_fact_string)
  next
    case False
    then have "js_some (\<lambda>existing. equals_lowered v (node_label existing))
        (order_by_asc node_created_at (db_MindmapNodes d)) = Inl TypeError"
      by (intro js_some_throws [OF ne] equals_lowered_not_string) simp
    with assms show ?thesis
      by simp
  qed
qed

text \<open>The confidence that is stored for a confidence field that is a number or falsy.\<close>

lemma confidence_default:
  assumes "\<not> truthy cf \<or> (\<exists>x. cf = Some (JNumber x))"
  shows "(if truthy cf then cf else Some (JNumber 0.8)) =
     Some (JNumber (case cf of Some (JNumber x) \<Rightarrow> if x = 0 then 0.8 else x | _ \<Rightarrow> 0.8))"
  using assms by (cases "(cf)" rule: truthy.cases) auto

lemma applyMindmapNode_Some:
  assumes "svc_db s = Some d" and "map_of props ''label'' = Some (JString label)"
    and "label \<noteq> []" and "map_of props ''category'' = Some (JString category)"
    and "category \<noteq> []"
    and "\<not> truthy (map_of props ''confidence'')
         \<or> (\<exists>x. map_of props ''confidence'' = Some (JNumber x))"
  shows "applyMindmapNode (JObject props) s =
     (if facts_labelled d label \<noteq> [] then (None, s)
      else if category \<in> set [''values'', ''goals'', ''personality'', ''facts''] then
        (None, s\<lparr>svc_db := Some (d\<lparr>db_clock_reads := Suc (db_clock_reads d),
                   db_MindmapNodes := db_MindmapNodes d @
                     [new_fact d label category
                        (JNumber (case map_of props ''confidence'' of
                           Some (JNumber x) \<Rightarrow> if x = 0 then 0.8 else x | _ \<Rightarrow> 0.8))]\<rparr>)\<rparr>)
      else (Some ConstraintFailed, s))"
proof -
  have add: "addMindmapNode s (JString label) (JString category)
      (Some (JNumber (case map_of props ''confidence'' of
                           Some (JNumber x) \<Rightarrow> if x = 0 then 0.8 else x | _ \<Rightarrow> 0.8))) None =
     (if category \<notin> set [''values'', ''goals'', ''personality'', ''facts'']
      then Inl ConstraintFailed
      else Inr (lastInsertRowId (map node_id (db_MindmapNodes d)),
          s\<lparr>svc_db := Some (d\<lparr>db_clock_reads := Suc (db_clock_reads d),
                 db_MindmapNodes := db_MindmapNodes d @
                   [new_fact d label category
                      (JNumber (case map_of props ''confidence'' of
                           Some (JNumber x) \<Rightarrow> if x = 0 then 0.8 else x | _ \<Rightarrow> 0.8))]\<rparr>)\<rparr>))"
    by (rule addMindmapNode_bound [OF assms(1)]) simp_all
  show ?thesis
    unfolding applyMindmapNode_def
    by (simp add: assms(1-5) getAllMindmapNodes_Some some_fact_string
        confidence_default [OF assms(6)] add del: set_simps)
qed

lemma applyMindmapNode_closed: "svc_db s = None \<Longrightarrow> snd (applyMindmapNode node s) = s"
  by (auto simp: applyMindmapNode_def getAllMindmapNodes_def split: sum.splits)

lemma facts_labelled_snoc:
  "facts_labelled (d\<lparr>db_clock_reads := n,
                     db_MindmapNodes := db_MindmapNodes d @ [new_fact d l c cf]\<rparr>) label =
   facts_labelled d label @ (if toLowerCase l = toLowerCase label then [new_fact d l c cf] else [])"
  by (simp add: facts_labelled_def new_fact_def)

lemma facts_labelled_cong:
  "toLowerCase l = toLowerCase label \<Longrightarrow> facts_labelled d l = facts_labelled d label"
  by (simp add: facts_labelled_def)

lemma facts_labelled_empty: "db_MindmapNodes d = [] \<Longrightarrow> facts_labelled d label = []"
  by (simp add: facts_labelled_def)

lemma at_most_one_more_refl: "at_most_one_more label s s"
  by (simp add: at_most_one_more_def split: option.splits)

lemma at_most_one_more_trans:
  "at_most_one_more label a b \<Longrightarrow> at_most_one_more label b c \<Longrightarrow> at_most_one_more label a c"
  unfolding at_most_one_more_def
  by (auto split: option.splits)

lemma facts_untouched_refl: "facts_untouched s s"
  by (simp add: facts_untouched_def)

lemma facts_untouched_trans:
  "facts_untouched a b \<Longrightarrow> facts_untouched b c \<Longrightarrow> facts_untouched a c"
  by (simp add: facts_untouched_def)

lemma facts_untouched_imp: "facts_untouched s s' \<Longrightarrow> at_most_one_more label s s'"
  unfolding facts_untouched_def at_most_one_more_def facts_labelled_def
  by (auto split: option.splits)

lemma addNote_facts: "addNote s t b ''vi'' None = Inr (rowid, s') \<Longrightarrow> facts_untouched s s'"
  by (erule addNote_Inr) (simp add: facts_untouched_def)

lemma addListItem_facts: "addListItem s l c = Inr (rowid, s') \<Longrightarrow> facts_untouched s s'"
  by (erule addListItem_Inr) (simp add: facts_untouched_def)

lemma applyNote_facts: "applyNote n s = (out, s') \<Longrightarrow> facts_untouched s s'"
  by (auto simp: applyNote_def facts_untouched_refl split: if_splits sum.splits
      dest: addNote_facts)

lemma applyGoalCompletion_facts: "applyGoalCompletion g s = (out, s') \<Longrightarrow> facts_untouched s s'"
  by (auto simp: applyGoalCompletion_def updateGoalStreak_def facts_untouched_def read_clock_def
      Let_def split: if_splits sum.splits option.splits)

lemma applyListGroup_facts:
  "applyListGroup g s = (out, s') \<Longrightarrow> facts_untouched s s'"
proof (rule applyListGroup_preserves [of facts_untouched])
  show "createList s t ty = Inr (rowid, s') \<Longrightarrow> facts_untouched s s'" for s t ty rowid s'
    by (auto simp: createList_def facts_untouched_def read_clock_def Let_def split: option.splits)
  show "addListItem s l c = Inr (rowid, s') \<Longrightarrow> facts_untouched s s'" for s l c rowid s'
    by (rule addListItem_facts)
qed (auto intro: facts_untouched_refl facts_untouched_trans)

text \<open>
  What a completed or failed step of the loop over the mindmap items can be: the store
  is left as it is, or the item was not found among the facts and one fact was appended,
  with the label of the item when that is a string.
\<close>

lemma applyMindmapNode_cases:
  assumes "applyMindmapNode node s = (out, s')"
  shows "s' = s \<or>
     (\<exists>d label category confidence v.
        svc_db s = Some d \<and> get_property node ''label'' = Inr (Some v)
        \<and> bind_text d v = Inr label
        \<and> ((db_MindmapNodes d = []) \<or> (v = JString label \<and> facts_labelled d label = []))
        \<and> s' = s\<lparr>svc_db := Some (d\<lparr>db_clock_reads := Suc (db_clock_reads d),
                 db_MindmapNodes := db_MindmapNodes d @
                   [new_fact d label category confidence]\<rparr>)\<rparr>)"
proof (cases "s' = s")
  case True
  then show ?thesis by simp
next
  case False
  with assms obtain lv where lv: "get_property node ''label'' = Inr lv" "truthy lv"
    by (cases "get_property node ''label''") (auto simp: applyMindmapNode_def split: if_splits)
  then obtain v where v: "lv = Some v"
    by (cases lv) auto
  from False assms lv obtain cv where cv: "get_property node ''category'' = Inr cv" "truthy cv"
    by (cases "get_property node ''category''")
      (auto simp: applyMindmapNode_def split: if_splits)
  from False assms lv cv obtain d where d: "svc_db s = Some d"
    by (cases "svc_db s") (auto simp: applyMindmapNode_def getAllMindmapNodes_def)
  from False assms lv cv d obtain found where
    f: "js_some (\<lambda>existing. equals_lowered lv (node_label existing))
          (order_by_asc node_created_at (db_MindmapNodes d)) = Inr found"
    by (cases "js_some (\<lambda>existing. equals_lowered lv (node_label existing))
          (order_by_asc node_created_at (db_MindmapNodes d))")
      (auto simp: applyMindmapNode_def getAllMindmapNodes_Some)
  from False assms lv cv d f have nf: "\<not> found"
    by (auto simp: applyMindmapNode_def getAllMindmapNodes_Some)
  from False assms lv cv d f nf obtain cf where cf: "get_property node ''confidence'' = Inr cf"
    by (cases "get_property node ''confidence''")
      (auto simp: applyMindmapNode_def getAllMindmapNodes_Some)
  from False assms lv cv d f nf cf v obtain rowid where
    a: "addMindmapNode s v (the cv) (if truthy cf then cf else Some (JNumber 0.8)) None =
          Inr (rowid, s')"
    by (cases "addMindmapNode s v (the cv) (if truthy cf then cf else Some (JNumber 0.8)) None")
      (auto simp: applyMindmapNode_def getAllMindmapNodes_Some)
  from a obtain d0 label category confidence where
    b: "svc_db s = Some d0" "bind_text d0 v = Inr label"
      "s' = s\<lparr>svc_db := Some (d0\<lparr>db_clock_reads := Suc (db_clock_reads d0),
                 db_MindmapNodes := db_MindmapNodes d0 @
                   [new_fact d0 label category confidence]\<rparr>)\<rparr>"
    by (rule addMindmapNode_Inr)
  with d have d0: "d0 = d"
    by simp
  from some_fact_cases [OF f] nf v
  have "db_MindmapNodes d = [] \<or> (\<exists>x. v = JString x \<and> facts_labelled d x = [])"
    by auto
  with b(2) d0 have "db_MindmapNodes d = [] \<or> (v = JString label \<and> facts_labelled d label = [])"
    by auto
  with d lv v b d0 show ?thesis
    by blast
qed

lemma applyMindmapNode_at_most_one_more:
  assumes "applyMindmapNode node s = (out, s')"
  shows "at_most_one_more label s s'"
proof -
  from applyMindmapNode_cases [OF assms] consider
      (same) "s' = s"
    | (added) d l category confidence v where "svc_db s = Some d"
        "db_MindmapNodes d = [] \<or> (v = JString l \<and> facts_labelled d l = [])"
        "s' = s\<lparr>svc_db := Some (d\<lparr>db_clock_reads := Suc (db_clock_reads d),
                 db_MindmapNodes := db_MindmapNodes d @ [new_fact d l category confidence]\<rparr>)\<rparr>"
    by blast
  then show ?thesis
  proof cases
    case same
    then show ?thesis
      by (simp add: at_most_one_more_refl)
  next
    case added
    have "facts_labelled d label = []" if eq: "toLowerCase l = toLowerCase label"
      using added(2) facts_labelled_cong [OF eq, of d] by (auto simp: facts_labelled_empty)
    with added(1,3) show ?thesis
      by (auto simp: at_most_one_more_def facts_labelled_snoc)
  qed
qed

lemma applyAnalysisResults_at_most_one_more:
  "applyAnalysisResults analysis s = (out, s') \<Longrightarrow> at_most_one_more label s s'"
  by (rule applyAnalysisResults_preserves [of "at_most_one_more label"])
    (auto intro: applyNote_facts applyListGroup_facts applyGoalCompletion_facts
      facts_untouched_imp applyMindmapNode_at_most_one_more at_most_one_more_refl
      at_most_one_more_trans)

lemma mindmap_loop_at_most_one_more:
  "for_of applyMindmapNode nodes s = (out, s') \<Longrightarrow> at_most_one_more label s s'"
  by (rule for_of_preserves [of applyMindmapNode "at_most_one_more label"])
    (auto intro: applyMindmapNode_at_most_one_more at_most_one_more_refl at_most_one_more_trans)

text \<open>A completed step for an item with a string as label leaves a fact with that label.\<close>

lemma applyMindmapNode_present:
  assumes "applyMindmapNode node s = (None, s')" and "svc_db s = Some d"
    and "get_property node ''label'' = Inr (Some (JString label))" and "label \<noteq> []"
    and "get_property node ''category'' = Inr category" and "truthy category"
  shows "\<exists>d'. svc_db s' = Some d' \<and> facts_labelled d' label \<noteq> []"
proof (cases "facts_labelled d label \<noteq> []")
  case True
  with assms have "s' = s"
    by (simp add: applyMindmapNode_def getAllMindmapNodes_Some some_fact_string)
  with True assms(2) show ?thesis
    by simp
next
  case False
  with assms obtain cf rowid where
    a: "addMindmapNode s (JString label) (the category)
          (if truthy cf then cf else Some (JNumber 0.8)) None = Inr (rowid, s')"
    by (auto simp: applyMindmapNode_def getAllMindmapNodes_Some some_fact_string
        split: sum.splits)
  from a obtain d0 l c confidence where
    b: "svc_db s = Some d0" "bind_text d0 (JString label) = Inr l"
      "s' = s\<lparr>svc_db := Some (d0\<lparr>db_clock_reads := Suc (db_clock_reads d0),
                 db_MindmapNodes := db_MindmapNodes d0 @ [new_fact d0 l c confidence]\<rparr>)\<rparr>"
    by (rule addMindmapNode_Inr)
  then have "l = label"
    by simp
  with b show ?thesis
    by (simp add: facts_labelled_snoc)
qed

lemma for_of_completes:
  assumes step: "\<And>x s. x \<in> set xs \<Longrightarrow> P s \<Longrightarrow> \<exists>s'. body x s = (None, s') \<and> P s'"
    and start: "P s"
  shows "\<exists>s'. for_of body xs s = (None, s') \<and> P s'"
  using assms
proof (induction xs arbitrary: s)
  case Nil
  then show ?case by simp
next
  case (Cons x xs)
  from Cons.prems obtain s1 where b: "body x s = (None, s1)" "P s1"
    by (meson list.set_intros(1))
  have "\<exists>s'. for_of body xs s1 = (None, s') \<and> P s'"
  proof (rule Cons.IH)
    show "\<exists>s'. body y t = (None, s') \<and> P s'" if "y \<in> set xs" "P t" for y t
      using that Cons.prems(1) by simp
  qed (rule b)
  with b show ?case
    by simp
qed

lemma and_then_completes:
  assumes "\<exists>s1. p s = (None, s1) \<and> P s1"
    and "\<And>s1. P s1 \<Longrightarrow> \<exists>s'. q s1 = (None, s') \<and> P s'"
  shows "\<exists>s'. and_then p q s = (None, s') \<and> P s'"
  using assms by (auto simp: and_then_def)

lemma and_then_None:
  "and_then p q s = (None, s') \<Longrightarrow> \<exists>s1. p s = (None, s1) \<and> q s1 = (None, s')"
  by (auto simp: and_then_def split: prod.splits option.splits)

lemma is_string_iff: "is_string v \<longleftrightarrow> (\<exists>x. v = Some (JString x))"
  by (cases "(v)" rule: is_string.cases) auto

lemma strings_of:
  "list_all (\<lambda>x. is_string (Some x)) xs \<Longrightarrow> \<exists>items. xs = map JString items"
proof (induction xs)
  case Nil
  then show ?case by simp
next
  case (Cons x xs)
  then obtain items y where "xs = map JString items" "x = JString y"
    by (auto simp: is_string_iff)
  then have "x # xs = map JString (y # items)"
    by simp
  then show ?case
    by (rule exI [where x = "y # items"])
qed

lemma applyNote_completes:
  assumes "store_open s" and "typed_note n"
  shows "\<exists>s'. applyNote n s = (None, s') \<and> store_open s'"
proof -
  from assms(1) obtain d where d: "svc_db s = Some d"
    by (auto simp: store_open_def)
  from assms(2) obtain props t b where n: "n = JObject props"
    "map_of props ''title'' = Some (JString t)" "map_of props ''body'' = Some (JString b)"
    by (cases n) (auto simp: is_string_iff)
  show ?thesis
    unfolding n(1) applyNote_def
    using assms(1) by (simp add: n(2,3) addNote_bound [OF d] store_open_def)
qed

lemma applyListGroup_completes:
  assumes "store_open s" and "typed_group g"
  shows "\<exists>s'. applyListGroup g s = (None, s') \<and> store_open s'"
proof -
  from assms(1) obtain d where d: "svc_db s = Some d"
    by (auto simp: store_open_def)
  from assms(2) obtain props name xs where g: "g = JObject props"
    "map_of props ''listName'' = Some (JString name)" "map_of props ''items'' = Some (JArray xs)"
    "list_all (\<lambda>x. is_string (Some x)) xs"
    by (cases g) (auto simp: is_string_iff split: option.splits json.splits)
  from strings_of [OF g(4)] obtain items where items: "xs = map JString items"
    by blast
  show ?thesis
  proof (cases "List.find (\<lambda>list. title_matches (list_title list) name)
                  (order_by_desc list_created_at (db_Lists d))")
    case (Some targetList)
    with d dedup_loop [OF d, of "list_id targetList" items] show ?thesis
      unfolding g(1)
      by (auto simp: applyListGroup_def getAllLists_Some store_open_def
          find_list_string [OF g(2)] for_items_strings [OF g(3)] items)
  next
    case None
    let ?d1 = "d\<lparr>db_clock_reads := Suc (db_clock_reads d),
                  db_Lists := db_Lists d @
                    [\<lparr>list_id = lastInsertRowId (map list_id (db_Lists d)),
                      list_title = name,
                      list_type = replace_ws_runs (toLowerCase name),
                      list_created_at = db_clock d (db_clock_reads d)\<rparr>]\<rparr>"
    have "svc_db (s\<lparr>svc_db := Some ?d1\<rparr>) = Some ?d1"
      by simp
    from plain_loop [OF this, of "lastInsertRowId (map list_id (db_Lists d))" items] None d
    show ?thesis
      unfolding g(1)
      by (auto simp: applyListGroup_def getAllLists_Some createList_Some store_open_def
          find_list_string [OF g(2)] for_items_strings [OF g(3)] g(2) items)
  qed
qed

lemma applyGoalCompletion_completes:
  assumes "store_open s" and "typed_goal g"
  shows "\<exists>s'. applyGoalCompletion g s = (None, s') \<and> store_open s'"
proof -
  from assms(1) obtain d where d: "svc_db s = Some d"
    by (auto simp: store_open_def)
  from assms(2) obtain props name where g: "g = JObject props"
    "map_of props ''title'' = Some (JString name)"
    by (cases g) (auto simp: is_string_iff)
  have "js_find (\<lambda>goal. matches_item (JObject props) ''title'' (goal_title goal))
      (order_by_desc goal_created_at (db_Goals d)) =
    Inr (List.find (\<lambda>goal. title_matches (goal_title goal) name)
           (order_by_desc goal_created_at (db_Goals d)))"
    by (intro js_find_pure matches_item_string g(2))
  with d show ?thesis
    unfolding g(1)
    by (auto simp: store_open_def applyGoalCompletion_def getAllGoals_Some
        updateGoalStreak_Some split: option.splits)
qed

lemma applyMindmapNode_completes:
  assumes "store_open s" and "typed_node node"
  shows "\<exists>s'. applyMindmapNode node s = (None, s') \<and> store_open s'"
proof -
  from assms(1) obtain d where d: "svc_db s = Some d"
    by (auto simp: store_open_def)
  from assms(2) obtain props l c where n: "node = JObject props"
    "map_of props ''label'' = Some (JString l)" "map_of props ''category'' = Some (JString c)"
    "c \<in> set [''values'', ''goals'', ''personality'', ''facts'']"
    "\<not> truthy (map_of props ''confidence'')
       \<or> (\<exists>x. map_of props ''confidence'' = Some (JNumber x))"
    by (cases node) (auto simp: is_string_iff split: option.splits json.splits)
  from n(4) have c: "c \<noteq> []"
    by auto
  show ?thesis
  proof (cases "l = []")
    case True
    with assms(1) n(2) show ?thesis
      unfolding n(1) by (simp add: applyMindmapNode_def)
  next
    case False
    from n(4) assms(1) show ?thesis
      unfolding n(1) applyMindmapNode_Some [OF d n(2) False n(3) c n(5)]
      by (simp add: store_open_def del: set_simps)
  qed
qed

lemma applyAnalysisResults_completes:
  assumes "store_open s" and "typed_result analysis"
  shows "\<exists>s'. applyAnalysisResults analysis s = (None, s') \<and> store_open s'"
  unfolding applyAnalysisResults_def
proof (intro and_then_completes [where P = store_open])
  show "\<exists>s1. for_of applyNote (ar_notes analysis) s = (None, s1) \<and> store_open s1"
    using assms(2)
    by (intro for_of_completes [where P = store_open] applyNote_completes assms(1))
      (auto simp: typed_result_def list_all_iff)
  show "\<exists>s'. for_of applyListGroup (ar_listItems analysis) t = (None, s') \<and> store_open s'"
    if "store_open t" for t
    using assms(2)
    by (intro for_of_completes [where P = store_open] applyListGroup_completes that)
      (auto simp: typed_result_def list_all_iff)
  show "\<exists>s'. for_of applyGoalCompletion (ar_completedGoals analysis) t = (None, s') \<and> store_open s'"
    if "store_open t" for t
    using assms(2)
    by (intro for_of_completes [where P = store_open] applyGoalCompletion_completes that)
      (auto simp: typed_result_def list_all_iff)
  show "\<exists>s'. for_of applyMindmapNode (ar_mindmapNodes analysis) t = (None, s') \<and> store_open s'"
    if "store_open t" for t
    using assms(2)
    by (intro for_of_completes [where P = store_open] applyMindmapNode_completes that)
      (auto simp: typed_result_def list_all_iff)
qed

lemma mindmap_loop_present:
  assumes "node \<in> set nodes" and "get_property node ''label'' = Inr (Some (JString label))"
    and "label \<noteq> []" and "get_property node ''category'' = Inr category"
    and "truthy category"
  shows "svc_db s = Some d \<Longrightarrow> for_of applyMindmapNode nodes s = (None, s') \<Longrightarrow>
         \<exists>d'. svc_db s' = Some d' \<and> facts_labelled d' label \<noteq> []"
  using assms(1)
proof (induction nodes arbitrary: s d)
  case Nil
  then show ?case by simp
next
  case (Cons x xs)
  obtain o1 s1 where b: "applyMindmapNode x s = (o1, s1)"
    by (cases "applyMindmapNode x s") auto
  with Cons.prems(2) have o1: "o1 = None" and rest: "for_of applyMindmapNode xs s1 = (None, s')"
    by (auto split: option.splits)
  from applyMindmapNode_at_most_one_more [OF b, of label] Cons.prems(1)
  obtain d1 where d1: "svc_db s1 = Some d1"
    by (auto simp: at_most_one_more_def split: option.splits)
  show ?case
  proof (cases "x = node")
    case True
    from b o1 True have "applyMindmapNode node s = (None, s1)"
      by simp
    from applyMindmapNode_present [OF this Cons.prems(1) assms(2-5)] d1
    have "facts_labelled d1 label \<noteq> []"
      by simp
    moreover from mindmap_loop_at_most_one_more [OF rest, of label] d1
    obtain d' where "svc_db s' = Some d'"
      "length (facts_labelled d1 label) \<le> length (facts_labelled d' label)"
      by (auto simp: at_most_one_more_def split: option.splits)
    ultimately show ?thesis
      by auto
  next
    case False
    with Cons.prems(3) have "node \<in> set xs"
      by simp
    with Cons.IH [OF d1 rest] show ?thesis
      by simp
  qed
qed

lemma applyAnalysisResults_present:
  assumes "svc_db s = Some d" and "applyAnalysisResults analysis s = (None, s')"
    and "node \<in> set (ar_mindmapNodes analysis)"
    and "get_property node ''label'' = Inr (Some (JString label))" and "label \<noteq> []"
    and "get_property node ''category'' = Inr category" and "truthy category"
  shows "\<exists>d'. svc_db s' = Some d' \<and> facts_labelled d' label \<noteq> []"
proof -
  from assms(2) obtain s1 s2 s3 where
    1: "for_of applyNote (ar_notes analysis) s = (None, s1)" and
    2: "for_of applyListGroup (ar_listItems analysis) s1 = (None, s2)" and
    3: "for_of applyGoalCompletion (ar_completedGoals analysis) s2 = (None, s3)" and
    4: "for_of applyMindmapNode (ar_mindmapNodes analysis) s3 = (None, s')"
    unfolding applyAnalysisResults_def
    by (blast dest: and_then_None)
  have "store_frame s s1"
    by (rule for_of_preserves [of applyNote store_frame, OF _ _ _ 1])
      (auto intro: applyNote_frame store_frame_refl store_frame_trans)
  moreover have "store_frame s1 s2"
    by (rule for_of_preserves [of applyListGroup store_frame, OF _ _ _ 2])
      (auto intro: applyListGroup_frame store_frame_refl store_frame_trans)
  moreover have "store_frame s2 s3"
    by (rule for_of_preserves [of applyGoalCompletion store_frame, OF _ _ _ 3])
      (auto intro: applyGoalCompletion_frame store_frame_refl store_frame_trans)
  ultimately have "store_frame s s3"
    by (blast intro: store_frame_trans)
  with assms(1) obtain d3 where "svc_db s3 = Some d3"
    by (auto simp: store_frame_def split: option.splits)
  then show ?thesis
    using 4 by (rule mindmap_loop_present [OF assms(3-7)])
qed

text \<open>Two successive applications that both complete, for a label no fact has.\<close>

lemma applied_twice_once:
  assumes d: "svc_db s = Some d" and none: "facts_labelled d label = []"
    and label: "label \<noteq> []"
    and x: "x \<in> set (ar_mindmapNodes first)"
      "get_property x ''label'' = Inr (Some (JString label))"
      "get_property x ''category'' = Inr cx" "truthy cx"
    and y: "y \<in> set (ar_mindmapNodes second)"
      "get_property y ''label'' = Inr (Some (JString label))"
      "get_property y ''category'' = Inr cy" "truthy cy"
    and a1: "applyAnalysisResults first s = (None, s1)"
    and a2: "applyAnalysisResults second s1 = (None, s2)"
  shows "\<exists>d1 d2. svc_db s1 = Some d1 \<and> length (facts_labelled d1 label) = 1
     \<and> svc_db s2 = Some d2 \<and> length (facts_labelled d2 label) = 1"
proof -
  from applyAnalysisResults_present [OF d a1 x(1,2) label x(3,4)] obtain d1 where
    d1: "svc_db s1 = Some d1" and p1: "facts_labelled d1 label \<noteq> []"
    by auto
  from applyAnalysisResults_at_most_one_more [OF a1, of label] d d1 none
  have "length (facts_labelled d1 label) \<le> 1"
    by (simp add: at_most_one_more_def)
  with p1 have one1: "length (facts_labelled d1 label) = 1"
    by (cases "facts_labelled d1 label") auto
  from applyAnalysisResults_present [OF d1 a2 y(1,2) label y(3,4)] obtain d2 where
    d2: "svc_db s2 = Some d2" and p2: "facts_labelled d2 label \<noteq> []"
    by auto
  from applyAnalysisResults_at_most_one_more [OF a2, of label] d1 d2 one1
  have "length (facts_labelled d2 label) \<le> 1"
    by (simp add: at_most_one_more_def)
  with p2 have "length (facts_labelled d2 label) = 1"
    by (cases "facts_labelled d2 label") auto
  with d1 one1 d2 show ?thesis
    by blast
qed

lemma typed_node_fields:
  assumes "typed_node x"
  shows "\<exists>l c. get_property x ''label'' = Inr (Some (JString l))
     \<and> get_property x ''category'' = Inr (Some (JString c)) \<and> truthy (Some (JString c))"
  using assms by (cases x) (auto simp: is_string_iff split: option.splits json.splits)

lemma demo_hobby_step:
  "applyMindmapNode (JObject [(''label'', JString ''Likes tea''), (''category'', JString ''hobby'')])
     demo_full_store = (Some ConstraintFailed, demo_full_store)"
proof -
  have d: "svc_db demo_full_store = Some demo_full_db"
    by (simp add: demo_full_store_def)
  have n: "facts_labelled demo_full_db ''Likes tea'' = []"
    by (simp add: facts_labelled_def demo_full_db_def demo_db_def)
  show ?thesis
    by (simp add: applyMindmapNode_Some [OF d, where label = "''Likes tea''"
          and category = "''hobby''"] n)
qed

text \<open>
  C4, as the specification states it, fails on the code for an item whose category is
  not one of the four of the schema: with no fact of its label in the store the item is
  neither skipped nor created, because the insert violates the \<open>CHECK\<close> constraint of
  the table and ends the apply step. Two runs that apply the item leave no fact with its
  label, not one. An item whose label is present but not a string is neither skipped nor
  created either when the store holds a fact: the comparison of the labels throws.
\<close>

theorem mindmap_category_counterexample:
  "applyMindmapNode (JObject [(''label'', JString ''Likes tea''), (''category'', JString ''hobby'')])
     demo_full_store = (Some ConstraintFailed, demo_full_store)
   \<and> applyAnalysisResults demo_hobby_analysis demo_full_store =
       (Some ConstraintFailed, demo_full_store)
   \<and> applyAnalysisResults demo_hobby_analysis
       (snd (applyAnalysisResults demo_hobby_analysis demo_full_store)) =
       (Some ConstraintFailed, demo_full_store)
   \<and> svc_db demo_full_store = Some demo_full_db
   \<and> length (filter (\<lambda>f. toLowerCase (node_label f) = toLowerCase ''Likes tea'')
               (db_MindmapNodes demo_full_db)) = 0
   \<and> applyMindmapNode (JObject [(''label'', JNumber 5), (''category'', JString ''values'')])
       \<lparr>svc_db = Some (demo_full_db\<lparr>db_MindmapNodes :=
          [\<lparr>node_id = 1, node_label = ''Loves hiking'', node_category = ''values'',
            node_confidence_score = JNumber 0.9, node_linked_node_id = None,
            node_created_at = 100\<rparr>]\<rparr>)\<rparr> =
       (Some TypeError,
        \<lparr>svc_db = Some (demo_full_db\<lparr>db_MindmapNodes :=
          [\<lparr>node_id = 1, node_label = ''Loves hiking'', node_category = ''values'',
            node_confidence_score = JNumber 0.9, node_linked_node_id = None,
            node_created_at = 100\<rparr>]\<rparr>)\<rparr>)"
proof -
  have a: "applyAnalysisResults demo_hobby_analysis demo_full_store =
       (Some ConstraintFailed, demo_full_store)"
    by (simp add: applyAnalysisResults_def and_then_def demo_hobby_analysis_def
        demo_hobby_step)
  have b: "applyMindmapNode (JObject [(''label'', JNumber 5), (''category'', JString ''values'')])
       \<lparr>svc_db = Some (demo_full_db\<lparr>db_MindmapNodes :=
          [\<lparr>node_id = 1, node_label = ''Loves hiking'', node_category = ''values'',
            node_confidence_score = JNumber 0.9, node_linked_node_id = None,
            node_created_at = 100\<rparr>]\<rparr>)\<rparr> =
       (Some TypeError,
        \<lparr>svc_db = Some (demo_full_db\<lparr>db_MindmapNodes :=
          [\<lparr>node_id = 1, node_label = ''Loves hiking'', node_category = ''values'',
            node_confidence_score = JNumber 0.9, node_linked_node_id = None,
            node_created_at = 100\<rparr>]\<rparr>)\<rparr>)"
    by (simp add: applyMindmapNode_def getAllMindmapNodes_def order_by_asc_def
        equals_lowered_def)
  show ?thesis
    unfolding a snd_conv
    by (simp only: a demo_hobby_step b simp_thms)
      (simp add: demo_full_store_def demo_full_db_def demo_db_def)
qed

text \<open>
  C4, amended. A mindmap item whose label is a non-empty string and whose category is
  one of the four of the schema, with a confidence that is a number or falsy, applied to
  an open database: when a stored fact has the same label up to case, the store is left
  as it is; otherwise one fact is appended with the label and category of the item and
  with its confidence, or \<open>0.8\<close> when the confidence is absent or falsy. With any other
  non-empty category the item is skipped in the same case, and otherwise the insert is
  rejected and the step ends with that error and the store as it was. For two results
  applied one after the other, both holding an item with the same string as label and
  some category, on a database that has no fact with that label: when both applications
  complete, then after the first as after the second exactly one stored fact has that
  label; and they do complete when the results have the shape of the interface, with
  categories of the schema.
\<close>

theorem mindmap_fact_once:
  "(svc_db t = Some e \<and> map_of props ''label'' = Some (JString l) \<and> l \<noteq> []
      \<and> map_of props ''category'' = Some (JString c)
      \<and> c \<in> set [''values'', ''goals'', ''personality'', ''facts'']
      \<and> (\<not> truthy (map_of props ''confidence'')
           \<or> (\<exists>x. map_of props ''confidence'' = Some (JNumber x))) \<longrightarrow>
      applyMindmapNode (JObject props) t =
        (None,
         if \<exists>f \<in> set (db_MindmapNodes e). toLowerCase (node_label f) = toLowerCase l then t
         else t\<lparr>svc_db := Some (e\<lparr>db_clock_reads := Suc (db_clock_reads e),
                  db_MindmapNodes := db_MindmapNodes e @
                    [\<lparr>node_id = lastInsertRowId (map node_id (db_MindmapNodes e)),
                      node_label = l, node_category = c,
                      node_confidence_score =
                        JNumber (case map_of props ''confidence'' of
                                   Some (JNumber x) \<Rightarrow> if x = 0 then 0.8 else x
                                 | _ \<Rightarrow> 0.8),
                      node_linked_node_id = None,
                      node_created_at = db_clock e (db_clock_reads e)\<rparr>]\<rparr>)\<rparr>))
   \<and> (svc_db t = Some e \<and> map_of props ''label'' = Some (JString l) \<and> l \<noteq> []
      \<and> map_of props ''category'' = Some (JString c) \<and> c \<noteq> []
      \<and> c \<notin> set [''values'', ''goals'', ''personality'', ''facts'']
      \<and> (\<not> truthy (map_of props ''confidence'')
           \<or> (\<exists>x. map_of props ''confidence'' = Some (JNumber x))) \<longrightarrow>
      applyMindmapNode (JObject props) t =
        (if \<exists>f \<in> set (db_MindmapNodes e). toLowerCase (node_label f) = toLowerCase l
         then None else Some ConstraintFailed, t))
   \<and> (svc_db s = Some d
      \<and> (\<forall>f \<in> set (db_MindmapNodes d). toLowerCase (node_label f) \<noteq> toLowerCase label)
      \<and> label \<noteq> []
      \<and> x \<in> set (ar_mindmapNodes first)
      \<and> get_property x ''label'' = Inr (Some (JString label))
      \<and> get_property x ''category'' = Inr cx \<and> truthy cx
      \<and> y \<in> set (ar_mindmapNodes second)
      \<and> get_property y ''label'' = Inr (Some (JString label))
      \<and> get_property y ''category'' = Inr cy \<and> truthy cy
      \<and> applyAnalysisResults first s = (None, sa)
      \<and> applyAnalysisResults second sa = (None, sb) \<longrightarrow>
      (\<exists>d1 d2. svc_db sa = Some d1
          \<and> length (filter (\<lambda>f. toLowerCase (node_label f) = toLowerCase label)
                      (db_MindmapNodes d1)) = 1
          \<and> svc_db sb = Some d2
          \<and> length (filter (\<lambda>f. toLowerCase (node_label f) = toLowerCase label)
                      (db_MindmapNodes d2)) = 1))
   \<and> (svc_db s = Some d \<and> typed_result first \<and> typed_result second \<longrightarrow>
      (\<exists>ta da tb db. applyAnalysisResults first s = (None, ta) \<and> svc_db ta = Some da
          \<and> applyAnalysisResults second ta = (None, tb) \<and> svc_db tb = Some db))
   \<and> toLowerCase (''Loves HIKING in the '' @ [CHR 0xC9] @ ''crins'') =
       ''loves hiking in the '' @ [CHR 0xE9] @ ''crins''"
proof (intro conjI impI)
  assume h: "svc_db t = Some e \<and> map_of props ''label'' = Some (JString l) \<and> l \<noteq> []
      \<and> map_of props ''category'' = Some (JString c)
      \<and> c \<in> set [''values'', ''goals'', ''personality'', ''facts'']
      \<and> (\<not> truthy (map_of props ''confidence'')
           \<or> (\<exists>x. map_of props ''confidence'' = Some (JNumber x)))"
  then have c: "c \<noteq> []"
    by auto
  have dup: "(\<exists>f \<in> set (db_MindmapNodes e). toLowerCase (node_label f) = toLowerCase l)
      \<longleftrightarrow> facts_labelled e l \<noteq> []"
    by (auto simp: facts_labelled_def filter_empty_conv)
  from h c show "applyMindmapNode (JObject props) t =
        (None,
         if \<exists>f \<in> set (db_MindmapNodes e). toLowerCase (node_label f) = toLowerCase l then t
         else t\<lparr>svc_db := Some (e\<lparr>db_clock_reads := Suc (db_clock_reads e),
                  db_MindmapNodes := db_MindmapNodes e @
                    [\<lparr>node_id = lastInsertRowId (map node_id (db_MindmapNodes e)),
                      node_label = l, node_category = c,
                      node_confidence_score =
                        JNumber (case map_of props ''confidence'' of
                                   Some (JNumber x) \<Rightarrow> if x = 0 then 0.8 else x
                                 | _ \<Rightarrow> 0.8),
                      node_linked_node_id = None,
                      node_created_at = db_clock e (db_clock_reads e)\<rparr>]\<rparr>)\<rparr>)"
    unfolding dup
    by (simp add: applyMindmapNode_Some [of t e props l c] new_fact_def del: set_simps)
next
  assume h: "svc_db t = Some e \<and> map_of props ''label'' = Some (JString l) \<and> l \<noteq> []
      \<and> map_of props ''category'' = Some (JString c) \<and> c \<noteq> []
      \<and> c \<notin> set [''values'', ''goals'', ''personality'', ''facts'']
      \<and> (\<not> truthy (map_of props ''confidence'')
           \<or> (\<exists>x. map_of props ''confidence'' = Some (JNumber x)))"
  have dup: "(\<exists>f \<in> set (db_MindmapNodes e). toLowerCase (node_label f) = toLowerCase l)
      \<longleftrightarrow> facts_labelled e l \<noteq> []"
    by (auto simp: facts_labelled_def filter_empty_conv)
  from h show "applyMindmapNode (JObject props) t =
        (if \<exists>f \<in> set (db_MindmapNodes e). toLowerCase (node_label f) = toLowerCase l
         then None else Some ConstraintFailed, t)"
    unfolding dup
    by (simp add: applyMindmapNode_Some [of t e props l c] del: set_simps)
next
  assume h: "svc_db s = Some d
      \<and> (\<forall>f \<in> set (db_MindmapNodes d). toLowerCase (node_label f) \<noteq> toLowerCase label)
      \<and> label \<noteq> []
      \<and> x \<in> set (ar_mindmapNodes first)
      \<and> get_property x ''label'' = Inr (Some (JString label))
      \<and> get_property x ''category'' = Inr cx \<and> truthy cx
      \<and> y \<in> set (ar_mindmapNodes second)
      \<and> get_property y ''label'' = Inr (Some (JString label))
      \<and> get_property y ''category'' = Inr cy \<and> truthy cy
      \<and> applyAnalysisResults first s = (None, sa)
      \<and> applyAnalysisResults second sa = (None, sb)"
  then have none: "facts_labelled d label = []"
    by (auto simp: facts_labelled_def filter_empty_conv)
  from h none have "\<exists>d1 d2. svc_db sa = Some d1 \<and> length (facts_labelled d1 label) = 1
     \<and> svc_db sb = Some d2 \<and> length (facts_labelled d2 label) = 1"
    by (intro applied_twice_once [where s = s and d = d and first = first and second = second
          and x = x and y = y and cx = cx and cy = cy]) blast+
  then show "\<exists>d1 d2. svc_db sa = Some d1
          \<and> length (filter (\<lambda>f. toLowerCase (node_label f) = toLowerCase label)
                      (db_MindmapNodes d1)) = 1
          \<and> svc_db sb = Some d2
          \<and> length (filter (\<lambda>f. toLowerCase (node_label f) = toLowerCase label)
                      (db_MindmapNodes d2)) = 1"
    by (simp add: facts_labelled_def)
next
  assume h: "svc_db s = Some d \<and> typed_result first \<and> typed_result second"
  then have "store_open s"
    by (simp add: store_open_def)
  with h applyAnalysisResults_completes [of s first] obtain sa where
    a: "applyAnalysisResults first s = (None, sa)" "store_open sa"
    by blast
  with h applyAnalysisResults_completes [of sa second] obtain sb where
    b: "applyAnalysisResults second sa = (None, sb)" "store_open sb"
    by blast
  with a show "\<exists>ta da tb db. applyAnalysisResults first s = (None, ta) \<and> svc_db ta = Some da
          \<and> applyAnalysisResults second ta = (None, tb) \<and> svc_db tb = Some db"
    by (auto simp: store_open_def)
next
  show "toLowerCase (''Loves HIKING in the '' @ [CHR 0xC9] @ ''crins'') =
       ''loves hiking in the '' @ [CHR 0xE9] @ ''crins''"
    by code_simp
qed

theorem mindmap_fact_once_witness:
  "applyMindmapNode
     (JObject [(''label'', JString ''Loves hiking''), (''category'', JString ''values'')])
     demo_full_store =
     (None, demo_full_store\<lparr>svc_db := Some (demo_full_db\<lparr>db_clock_reads := 1,
        db_MindmapNodes :=
          [\<lparr>node_id = 1, node_label = ''Loves hiking'', node_category = ''values'',
            node_confidence_score = JNumber 0.8, node_linked_node_id = None,
            node_created_at = 100\<rparr>]\<rparr>)\<rparr>)
   \<and> applyMindmapNode
       (JObject [(''label'', JString ''Likes tea''), (''category'', JString ''hobby'')])
       demo_full_store = (Some ConstraintFailed, demo_full_store)
   \<and> (\<exists>s1 d1 s2 d2.
          applyAnalysisResults demo_analysis demo_full_store = (None, s1) \<and> svc_db s1 = Some d1
          \<and> length (filter (\<lambda>f. toLowerCase (node_label f) = toLowerCase ''Loves hiking'')
                      (db_MindmapNodes d1)) = 1
          \<and> applyAnalysisResults demo_second_analysis s1 = (None, s2) \<and> svc_db s2 = Some d2
          \<and> length (filter (\<lambda>f. toLowerCase (node_label f) = toLowerCase ''Loves hiking'')
                      (db_MindmapNodes d2)) = 1)"
proof -
  have d: "svc_db demo_full_store = Some demo_full_db"
    by (simp add: demo_full_store_def)
  have n: "db_MindmapNodes demo_full_db = []"
    by (simp add: demo_full_db_def demo_db_def)
  have r: "db_clock demo_full_db 0 = 100" "db_clock_reads demo_full_db = 0"
    by (simp_all add: demo_full_db_def demo_db_def)
  let ?x = "JObject [(''label'', JString ''Loves hiking''), (''category'', JString ''values''),
                     (''confidence'', JNumber 0.9)]"
  let ?y = "JObject [(''label'', JString ''Loves hiking''),
                     (''category'', JString ''personality'')]"
  have 1: "applyMindmapNode
     (JObject [(''label'', JString ''Loves hiking''), (''category'', JString ''values'')])
     demo_full_store =
     (None, demo_full_store\<lparr>svc_db := Some (demo_full_db\<lparr>db_clock_reads := 1,
        db_MindmapNodes :=
          [\<lparr>node_id = 1, node_label = ''Loves hiking'', node_category = ''values'',
            node_confidence_score = JNumber 0.8, node_linked_node_id = None,
            node_created_at = 100\<rparr>]\<rparr>)\<rparr>)"
    using mindmap_fact_once [where t = demo_full_store and e = demo_full_db
        and props = "[(''label'', JString ''Loves hiking''), (''category'', JString ''values'')]"
        and l = "''Loves hiking''" and c = "''values''", THEN conjunct1] d
    by (simp add: n r lastInsertRowId_def)
  have 2: "applyMindmapNode
       (JObject [(''label'', JString ''Likes tea''), (''category'', JString ''hobby'')])
       demo_full_store = (Some ConstraintFailed, demo_full_store)"
    using mindmap_fact_once [where t = demo_full_store and e = demo_full_db
        and props = "[(''label'', JString ''Likes tea''), (''category'', JString ''hobby'')]"
        and l = "''Likes tea''" and c = "''hobby''", THEN conjunct2, THEN conjunct1] d
    by (simp add: n)
  have typed: "svc_db demo_full_store = Some demo_full_db \<and> typed_result demo_analysis
      \<and> typed_result demo_second_analysis"
    by (simp add: d typed_result_def demo_analysis_def demo_second_analysis_def)
  from mindmap_fact_once [where s = demo_full_store and d = demo_full_db
      and first = demo_analysis and second = demo_second_analysis, THEN conjunct2,
      THEN conjunct2, THEN conjunct2, THEN conjunct1, THEN mp, OF typed]
  obtain s1 s2 where
    a: "applyAnalysisResults demo_analysis demo_full_store = (None, s1)"
      "applyAnalysisResults demo_second_analysis s1 = (None, s2)"
    by blast
  have h: "svc_db demo_full_store = Some demo_full_db
      \<and> (\<forall>f \<in> set (db_MindmapNodes demo_full_db).
            toLowerCase (node_label f) \<noteq> toLowerCase ''Loves hiking'')
      \<and> ''Loves hiking'' \<noteq> []
      \<and> ?x \<in> set (ar_mindmapNodes demo_analysis)
      \<and> get_property ?x ''label'' = Inr (Some (JString ''Loves hiking''))
      \<and> get_property ?x ''category'' = Inr (Some (JString ''values''))
      \<and> truthy (Some (JString ''values''))
      \<and> ?y \<in> set (ar_mindmapNodes demo_second_analysis)
      \<and> get_property ?y ''label'' = Inr (Some (JString ''Loves hiking''))
      \<and> get_property ?y ''category'' = Inr (Some (JString ''personality''))
      \<and> truthy (Some (JString ''personality''))
      \<and> applyAnalysisResults demo_analysis demo_full_store = (None, s1)
      \<and> applyAnalysisResults demo_second_analysis s1 = (None, s2)"
    by (simp add: d n a, simp add: demo_analysis_def demo_second_analysis_def)
  from mindmap_fact_once [where s = demo_full_store and d = demo_full_db
      and label = "''Loves hiking''" and first = demo_analysis
      and second = demo_second_analysis and x = ?x and y = ?y
      and cx = "Some (JString ''values'')" and cy = "Some (JString ''personality'')"
      and sa = s1 and sb = s2, THEN conjunct2, THEN conjunct2, THEN conjunct1, THEN mp, OF h]
    a
  have 3: "\<exists>s1 d1 s2 d2.
          applyAnalysisResults demo_analysis demo_full_store = (None, s1) \<and> svc_db s1 = Some d1
          \<and> length (filter (\<lambda>f. toLowerCase (node_label f) = toLowerCase ''Loves hiking'')
                      (db_MindmapNodes d1)) = 1
          \<and> applyAnalysisResults demo_second_analysis s1 = (None, s2) \<and> svc_db s2 = Some d2
          \<and> length (filter (\<lambda>f. toLowerCase (node_label f) = toLowerCase ''Loves hiking'')
                      (db_MindmapNodes d2)) = 1"
    by blast
  from 1 2 3 show ?thesis
    by blast
qed

section \<open>A failing store operation\<close>

lemma for_of_stops:
  "for_of body xs s = (Some e, s') \<Longrightarrow> for_of body (xs @ ys) s = (Some e, s')"
proof (induction xs arbitrary: s)
  case Nil
  then show ?case by simp
next
  case (Cons x xs)
  then show ?case
    by (cases "body x s") (auto split: option.splits)
qed

lemma and_then_stops: "p s = (Some e, s') \<Longrightarrow> and_then p q s = (Some e, s')"
  by (simp add: and_then_def)

lemma and_then_goes_on: "p s = (None, s') \<Longrightarrow> and_then p q s = q s'"
  by (simp add: and_then_def)

lemma demo_failing_clean: "clean_json demo_failing_text = demo_failing_text"
  unfolding demo_failing_text_def by code_simp

lemma demo_failing_trim: "trim demo_failing_text = demo_failing_text"
  unfolding demo_failing_text_def by code_simp

lemma demo_failing_parse:
  "parseAnalysisResult demo_parse demo_failing_text = Some demo_failing_analysis"
proof -
  have "demo_parse demo_failing_text = Some demo_failing_json"
    by (simp add: demo_parse_def) (simp add: demo_failing_text_def)
  then show ?thesis
    by (simp add: parseAnalysisResult_def demo_failing_clean demo_failing_json_def
        demo_failing_analysis_def)
qed

lemma demo_full_open: "svc_db demo_full_store = Some demo_full_db"
  by (simp add: demo_full_store_def)

lemma demo_full_no_facts: "db_MindmapNodes demo_full_db = []"
  by (simp add: demo_full_db_def demo_db_def)

lemma demo_failing_step:
  "applyMindmapNode
     (JObject [(''label'', JString ''Likes tea''), (''category'', JString ''hobby'')])
     demo_full_store = (Some ConstraintFailed, demo_full_store)"
  by (simp add: applyMindmapNode_Some [OF demo_full_open, where label = "''Likes tea''"
        and category = "''hobby''"] facts_labelled_def demo_full_no_facts)

lemma demo_good_step:
  "applyMindmapNode
     (JObject [(''label'', JString ''Loves hiking''), (''category'', JString ''values''),
               (''confidence'', JNumber 0.9)])
     demo_full_store =
       (None, demo_full_store\<lparr>svc_db := Some (demo_full_db\<lparr>db_clock_reads := 1,
          db_MindmapNodes :=
            [\<lparr>node_id = 1, node_label = ''Loves hiking'', node_category = ''values'',
              node_confidence_score = JNumber 0.9, node_linked_node_id = None,
              node_created_at = 100\<rparr>]\<rparr>)\<rparr>)"
proof -
  let ?props = "[(''label'', JString ''Loves hiking''), (''category'', JString ''values''),
                 (''confidence'', JNumber 0.9)]"
  have c: "\<not> truthy (map_of ?props ''confidence'')
      \<or> (\<exists>x. map_of ?props ''confidence'' = Some (JNumber x))"
    by (rule disjI2, rule exI [where x = "0.9"]) simp
  have "applyMindmapNode (JObject ?props) demo_full_store =
      (None, demo_full_store\<lparr>svc_db := Some (demo_full_db\<lparr>db_clock_reads := 1,
          db_MindmapNodes := [new_fact demo_full_db ''Loves hiking'' ''values'' (JNumber 0.9)]\<rparr>)\<rparr>)"
    unfolding applyMindmapNode_Some [OF demo_full_open _ _ _ _ c, where label = "''Loves hiking''"
        and category = "''values''", simplified]
    by (simp add: facts_labelled_def demo_full_no_facts)
      (simp add: demo_full_db_def demo_db_def)
  then show ?thesis
    by (simp add: new_fact_def lastInsertRowId_def demo_full_no_facts)
      (simp add: demo_full_db_def demo_db_def)
qed

lemma demo_failing_apply:
  "applyAnalysisResults demo_failing_analysis demo_full_store =
     (Some ConstraintFailed, demo_full_store)"
  by (simp add: applyAnalysisResults_def and_then_def demo_failing_analysis_def
      demo_failing_step)

lemma demo_full_getAllMessages: "getAllMessages demo_full_store = Inr demo_messages"
  by (simp add: getAllMessages_def demo_full_store_def demo_full_db_def demo_db_def
      demo_messages_def order_by_asc_def)

text \<open>
  C2, as the specification states it, fails on the code: the result below holds two
  mindmap items, the first with a category that the \<open>CHECK\<close> constraint of the table
  rejects, the second one that is inserted when it is applied alone. The rejected insert
  ends the apply step: the second item is not applied and the store is left as it was.
\<close>

theorem store_failure_counterexample:
  "applyAnalysisResults demo_failing_analysis demo_full_store =
     (Some ConstraintFailed, demo_full_store)
   \<and> processRecentConversations demo_parse (demo_llm demo_failing_text) demo_agent
       demo_full_store = (ProcessingError ConstraintFailed, demo_agent, demo_full_store)
   \<and> applyAnalysisResults (demo_failing_analysis\<lparr>ar_mindmapNodes :=
         tl (ar_mindmapNodes demo_failing_analysis)\<rparr>) demo_full_store =
       (None, demo_full_store\<lparr>svc_db := Some (demo_full_db\<lparr>db_clock_reads := 1,
          db_MindmapNodes :=
            [\<lparr>node_id = 1, node_label = ''Loves hiking'', node_category = ''values'',
              node_confidence_score = JNumber 0.9, node_linked_node_id = None,
              node_created_at = 100\<rparr>]\<rparr>)\<rparr>)"
proof (intro conjI)
  show "applyAnalysisResults demo_failing_analysis demo_full_store =
     (Some ConstraintFailed, demo_full_store)"
    by (rule demo_failing_apply)
  show "processRecentConversations demo_parse (demo_llm demo_failing_text) demo_agent
       demo_full_store = (ProcessingError ConstraintFailed, demo_agent, demo_full_store)"
    by (simp add: processRecentConversations_def isReady_def demo_full_getAllMessages
        newMessagesSince_busy demo_new demo_analyze demo_failing_trim demo_failing_parse
        demo_failing_apply Let_def)
      (simp add: demo_agent_def demo_llm_def demo_messages_def)
  show "applyAnalysisResults (demo_failing_analysis\<lparr>ar_mindmapNodes :=
         tl (ar_mindmapNodes demo_failing_analysis)\<rparr>) demo_full_store =
       (None, demo_full_store\<lparr>svc_db := Some (demo_full_db\<lparr>db_clock_reads := 1,
          db_MindmapNodes :=
            [\<lparr>node_id = 1, node_label = ''Loves hiking'', node_category = ''values'',
              node_confidence_score = JNumber 0.9, node_linked_node_id = None,
              node_created_at = 100\<rparr>]\<rparr>)\<rparr>)"
    by (simp add: applyAnalysisResults_def and_then_def demo_failing_analysis_def
        demo_good_step)
qed

lemma applyNote_rejected:
  assumes "map_of props ''title'' = Some title" and "truthy (Some title)"
    and "map_of props ''body'' = Some body" and "truthy (Some body)"
    and "addNote s title body ''vi'' None = Inl e"
  shows "applyNote (JObject props) s = (Some e, s)"
  using assms by (simp add: applyNote_def)

lemma addItem_null: "svc_db s = Some d \<Longrightarrow> addItem listId JNull s = (Some ConstraintFailed, s)"
  by (simp add: addItem_def addListItem_rejected)

lemma run_apply_failed:
  assumes "\<not> isProcessing agent" and "isReady llm" and "getAllMessages s = Inr allMessages"
    and "2 \<le> length (filter (\<lambda>m. lastProcessedMessageId agent < msg_id m) allMessages)"
    and "analyzeConversation llm
           (filter (\<lambda>m. lastProcessedMessageId agent < msg_id m) allMessages) = Inr rawAnalysis"
    and "parseAnalysisResult JSON_parse rawAnalysis = Some analysis"
    and "applyAnalysisResults analysis s = (Some e, s')"
  shows "processRecentConversations JSON_parse llm agent s = (ProcessingError e, agent, s')"
  using run_after_analysis [unfolded newMessagesSince_filter, OF assms(1-5), of JSON_parse]
    assms(6,7)
  by simp

text \<open>
  C2, amended. A failing store operation is not skipped. A rejected insert of a note, of
  a list item (as for the item \<open>null\<close>) or of a mindmap node (as for a category the table
  rejects) ends the step of its loop with that error. The error leaves the loop at the
  failing item (the items behind it are not visited), the loops behind it are not run,
  and \<open>applyAnalysisResults\<close> ends with that error and the store as it was at that moment:
  whatever was written before the failure is still there, and no row that was in the
  store before was removed or changed, goal rows apart, which keep all but the streak
  counter and the date of the last completion. \<open>processRecentConversations\<close> catches the
  error and logs it; the busy flag is released and the high-water mark is not advanced.
\<close>

theorem store_failure_aborts:
  "(for_of body xs s = (Some e, s') \<longrightarrow> for_of body (xs @ ys) s = (Some e, s'))
   \<and> (for_of applyNote (ar_notes a) s = (Some e, s') \<longrightarrow>
        applyAnalysisResults a s = (Some e, s'))
   \<and> (for_of applyNote (ar_notes a) s = (None, sa)
        \<and> for_of applyListGroup (ar_listItems a) sa = (Some e, s') \<longrightarrow>
        applyAnalysisResults a s = (Some e, s'))
   \<and> (for_of applyNote (ar_notes a) s = (None, sa)
        \<and> for_of applyListGroup (ar_listItems a) sa = (None, sb)
        \<and> for_of applyGoalCompletion (ar_completedGoals a) sb = (Some e, s') \<longrightarrow>
        applyAnalysisResults a s = (Some e, s'))
   \<and> (for_of applyNote (ar_notes a) s = (None, sa)
        \<and> for_of applyListGroup (ar_listItems a) sa = (None, sb)
        \<and> for_of applyGoalCompletion (ar_completedGoals a) sb = (None, sc)
        \<and> for_of applyMindmapNode (ar_mindmapNodes a) sc = (Some e, s') \<longrightarrow>
        applyAnalysisResults a s = (Some e, s'))
   \<and> (map_of props ''title'' = Some tv \<and> truthy (Some tv)
        \<and> map_of props ''body'' = Some bv \<and> truthy (Some bv)
        \<and> addNote t tv bv ''vi'' None = Inl e \<longrightarrow>
        applyNote (JObject props) t = (Some e, t))
   \<and> (addListItem t listId item = Inl e \<longrightarrow> addItem listId item t = (Some e, t))
   \<and> (svc_db t = Some d \<longrightarrow> addItem listId JNull t = (Some ConstraintFailed, t))
   \<and> (svc_db t = Some d \<and> map_of props ''label'' = Some (JString l) \<and> l \<noteq> []
        \<and> map_of props ''category'' = Some (JString c)
        \<and> c \<noteq> [] \<and> c \<notin> set [''values'', ''goals'', ''personality'', ''facts'']
        \<and> map_of props ''confidence'' = None
        \<and> (\<forall>f \<in> set (db_MindmapNodes d). toLowerCase (node_label f) \<noteq> toLowerCase l) \<longrightarrow>
        applyMindmapNode (JObject props) t = (Some ConstraintFailed, t))
   \<and> (svc_db s = Some d \<and> applyAnalysisResults a s = (Some e, s') \<longrightarrow>
        (\<exists>d'. svc_db s' = Some d'
           \<and> db_User d' = db_User d \<and> db_Messages d' = db_Messages d
           \<and> prefix (db_Notes d) (db_Notes d')
           \<and> prefix (db_Lists d) (db_Lists d')
           \<and> prefix (db_ListItems d) (db_ListItems d')
           \<and> prefix (db_MindmapNodes d) (db_MindmapNodes d')
           \<and> list_all2 (\<lambda>g g'. g'\<lparr>goal_streak_count := goal_streak_count g,
                                    goal_last_completed_date := goal_last_completed_date g\<rparr> = g
                                \<and> goal_streak_count g \<le> goal_streak_count g')
                (db_Goals d) (db_Goals d')))
   \<and> (\<not> isProcessing agent \<and> isReady llm \<and> getAllMessages s = Inr allMessages
        \<and> 2 \<le> length (filter (\<lambda>m. lastProcessedMessageId agent < msg_id m) allMessages)
        \<and> analyzeConversation llm
            (filter (\<lambda>m. lastProcessedMessageId agent < msg_id m) allMessages) = Inr rawAnalysis
        \<and> parseAnalysisResult JSON_parse rawAnalysis = Some a
        \<and> applyAnalysisResults a s = (Some e, s') \<longrightarrow>
        processRecentConversations JSON_parse llm agent s = (ProcessingError e, agent, s'))"
proof (intro conjI impI)
  show "for_of body xs s = (Some e, s') \<Longrightarrow> for_of body (xs @ ys) s = (Some e, s')"
    by (rule for_of_stops)
  show "for_of applyNote (ar_notes a) s = (Some e, s') \<Longrightarrow>
        applyAnalysisResults a s = (Some e, s')"
    by (simp add: applyAnalysisResults_def and_then_stops)
  show "for_of applyNote (ar_notes a) s = (None, sa)
        \<and> for_of applyListGroup (ar_listItems a) sa = (Some e, s') \<Longrightarrow>
        applyAnalysisResults a s = (Some e, s')"
    by (simp add: applyAnalysisResults_def and_then_stops and_then_goes_on)
  show "for_of applyNote (ar_notes a) s = (None, sa)
        \<and> for_of applyListGroup (ar_listItems a) sa = (None, sb)
        \<and> for_of applyGoalCompletion (ar_completedGoals a) sb = (Some e, s') \<Longrightarrow>
        applyAnalysisResults a s = (Some e, s')"
    by (simp add: applyAnalysisResults_def and_then_stops and_then_goes_on)
  show "for_of applyNote (ar_notes a) s = (None, sa)
        \<and> for_of applyListGroup (ar_listItems a) sa = (None, sb)
        \<and> for_of applyGoalCompletion (ar_completedGoals a) sb = (None, sc)
        \<and> for_of applyMindmapNode (ar_mindmapNodes a) sc = (Some e, s') \<Longrightarrow>
        applyAnalysisResults a s = (Some e, s')"
    by (simp add: applyAnalysisResults_def and_then_goes_on)
  show "map_of props ''title'' = Some tv \<and> truthy (Some tv)
        \<and> map_of props ''body'' = Some bv \<and> truthy (Some bv)
        \<and> addNote t tv bv ''vi'' None = Inl e \<Longrightarrow>
        applyNote (JObject props) t = (Some e, t)"
    by (intro applyNote_rejected [where title = tv and body = bv]) blast+
  show "addListItem t listId item = Inl e \<Longrightarrow> addItem listId item t = (Some e, t)"
    by (simp add: addItem_def)
  show "svc_db t = Some d \<Longrightarrow> addItem listId JNull t = (Some ConstraintFailed, t)"
    by (rule addItem_null)
  show "applyMindmapNode (JObject props) t = (Some ConstraintFailed, t)"
    if h: "svc_db t = Some d \<and> map_of props ''label'' = Some (JString l) \<and> l \<noteq> []
        \<and> map_of props ''category'' = Some (JString c)
        \<and> c \<noteq> [] \<and> c \<notin> set [''values'', ''goals'', ''personality'', ''facts'']
        \<and> map_of props ''confidence'' = None
        \<and> (\<forall>f \<in> set (db_MindmapNodes d). toLowerCase (node_label f) \<noteq> toLowerCase l)"
  proof -
    from h have "facts_labelled d l = []"
      by (auto simp: facts_labelled_def filter_empty_conv)
    with h show ?thesis
      by (simp add: applyMindmapNode_Some [of t d props l c] del: set_simps)
  qed
  show "\<exists>d'. svc_db s' = Some d'
           \<and> db_User d' = db_User d \<and> db_Messages d' = db_Messages d
           \<and> prefix (db_Notes d) (db_Notes d')
           \<and> prefix (db_Lists d) (db_Lists d')
           \<and> prefix (db_ListItems d) (db_ListItems d')
           \<and> prefix (db_MindmapNodes d) (db_MindmapNodes d')
           \<and> list_all2 (\<lambda>g g'. g'\<lparr>goal_streak_count := goal_streak_count g,
                                    goal_last_completed_date := goal_last_completed_date g\<rparr> = g
                                \<and> goal_streak_count g \<le> goal_streak_count g')
                (db_Goals d) (db_Goals d')"
    if h: "svc_db s = Some d \<and> applyAnalysisResults a s = (Some e, s')"
  proof -
    from h have "store_frame s s'"
      by (auto dest: applyAnalysisResults_frame)
    with h obtain d' where "svc_db s' = Some d'" "only_inserts d d'"
      by (auto simp: store_frame_def split: option.splits)
    then show ?thesis
      by (auto simp: only_inserts_def goal_kept_def [abs_def])
  qed
  show "processRecentConversations JSON_parse llm agent s = (ProcessingError e, agent, s')"
    if "\<not> isProcessing agent \<and> isReady llm \<and> getAllMessages s = Inr allMessages
        \<and> 2 \<le> length (filter (\<lambda>m. lastProcessedMessageId agent < msg_id m) allMessages)
        \<and> analyzeConversation llm
            (filter (\<lambda>m. lastProcessedMessageId agent < msg_id m) allMessages) = Inr rawAnalysis
        \<and> parseAnalysisResult JSON_parse rawAnalysis = Some a
        \<and> applyAnalysisResults a s = (Some e, s')"
    using that by (intro run_apply_failed [where allMessages = allMessages
          and rawAnalysis = rawAnalysis and analysis = a]) blast+
qed

lemma applyNote_Some:
  assumes "svc_db s = Some d" and "map_of props ''title'' = Some (JString title)"
    and "title \<noteq> []" and "map_of props ''body'' = Some (JString body)" and "body \<noteq> []"
  shows "applyNote (JObject props) s =
     (None, s\<lparr>svc_db := Some (d\<lparr>db_clock_reads := Suc (db_clock_reads d),
                 db_Notes := db_Notes d @
                   [\<lparr>note_id = lastInsertRowId (map note_id (db_Notes d)),
                     note_title = title, note_body = body, note_created_by = ''vi'',
                     note_tags = None,
                     note_created_at = db_clock d (db_clock_reads d)\<rparr>]\<rparr>)\<rparr>)"
  using assms by (simp add: applyNote_def addNote_bound [OF assms(1)])

lemma demo_night_groceries: "\<not> title_matches ''Groceries'' ''Movie Night''"
  by code_simp

lemma demo_night_todo: "\<not> title_matches ''To-Do'' ''Movie Night''"
  by code_simp

lemma demo_night_type: "replace_ws_runs (toLowerCase ''Movie Night'') = ''movie_night''"
  by code_simp

lemma demo_partial_notes:
  "for_of applyNote (ar_notes demo_partial_analysis) demo_full_store =
     (None, \<lparr>svc_db = Some (demo_full_db\<lparr>db_clock_reads := 1,
        db_Notes := [\<lparr>note_id = 1, note_title = ''Dentist'',
                      note_body = ''Appointment on Friday'', note_created_by = ''vi'',
                      note_tags = None, note_created_at = 100\<rparr>]\<rparr>)\<rparr>)"
  by (simp add: demo_partial_analysis_def
        applyNote_Some [OF demo_full_open, where title = "''Dentist''"
          and body = "''Appointment on Friday''"])
    (simp add: demo_full_store_def demo_full_db_def demo_db_def lastInsertRowId_def)

lemma demo_partial_lists:
  "for_of applyListGroup (ar_listItems demo_partial_analysis)
     \<lparr>svc_db = Some (demo_full_db\<lparr>db_clock_reads := 1,
        db_Notes := [\<lparr>note_id = 1, note_title = ''Dentist'',
                      note_body = ''Appointment on Friday'', note_created_by = ''vi'',
                      note_tags = None, note_created_at = 100\<rparr>]\<rparr>)\<rparr> =
     (Some ConstraintFailed,
      \<lparr>svc_db = Some (demo_full_db\<lparr>db_clock_reads := 3,
        db_Notes := [\<lparr>note_id = 1, note_title = ''Dentist'',
                      note_body = ''Appointment on Friday'', note_created_by = ''vi'',
                      note_tags = None, note_created_at = 100\<rparr>],
        db_Lists := demo_lists @
          [\<lparr>list_id = 3, list_title = ''Movie Night'', list_type = ''movie_night'',
            list_created_at = 101\<rparr>],
        db_ListItems := [\<lparr>item_id = 1, item_list_id = 3, item_content = ''Up'',
                          item_is_completed = False, item_created_at = 102\<rparr>]\<rparr>)\<rparr>)"
proof -
  let ?d1 = "demo_full_db\<lparr>db_clock_reads := 1,
        db_Notes := [\<lparr>note_id = 1, note_title = ''Dentist'',
                      note_body = ''Appointment on Friday'', note_created_by = ''vi'',
                      note_tags = None, note_created_at = 100\<rparr>]\<rparr>"
  let ?props = "[(''listName'', JString ''Movie Night''),
                 (''items'', JArray [JString ''Up'', JNull])]"
  let ?d2 = "demo_full_db\<lparr>db_clock_reads := 2,
        db_Notes := [\<lparr>note_id = 1, note_title = ''Dentist'',
                      note_body = ''Appointment on Friday'', note_created_by = ''vi'',
                      note_tags = None, note_created_at = 100\<rparr>],
        db_Lists := demo_lists @
          [\<lparr>list_id = 3, list_title = ''Movie Night'', list_type = ''movie_night'',
            list_created_at = 101\<rparr>]\<rparr>"
  let ?d3 = "demo_full_db\<lparr>db_clock_reads := 3,
        db_Notes := [\<lparr>note_id = 1, note_title = ''Dentist'',
                      note_body = ''Appointment on Friday'', note_created_by = ''vi'',
                      note_tags = None, note_created_at = 100\<rparr>],
        db_Lists := demo_lists @
          [\<lparr>list_id = 3, list_title = ''Movie Night'', list_type = ''movie_night'',
            list_created_at = 101\<rparr>],
        db_ListItems := [\<lparr>item_id = 1, item_list_id = 3, item_content = ''Up'',
                          item_is_completed = False, item_created_at = 102\<rparr>]\<rparr>"
  have order: "order_by_desc list_created_at demo_lists = demo_lists"
    by (simp add: order_by_desc_def demo_lists_def)
  have g: "getAllLists \<lparr>svc_db = Some ?d1\<rparr> = Inr demo_lists"
    by (simp add: getAllLists_def order) (simp add: demo_full_db_def order)
  have find: "js_find (\<lambda>list. matches_item (JObject ?props) ''listName'' (list_title list))
      demo_lists = Inr None"
    by (simp add: find_list_string [where name = "''Movie Night''"])
      (simp add: demo_lists_def demo_night_groceries demo_night_todo)
  have newid: "lastInsertRowId (map list_id demo_lists) = 3"
    by (simp add: demo_lists_def lastInsertRowId_def)
  have cr: "createList \<lparr>svc_db = Some ?d1\<rparr> ''Movie Night'' ''movie_night'' =
      Inr (3, \<lparr>svc_db = Some ?d2\<rparr>)"
    by (simp add: createList_def read_clock_def Let_def)
      (simp add: demo_full_db_def demo_db_def newid)
  have up: "addItem 3 (JString ''Up'') \<lparr>svc_db = Some ?d2\<rparr> = (None, \<lparr>svc_db = Some ?d3\<rparr>)"
    by (simp add: addItem_def addListItem_def read_clock_def Let_def)
      (simp add: demo_full_db_def demo_db_def lastInsertRowId_def)
  have null: "addItem 3 JNull \<lparr>svc_db = Some ?d3\<rparr> = (Some ConstraintFailed, \<lparr>svc_db = Some ?d3\<rparr>)"
    by (simp add: addItem_def addListItem_def)
  have items: "for_items (JObject ?props) (addItem 3) \<lparr>svc_db = Some ?d2\<rparr> =
      (Some ConstraintFailed, \<lparr>svc_db = Some ?d3\<rparr>)"
    by (simp add: for_items_def up [simplified] null [simplified])
  have "applyListGroup (JObject ?props) \<lparr>svc_db = Some ?d1\<rparr> =
      (Some ConstraintFailed, \<lparr>svc_db = Some ?d3\<rparr>)"
    by (simp add: applyListGroup_def g [simplified] find demo_night_type cr [simplified]
        items [simplified])
  then show ?thesis
    by (simp add: demo_partial_analysis_def)
qed

theorem store_failure_aborts_witness:
  "for_of applyMindmapNode
     ([JObject [(''label'', JString ''Likes tea''), (''category'', JString ''hobby'')]] @
      [JObject [(''label'', JString ''Loves hiking''), (''category'', JString ''values'')]])
     demo_full_store = (Some ConstraintFailed, demo_full_store)
   \<and> applyAnalysisResults
       \<lparr>ar_notes = [JNull], ar_listItems = [], ar_completedGoals = [],
        ar_mindmapNodes = [JObject [(''label'', JString ''Loves hiking''),
                                    (''category'', JString ''values'')]]\<rparr>
       demo_full_store = (Some TypeError, demo_full_store)
   \<and> applyAnalysisResults demo_partial_analysis demo_full_store =
       (Some ConstraintFailed,
        \<lparr>svc_db = Some (demo_full_db\<lparr>db_clock_reads := 3,
          db_Notes := [\<lparr>note_id = 1, note_title = ''Dentist'',
                        note_body = ''Appointment on Friday'', note_created_by = ''vi'',
                        note_tags = None, note_created_at = 100\<rparr>],
          db_Lists := demo_lists @
            [\<lparr>list_id = 3, list_title = ''Movie Night'', list_type = ''movie_night'',
              list_created_at = 101\<rparr>],
          db_ListItems := [\<lparr>item_id = 1, item_list_id = 3, item_content = ''Up'',
                            item_is_completed = False, item_created_at = 102\<rparr>]\<rparr>)\<rparr>)
   \<and> applyAnalysisResults
       \<lparr>ar_notes = [], ar_listItems = [], ar_completedGoals = [JObject []],
        ar_mindmapNodes = [JObject [(''label'', JString ''Loves hiking''),
                                    (''category'', JString ''values'')]]\<rparr>
       demo_full_store = (Some TypeError, demo_full_store)
   \<and> applyAnalysisResults demo_failing_analysis demo_full_store =
       (Some ConstraintFailed, demo_full_store)
   \<and> applyNote (JObject [(''title'', JNumber 5), (''body'', JString ''x'')]) demo_full_store =
       (Some BindFailed, demo_full_store)
   \<and> addItem 1 (JBool True) demo_full_store = (Some BindFailed, demo_full_store)
   \<and> addItem 1 JNull demo_full_store = (Some ConstraintFailed, demo_full_store)
   \<and> applyMindmapNode
       (JObject [(''label'', JString ''Likes tea''), (''category'', JString ''hobby'')])
       demo_full_store = (Some ConstraintFailed, demo_full_store)
   \<and> prefix demo_lists (demo_lists @
        [\<lparr>list_id = 3, list_title = ''Movie Night'', list_type = ''movie_night'',
          list_created_at = 101\<rparr>])
   \<and> processRecentConversations demo_parse (demo_llm demo_failing_text) demo_agent
       demo_full_store = (ProcessingError ConstraintFailed, demo_agent, demo_full_store)"
proof -
  let ?bad = "JObject [(''label'', JString ''Likes tea''), (''category'', JString ''hobby'')]"
  let ?good = "JObject [(''label'', JString ''Loves hiking''),
                        (''category'', JString ''values'')]"
  let ?a2 = "\<lparr>ar_notes = [JNull], ar_listItems = [], ar_completedGoals = [],
              ar_mindmapNodes = [?good]\<rparr>"
  let ?a4 = "\<lparr>ar_notes = [], ar_listItems = [], ar_completedGoals = [JObject []],
              ar_mindmapNodes = [?good]\<rparr>"
  let ?s1 = "\<lparr>svc_db = Some (demo_full_db\<lparr>db_clock_reads := 1,
        db_Notes := [\<lparr>note_id = 1, note_title = ''Dentist'',
                      note_body = ''Appointment on Friday'', note_created_by = ''vi'',
                      note_tags = None, note_created_at = 100\<rparr>]\<rparr>)\<rparr>"
  let ?d3 = "demo_full_db\<lparr>db_clock_reads := 3,
          db_Notes := [\<lparr>note_id = 1, note_title = ''Dentist'',
                        note_body = ''Appointment on Friday'', note_created_by = ''vi'',
                        note_tags = None, note_created_at = 100\<rparr>],
          db_Lists := demo_lists @
            [\<lparr>list_id = 3, list_title = ''Movie Night'', list_type = ''movie_night'',
              list_created_at = 101\<rparr>],
          db_ListItems := [\<lparr>item_id = 1, item_list_id = 3, item_content = ''Up'',
                            item_is_completed = False, item_created_at = 102\<rparr>]\<rparr>"
  let ?s3 = "\<lparr>svc_db = Some ?d3\<rparr>"
  have goals: "db_Goals demo_full_db \<noteq> []"
    by (simp add: demo_full_db_def demo_goals_def)
  have hobby: "applyMindmapNode ?bad demo_full_store = (Some ConstraintFailed, demo_full_store)"
    by (rule store_failure_aborts [where t = demo_full_store and d = demo_full_db
          and props = "[(''label'', JString ''Likes tea''), (''category'', JString ''hobby'')]"
          and l = "''Likes tea''" and c = "''hobby''",
          THEN conjunct2, THEN conjunct2, THEN conjunct2, THEN conjunct2, THEN conjunct2,
          THEN conjunct2, THEN conjunct2, THEN conjunct2, THEN conjunct1, THEN mp])
      (simp add: demo_full_open demo_full_no_facts)
  then have one: "for_of applyMindmapNode [?bad] demo_full_store =
      (Some ConstraintFailed, demo_full_store)"
    by simp
  have 1: "for_of applyMindmapNode ([?bad] @ [?good]) demo_full_store =
      (Some ConstraintFailed, demo_full_store)"
    by (rule store_failure_aborts [where body = applyMindmapNode and xs = "[?bad]"
          and ys = "[?good]" and s = demo_full_store and s' = demo_full_store
          and e = ConstraintFailed, THEN conjunct1, THEN mp]) (rule one)
  have 2: "applyAnalysisResults ?a2 demo_full_store = (Some TypeError, demo_full_store)"
    by (rule store_failure_aborts [where a = ?a2 and s = demo_full_store
          and s' = demo_full_store and e = TypeError, THEN conjunct2, THEN conjunct1, THEN mp])
      (simp add: applyNote_def)
  have 3: "applyAnalysisResults demo_partial_analysis demo_full_store =
      (Some ConstraintFailed, ?s3)"
    by (rule store_failure_aborts [where a = demo_partial_analysis and s = demo_full_store
          and sa = ?s1 and s' = ?s3 and e = ConstraintFailed, THEN conjunct2, THEN conjunct2,
          THEN conjunct1, THEN mp])
      (simp only: demo_partial_notes demo_partial_lists simp_thms)
  have goal_step: "applyGoalCompletion (JObject []) demo_full_store =
      (Some TypeError, demo_full_store)"
    using goals
    by (simp add: applyGoalCompletion_def getAllGoals_Some [OF demo_full_open]
        js_find_throws [where e = TypeError] matches_item_not_string)
  have 4: "applyAnalysisResults ?a4 demo_full_store = (Some TypeError, demo_full_store)"
    by (rule store_failure_aborts [where a = ?a4 and s = demo_full_store
          and sa = demo_full_store and sb = demo_full_store and s' = demo_full_store
          and e = TypeError, THEN conjunct2, THEN conjunct2, THEN conjunct2, THEN conjunct1,
          THEN mp])
      (simp add: goal_step)
  have 5: "applyAnalysisResults demo_failing_analysis demo_full_store =
      (Some ConstraintFailed, demo_full_store)"
    by (rule store_failure_aborts [where a = demo_failing_analysis and s = demo_full_store
          and sa = demo_full_store and sb = demo_full_store and sc = demo_full_store
          and s' = demo_full_store and e = ConstraintFailed, THEN conjunct2, THEN conjunct2,
          THEN conjunct2, THEN conjunct2, THEN conjunct1, THEN mp])
      (simp add: demo_failing_analysis_def demo_failing_step)
  have 6: "applyNote (JObject [(''title'', JNumber 5), (''body'', JString ''x'')])
      demo_full_store = (Some BindFailed, demo_full_store)"
    by (rule store_failure_aborts [where t = demo_full_store
          and props = "[(''title'', JNumber 5), (''body'', JString ''x'')]"
          and tv = "JNumber 5" and bv = "JString ''x''" and e = BindFailed,
          THEN conjunct2, THEN conjunct2, THEN conjunct2, THEN conjunct2, THEN conjunct2,
          THEN conjunct1, THEN mp])
      (simp add: addNote_def bind_text_def demo_full_store_def demo_full_db_def demo_db_def)
  have 7: "addItem 1 (JBool True) demo_full_store = (Some BindFailed, demo_full_store)"
    by (rule store_failure_aborts [where t = demo_full_store and listId = 1
          and item = "JBool True" and e = BindFailed,
          THEN conjunct2, THEN conjunct2, THEN conjunct2, THEN conjunct2, THEN conjunct2,
          THEN conjunct2, THEN conjunct1, THEN mp])
      (simp add: addListItem_def bind_text_def demo_full_store_def demo_full_db_def demo_db_def)
  have 8: "addItem 1 JNull demo_full_store = (Some ConstraintFailed, demo_full_store)"
    by (rule store_failure_aborts [where t = demo_full_store and d = demo_full_db
          and listId = 1, THEN conjunct2, THEN conjunct2, THEN conjunct2, THEN conjunct2,
          THEN conjunct2, THEN conjunct2, THEN conjunct2, THEN conjunct1, THEN mp])
      (rule demo_full_open)
  have "\<exists>d'. svc_db ?s3 = Some d'
           \<and> db_User d' = db_User demo_full_db \<and> db_Messages d' = db_Messages demo_full_db
           \<and> prefix (db_Notes demo_full_db) (db_Notes d')
           \<and> prefix (db_Lists demo_full_db) (db_Lists d')
           \<and> prefix (db_ListItems demo_full_db) (db_ListItems d')
           \<and> prefix (db_MindmapNodes demo_full_db) (db_MindmapNodes d')
           \<and> list_all2 (\<lambda>g g'. g'\<lparr>goal_streak_count := goal_streak_count g,
                                    goal_last_completed_date := goal_last_completed_date g\<rparr> = g
                                \<and> goal_streak_count g \<le> goal_streak_count g')
                (db_Goals demo_full_db) (db_Goals d')"
    by (rule store_failure_aborts [where a = demo_partial_analysis and s = demo_full_store
          and d = demo_full_db and s' = ?s3 and e = ConstraintFailed,
          THEN conjunct2, THEN conjunct2, THEN conjunct2, THEN conjunct2, THEN conjunct2,
          THEN conjunct2, THEN conjunct2, THEN conjunct2, THEN conjunct2, THEN conjunct1,
          THEN mp])
      (simp add: demo_full_open 3)
  then have 9: "prefix demo_lists (demo_lists @
        [\<lparr>list_id = 3, list_title = ''Movie Night'', list_type = ''movie_night'',
          list_created_at = 101\<rparr>])"
    by (simp add: demo_full_db_def)
  have 10: "processRecentConversations demo_parse (demo_llm demo_failing_text) demo_agent
       demo_full_store = (ProcessingError ConstraintFailed, demo_agent, demo_full_store)"
    by (rule store_failure_aborts [where agent = demo_agent
          and llm = "demo_llm demo_failing_text" and s = demo_full_store
          and allMessages = demo_messages and rawAnalysis = demo_failing_text
          and JSON_parse = demo_parse and a = demo_failing_analysis and e = ConstraintFailed
          and s' = demo_full_store,
          THEN conjunct2, THEN conjunct2, THEN conjunct2, THEN conjunct2, THEN conjunct2,
          THEN conjunct2, THEN conjunct2, THEN conjunct2, THEN conjunct2, THEN conjunct2,
          THEN mp])
      (simp add: demo_full_getAllMessages demo_analyze demo_failing_trim demo_failing_parse
        5 isReady_def,
       simp add: demo_agent_def demo_llm_def demo_messages_def)
  from 1 2 3 4 5 6 7 8 hobby 9 10 show ?thesis
    by blast
qed

section \<open>Parsing the analysis\<close>

lemma get_property_not_null:
  "parsed \<noteq> JNull \<Longrightarrow> \<exists>v. get_property parsed key = Inr v \<and> array_or_empty v = coerced_key parsed key"
  by (cases parsed) (auto simp: coerced_key_def split: option.splits json.splits)

lemma parse_not_null:
  assumes "JSON_parse (clean_json rawJson) = Some parsed" and "parsed \<noteq> JNull"
  shows "parseAnalysisResult JSON_parse rawJson =
     Some \<lparr>ar_notes = coerced_key parsed ''notes'',
           ar_listItems = coerced_key parsed ''listItems'',
           ar_completedGoals = coerced_key parsed ''completedGoals'',
           ar_mindmapNodes = coerced_key parsed ''mindmapNodes''\<rparr>"
proof -
  from get_property_not_null [OF assms(2)] obtain a b c d where
    "get_property parsed ''notes'' = Inr a" "array_or_empty a = coerced_key parsed ''notes''"
    "get_property parsed ''listItems'' = Inr b"
    "array_or_empty b = coerced_key parsed ''listItems''"
    "get_property parsed ''completedGoals'' = Inr c"
    "array_or_empty c = coerced_key parsed ''completedGoals''"
    "get_property parsed ''mindmapNodes'' = Inr d"
    "array_or_empty d = coerced_key parsed ''mindmapNodes''"
    by metis
  with assms(1) show ?thesis
    by (simp add: parseAnalysisResult_def)
qed

lemma demo_clean_null: "clean_json ''null'' = ''null''"
  by code_simp

lemma demo_clean_not_json: "clean_json ''not json'' = ''not json''"
  by code_simp

lemma demo_clean_notes: \<open>clean_json ''{"notes":"x"}'' = ''{"notes":"x"}''\<close>
  by code_simp

lemma demo_clean_fenced:
  "clean_json (''  ```json'' @ NL @ ''{}'' @ NL @ ''```'' @ NL) = ''{}''"
  by code_simp

lemma demo_clean_nbsp: "clean_json (CHR 0xA0 # ''{}'' @ [CHR 0xA0, CHR 0x0A]) = ''{}''"
  by code_simp

lemma fence_length: "length ''```json'' = 7"
  by simp

lemma fence_lower: "toLowerCase ''```json'' = ''```json''"
  by code_simp

lemma strip_fence_open_tag:
  assumes "toLowerCase opn = ''```json''"
  shows "strip_fence_open (opn @ r) = (if prefix NL r then drop 1 r else r)"
proof -
  from assms have "toLowerCase opn = toLowerCase ''```json''"
    by (simp only: fence_lower)
  from ci_prefix_tag [OF this, of r]
  have c: "ci_prefix ''```json'' (opn @ r)" and d: "drop 7 (opn @ r) = r"
    by (simp_all only: fence_length)
  show ?thesis
    unfolding strip_fence_open_def
    by (simp only: c d if_True Let_def)
qed

lemma strip_fence_open_other:
  assumes "toLowerCase (take 7 str) \<noteq> ''```json''"
  shows "strip_fence_open str = str"
proof -
  from assms have "\<not> ci_prefix ''```json'' str"
    unfolding ci_prefix_def fence_length fence_lower .
  then show ?thesis
    unfolding strip_fence_open_def by (simp only: if_False)
qed

lemma strip_fence_close_tag:
  "strip_fence_close (r @ ''```'') =
     (if suffix NL r then take (length r - 1) r else r)"
proof (cases "suffix NL r")
  case True
  then obtain p where r: "r = p @ NL"
    by (auto simp: suffix_def)
  have s: "suffix (NL @ ''```'') (r @ ''```'')"
    unfolding r by (rule suffixI [where zs = p]) simp
  have "take (length (r @ ''```'') - 4) (r @ ''```'') = p"
    unfolding r by (simp add: NL_def)
  moreover have "take (length r - 1) r = p"
    unfolding r by (simp add: NL_def)
  ultimately show ?thesis
    unfolding strip_fence_close_def
    by (simp only: s True if_True)
next
  case False
  have n: "\<not> suffix (NL @ ''```'') (r @ ''```'')"
  proof
    assume "suffix (NL @ ''```'') (r @ ''```'')"
    then have "suffix NL r"
      by (simp add: NL_def suffix_def)
    with False show False
      by simp
  qed
  have s: "suffix ''```'' (r @ ''```'')"
    by (rule suffixI [where zs = r]) simp
  have "take (length (r @ ''```'') - 3) (r @ ''```'') = r"
    by simp
  then show ?thesis
    unfolding strip_fence_close_def
    by (simp only: n s False if_True if_False)
qed

lemma strip_fence_close_other:
  assumes "\<not> suffix ''```'' str"
  shows "strip_fence_close str = str"
proof -
  have "\<not> suffix (NL @ ''```'') str"
  proof
    assume "suffix (NL @ ''```'') str"
    then obtain p where "str = (p @ NL) @ ''```''"
      by (auto simp: suffix_def)
    then have "suffix ''```'' str"
      by (intro suffixI)
    with assms show False
      by simp
  qed
  with assms show ?thesis
    unfolding strip_fence_close_def by (simp only: if_False)
qed

text \<open>
  C6, as the specification states it, fails on the code for the JSON text \<open>null\<close>: it
  is valid JSON and \<open>JSON.parse\<close> returns \<open>null\<close> for it, but reading \<open>parsed.notes\<close> then
  throws inside the \<open>try\<close> block, so the function returns no result and not four empty
  arrays.
\<close>

theorem parse_null_counterexample:
  "demo_parse (clean_json ''null'') = Some JNull
   \<and> parseAnalysisResult demo_parse ''null'' = None"
  by (simp add: demo_clean_null parseAnalysisResult_def demo_parse_def)

text \<open>
  C6, amended. The text handed to \<open>JSON.parse\<close> is the input trimmed, without a leading
  \<open>```json\<close> (in any case, with the line feed behind it) and without a trailing \<open>```\<close>
  (with the line feed before it), and trimmed again; trimming takes white space, the
  no-break space included, from both ends. When that text is not valid JSON the result
  is \<open>null\<close>, as for \<open>not json\<close>. When it parses to \<open>null\<close> the result is \<open>null\<close> as
  well. When it parses to any other value, the result holds under each of the four keys
  the array the value has there, unchanged, and an empty array when the key is missing
  or holds something that is not an array, as for \<open>{"notes":"x"}\<close>. The function
  returns in every case.
\<close>

theorem parse_analysis_result:
  \<open>clean_json rawJson = trim (strip_fence_close (strip_fence_open (trim rawJson)))
   \<and> clean_json (''  ```json'' @ NL @ ''{}'' @ NL @ ''```'' @ NL) = ''{}''
   \<and> (JSON_parse (clean_json rawJson) = None \<longrightarrow>
        parseAnalysisResult JSON_parse rawJson = None)
   \<and> (JSON_parse (clean_json rawJson) = Some JNull \<longrightarrow>
        parseAnalysisResult JSON_parse rawJson = None)
   \<and> (JSON_parse (clean_json rawJson) = Some parsed \<and> parsed \<noteq> JNull \<longrightarrow>
        parseAnalysisResult JSON_parse rawJson =
          Some \<lparr>ar_notes = coerced_key parsed ''notes'',
                ar_listItems = coerced_key parsed ''listItems'',
                ar_completedGoals = coerced_key parsed ''completedGoals'',
                ar_mindmapNodes = coerced_key parsed ''mindmapNodes''\<rparr>)
   \<and> (JSON_parse ''not json'' = None \<longrightarrow> parseAnalysisResult JSON_parse ''not json'' = None)
   \<and> (JSON_parse ''{"notes":"x"}'' = Some (JObject [(''notes'', JString ''x'')]) \<longrightarrow>
        parseAnalysisResult JSON_parse ''{"notes":"x"}'' =
          Some \<lparr>ar_notes = [], ar_listItems = [], ar_completedGoals = [],
                ar_mindmapNodes = []\<rparr>)
   \<and> (\<exists>a b. str = a @ trim str @ b \<and> (\<forall>x \<in> set a. isSpace x) \<and> (\<forall>x \<in> set b. isSpace x))
   \<and> (trim str = [] \<or> (\<not> isSpace (hd (trim str)) \<and> \<not> isSpace (last (trim str))))
   \<and> (isSpace ch \<longleftrightarrow>
        ch \<in> {CHR 0x09, CHR 0x0A, CHR 0x0B, CHR 0x0C, CHR 0x0D, CHR 0x20, CHR 0xA0})
   \<and> clean_json (CHR 0xA0 # ''{}'' @ [CHR 0xA0, CHR 0x0A]) = ''{}''
   \<and> (toLowerCase opn = ''```json'' \<longrightarrow>
        strip_fence_open (opn @ rest) = (if prefix [CHR 0x0A] rest then drop 1 rest else rest))
   \<and> (toLowerCase (take 7 str) \<noteq> ''```json'' \<longrightarrow> strip_fence_open str = str)
   \<and> strip_fence_close (rest @ ''```'') =
        (if suffix [CHR 0x0A] rest then take (length rest - 1) rest else rest)
   \<and> (\<not> suffix ''```'' str \<longrightarrow> strip_fence_close str = str)\<close>
proof (intro conjI impI)
  show "clean_json rawJson = trim (strip_fence_close (strip_fence_open (trim rawJson)))"
    by (simp add: clean_json_def)
  show "clean_json (''  ```json'' @ NL @ ''{}'' @ NL @ ''```'' @ NL) = ''{}''"
    by (rule demo_clean_fenced)
  show "JSON_parse (clean_json rawJson) = None \<Longrightarrow> parseAnalysisResult JSON_parse rawJson = None"
    by (simp add: parseAnalysisResult_def)
  show "JSON_parse (clean_json rawJson) = Some JNull \<Longrightarrow>
        parseAnalysisResult JSON_parse rawJson = None"
    by (simp add: parseAnalysisResult_def)
  show "JSON_parse (clean_json rawJson) = Some parsed \<and> parsed \<noteq> JNull \<Longrightarrow>
        parseAnalysisResult JSON_parse rawJson =
          Some \<lparr>ar_notes = coerced_key parsed ''notes'',
                ar_listItems = coerced_key parsed ''listItems'',
                ar_completedGoals = coerced_key parsed ''completedGoals'',
                ar_mindmapNodes = coerced_key parsed ''mindmapNodes''\<rparr>"
    by (simp add: parse_not_null)
  show "JSON_parse ''not json'' = None \<Longrightarrow> parseAnalysisResult JSON_parse ''not json'' = None"
    by (simp add: parseAnalysisResult_def demo_clean_not_json)
  show \<open>JSON_parse ''{"notes":"x"}'' = Some (JObject [(''notes'', JString ''x'')]) \<Longrightarrow>
        parseAnalysisResult JSON_parse ''{"notes":"x"}'' =
          Some \<lparr>ar_notes = [], ar_listItems = [], ar_completedGoals = [],
                ar_mindmapNodes = []\<rparr>\<close>
    by (simp add: parseAnalysisResult_def demo_clean_notes)
  show "\<exists>a b. str = a @ trim str @ b \<and> (\<forall>x \<in> set a. isSpace x) \<and> (\<forall>x \<in> set b. isSpace x)"
    by (rule trim_decompose)
  show "trim str = [] \<or> (\<not> isSpace (hd (trim str)) \<and> \<not> isSpace (last (trim str)))"
    by (rule trim_ends)
  show "isSpace ch \<longleftrightarrow>
        ch \<in> {CHR 0x09, CHR 0x0A, CHR 0x0B, CHR 0x0C, CHR 0x0D, CHR 0x20, CHR 0xA0}"
    by (simp add: isSpace_def)
  show "clean_json (CHR 0xA0 # ''{}'' @ [CHR 0xA0, CHR 0x0A]) = ''{}''"
    by (rule demo_clean_nbsp)
  show "strip_fence_open (opn @ rest) = (if prefix [CHR 0x0A] rest then drop 1 rest else rest)"
    if "toLowerCase opn = ''```json''"
    using strip_fence_open_tag [OF that, of rest] unfolding NL_def .
  show "strip_fence_open str = str" if "toLowerCase (take 7 str) \<noteq> ''```json''"
    using that by (rule strip_fence_open_other)
  show "strip_fence_close (rest @ ''```'') =
        (if suffix [CHR 0x0A] rest then take (length rest - 1) rest else rest)"
    using strip_fence_close_tag [of rest] unfolding NL_def .
  show "strip_fence_close str = str" if "\<not> suffix ''```'' str"
    using that by (rule strip_fence_close_other)
qed

theorem parse_analysis_result_witness:
  \<open>parseAnalysisResult demo_parse ''not json'' = None
   \<and> parseAnalysisResult demo_parse ''null'' = None
   \<and> parseAnalysisResult demo_parse demo_failing_text =
       Some \<lparr>ar_notes = [], ar_listItems = [], ar_completedGoals = [],
             ar_mindmapNodes =
               [JObject [(''label'', JString ''Likes tea''), (''category'', JString ''hobby'')],
                JObject [(''label'', JString ''Loves hiking''),
                         (''category'', JString ''values''), (''confidence'', JNumber 0.9)]]\<rparr>
   \<and> parseAnalysisResult demo_parse ''{"notes":"x"}'' =
       Some \<lparr>ar_notes = [], ar_listItems = [], ar_completedGoals = [],
             ar_mindmapNodes = []\<rparr>
   \<and> strip_fence_open (''```JSON'' @ ''{}'') = ''{}''
   \<and> strip_fence_open ''{}'' = ''{}''
   \<and> strip_fence_close ''{}'' = ''{}''\<close>
proof -
  have p1: "demo_parse ''not json'' = None"
    by (simp add: demo_parse_def demo_failing_text_def)
  have p2: "demo_parse (clean_json ''null'') = Some JNull"
    by (simp add: demo_clean_null demo_parse_def)
  have p3: "demo_parse (clean_json demo_failing_text) = Some demo_failing_json
      \<and> demo_failing_json \<noteq> JNull"
    by (simp add: demo_failing_clean demo_parse_def demo_failing_json_def)
      (simp add: demo_failing_text_def)
  have p4: \<open>demo_parse ''{"notes":"x"}'' = Some (JObject [(''notes'', JString ''x'')])\<close>
    by (simp add: demo_parse_def)
  have p5: "toLowerCase ''```JSON'' = ''```json''"
    by code_simp
  have p6: "toLowerCase (take 7 ''{}'') \<noteq> ''```json''"
    by code_simp
  have p7: "\<not> suffix ''```'' ''{}''"
    by (simp add: suffix_def)
  have 1: "parseAnalysisResult demo_parse ''not json'' = None"
    by (rule parse_analysis_result [where JSON_parse = demo_parse, THEN conjunct2, THEN conjunct2, THEN conjunct2, THEN conjunct2, THEN conjunct2, THEN conjunct1, THEN mp, OF p1])
  have 2: "parseAnalysisResult demo_parse ''null'' = None"
    by (rule parse_analysis_result [where JSON_parse = demo_parse and rawJson = "''null''",
          THEN conjunct2, THEN conjunct2, THEN conjunct2, THEN conjunct1, THEN mp, OF p2])
  have 3: "parseAnalysisResult demo_parse demo_failing_text =
      Some \<lparr>ar_notes = coerced_key demo_failing_json ''notes'',
            ar_listItems = coerced_key demo_failing_json ''listItems'',
            ar_completedGoals = coerced_key demo_failing_json ''completedGoals'',
            ar_mindmapNodes = coerced_key demo_failing_json ''mindmapNodes''\<rparr>"
    by (rule parse_analysis_result [where JSON_parse = demo_parse
          and rawJson = demo_failing_text and parsed = demo_failing_json,
          THEN conjunct2, THEN conjunct2, THEN conjunct2, THEN conjunct2, THEN conjunct1, THEN mp, OF p3])
  have 4: \<open>parseAnalysisResult demo_parse ''{"notes":"x"}'' =
       Some \<lparr>ar_notes = [], ar_listItems = [], ar_completedGoals = [],
             ar_mindmapNodes = []\<rparr>\<close>
    by (rule parse_analysis_result [where JSON_parse = demo_parse, THEN conjunct2, THEN conjunct2, THEN conjunct2, THEN conjunct2, THEN conjunct2, THEN conjunct2, THEN conjunct1, THEN mp, OF p4])
  have 5: "strip_fence_open (''```JSON'' @ ''{}'') = ''{}''"
    using parse_analysis_result [where opn = "''```JSON''" and rest = "''{}''", THEN conjunct2, THEN conjunct2, THEN conjunct2, THEN conjunct2, THEN conjunct2, THEN conjunct2, THEN conjunct2, THEN conjunct2, THEN conjunct2, THEN conjunct2, THEN conjunct2, THEN conjunct1, THEN mp, OF p5]
    by simp
  have 6: "strip_fence_open ''{}'' = ''{}''"
    by (rule parse_analysis_result [where str = "''{}''", THEN conjunct2, THEN conjunct2, THEN conjunct2, THEN conjunct2, THEN conjunct2, THEN conjunct2, THEN conjunct2, THEN conjunct2, THEN conjunct2, THEN conjunct2, THEN conjunct2, THEN conjunct2, THEN conjunct1, THEN mp, OF p6])
  have 7: "strip_fence_close ''{}'' = ''{}''"
    by (rule parse_analysis_result [where str = "''{}''", THEN conjunct2, THEN conjunct2, THEN conjunct2, THEN conjunct2, THEN conjunct2, THEN conjunct2, THEN conjunct2, THEN conjunct2, THEN conjunct2, THEN conjunct2, THEN conjunct2, THEN conjunct2, THEN conjunct2, THEN conjunct2, THEN mp, OF p7])
  from 1 2 4 5 6 7 show ?thesis
    unfolding 3 by (simp add: coerced_key_def demo_failing_json_def)
qed

end
